(* ===== verification/Holder_Prelude.thy ===== *)
theory Holder_Prelude
  imports Main "HOL-Library.Char_ord" "HOL-Library.List_Lexorder" "HOL-Library.Multiset"
begin

text \<open>
  Shared vocabulary of the development: exceptions as values, loops that may throw, the C++
  string operations the sources use, and sorting by a comparison function.

  Strings are lists of bytes (\<^typ>\<open>char\<close> is one byte), as \<open>std::string\<close> is. Their order \<open><\<close> is
  the byte-wise lexicographic order of \<open>std::string\<close> and of SQLite's BINARY collation.
\<close>

section \<open>Automation collections\<close>

named_theorems result_simps \<open>evaluation of computations that may throw\<close>
named_theorems table_simps \<open>reading a table after it was written\<close>
named_theorems tree_simps \<open>facts on the manual tree order\<close>

section \<open>Names for the model's basic types\<close>

type_synonym i64 = int
type_synonym bytes = string
type_synonym path = string

abbreviation newline :: char where "newline \<equiv> CHR 0x0A"

section \<open>Exceptions as values\<close>

text \<open>
  The sources signal failure by throwing. A throwing function returns a sum: \<open>Inl\<close> the exception,
  \<open>Inr\<close> the value. The constructors are the exception classes the sources throw, with the message.
\<close>

datatype privacy_code =
    KeyMaterialMissing
  | KeyringUnavailable
  | RecoveryTokenInvalid
  | EnvelopeInvalid
  | EnvelopeMetadataMismatch
  | CryptMetadataMissing
  | EncryptionSafetyCheckFailed
  | PrivacyCryptoFailed

datatype exn =
    RuntimeError string
  | InvalidArgument string
  | SqliteError string
  | PrivacyError privacy_code string
  | JsonError string
  | NonFastForwardPull string string string

text \<open>\<open>what()\<close>.\<close>

fun what :: "exn \<Rightarrow> string" where
  "what (RuntimeError m) = m"
| "what (InvalidArgument m) = m"
| "what (SqliteError m) = m"
| "what (PrivacyError _ m) = m"
| "what (JsonError m) = m"
| "what (NonFastForwardPull _ _ _) = ''Non-fast-forward pull is not supported''"

primrec show_digits :: "nat \<Rightarrow> nat \<Rightarrow> string" where
  "show_digits 0 n = []"
| "show_digits (Suc fuel) n =
     (if n < 10 then [char_of (n + 48)] else show_digits fuel (n div 10) @ [char_of (n mod 10 + 48)])"

text \<open>\<open>std::to_string\<close>; as many digits as the number itself are always enough.\<close>

definition nat_to_string :: "nat \<Rightarrow> string" where
  "nat_to_string n = show_digits (Suc n) n"

type_synonym 'a result = "exn + 'a"

definition rbind :: "'e + 'a \<Rightarrow> ('a \<Rightarrow> 'e + 'b) \<Rightarrow> 'e + 'b" where
  "rbind m f = (case m of Inl e \<Rightarrow> Inl e | Inr x \<Rightarrow> f x)"

definition require :: "bool \<Rightarrow> 'e \<Rightarrow> 'e + unit" where
  "require b e = (if b then Inr () else Inl e)"

text \<open>A \<open>for\<close> loop over a container whose body may throw.\<close>

primrec rfold :: "('a \<Rightarrow> 's \<Rightarrow> 'e + 's) \<Rightarrow> 'a list \<Rightarrow> 's \<Rightarrow> 'e + 's" where
  "rfold f [] s = Inr s"
| "rfold f (x # xs) s = rbind (f x s) (rfold f xs)"

primrec rmap :: "('a \<Rightarrow> 'e + 'b) \<Rightarrow> 'a list \<Rightarrow> 'e + 'b list" where
  "rmap f [] = Inr []"
| "rmap f (x # xs) = rbind (f x) (\<lambda>y. rbind (rmap f xs) (\<lambda>ys. Inr (y # ys)))"

lemma rbind_simps [simp, result_simps]:
  "rbind (Inl e) f = Inl e"
  "rbind (Inr x) f = f x"
  by (simp_all add: rbind_def)

lemma rbind_eq_Inr [result_simps]: "rbind m f = Inr y \<longleftrightarrow> (\<exists>x. m = Inr x \<and> f x = Inr y)"
  by (cases m) auto

lemma rbind_eq_Inl [result_simps]:
  "rbind m f = Inl e \<longleftrightarrow> m = Inl e \<or> (\<exists>x. m = Inr x \<and> f x = Inl e)"
  by (cases m) auto

lemma rbind_Inr_right [simp]: "rbind m Inr = m"
  by (cases m) auto

lemma require_eq_Inr [simp, result_simps]: "require b e = Inr u \<longleftrightarrow> b"
  by (simp add: require_def)

lemma require_eq_Inl [simp, result_simps]: "require b e = Inl x \<longleftrightarrow> \<not> b \<and> x = e"
  by (auto simp: require_def)

lemma require_True [simp]: "require True e = Inr ()"
  by (simp add: require_def)

lemma require_False [simp]: "require False e = Inl e"
  by (simp add: require_def)

lemma rfold_append [result_simps]: "rfold f (xs @ ys) s = rbind (rfold f xs s) (rfold f ys)"
proof (induction xs arbitrary: s)
  case (Cons x xs)
  then show ?case by (cases "f x s") auto
qed simp

lemma rfold_map: "rfold f (map g xs) s = rfold (\<lambda>x. f (g x)) xs s"
  by (induction xs arbitrary: s) (auto simp: rbind_def split: sum.splits)

lemma rfold_error:
  assumes "rfold f xs s = Inl e" and "\<And>x s e. f x s = Inl e \<Longrightarrow> P e"
  shows "P e"
  using assms(1) by (induction xs arbitrary: s) (auto simp: rbind_eq_Inl intro: assms(2))

lemma rfold_invariant:
  assumes "rfold f xs s = Inr t" and "P s"
    and "\<And>x s t. x \<in> set xs \<Longrightarrow> P s \<Longrightarrow> f x s = Inr t \<Longrightarrow> P t"
  shows "P t"
  using assms
proof (induction xs arbitrary: s)
  case (Cons x xs)
  then obtain u where "f x s = Inr u" and "rfold f xs u = Inr t"
    by (auto simp: rbind_eq_Inr)
  with Cons show ?case by (metis list.set_intros)
qed simp

lemma rmap_Inr_length: "rmap f xs = Inr ys \<Longrightarrow> length ys = length xs"
  by (induction xs arbitrary: ys) (auto simp: rbind_eq_Inr)

lemma rmap_Inr_iff: "rmap f xs = Inr ys \<longleftrightarrow> list_all2 (\<lambda>x y. f x = Inr y) xs ys"
proof (induction xs arbitrary: ys)
  case (Cons x xs)
  then show ?case by (cases ys) (auto simp: rbind_eq_Inr)
qed auto

lemma rmap_Inr_set: "rmap f xs = Inr ys \<Longrightarrow> Inr ` set ys = f ` set xs"
proof (induction xs arbitrary: ys)
  case (Cons x xs)
  then obtain y zs where "f x = Inr y" "rmap f xs = Inr zs" "ys = y # zs" by (auto simp: rbind_eq_Inr)
  with Cons.IH show ?case by simp
qed simp

section \<open>Strings\<close>

text \<open>
  The repositories bind text with length \<open>-1\<close>, so SQLite reads the argument up to its first NUL
  byte; what \<open>sqlite3_column_text\<close> returns is read the same way.
\<close>

definition c_str :: "string \<Rightarrow> string" where
  "c_str s = takeWhile (\<lambda>c. c \<noteq> CHR 0x00) s"

definition nul_free :: "string \<Rightarrow> bool" where
  "nul_free s \<longleftrightarrow> CHR 0x00 \<notin> set s"

lemma c_str_nul_free [simp]: "nul_free s \<Longrightarrow> c_str s = s"
  by (auto simp: c_str_def nul_free_def takeWhile_eq_all_conv)

lemma nul_free_c_str [simp]: "nul_free (c_str s)"
  by (auto simp: c_str_def nul_free_def dest: set_takeWhileD)

lemma c_str_idem [simp]: "c_str (c_str s) = c_str s"
  by simp

lemma c_str_Nil [simp]: "c_str [] = []"
  by (simp add: c_str_def)

definition starts_with :: "string \<Rightarrow> string \<Rightarrow> bool" where
  "starts_with text prefix \<longleftrightarrow> take (length prefix) text = prefix"

lemma starts_with_append [simp]: "starts_with (p @ s) p"
  by (simp add: starts_with_def)

lemma starts_with_iff: "starts_with s p \<longleftrightarrow> (\<exists>t. s = p @ t)"
  by (metis append_take_drop_id starts_with_def starts_with_append)

text \<open>
  \<open>std::tolower\<close> and the character classes of the "C" locale, on bytes. Bytes above 127 belong to
  no class and have no lower-case form.
\<close>

definition byte_tolower :: "char \<Rightarrow> char" where
  "byte_tolower c = (if CHR ''A'' \<le> c \<and> c \<le> CHR ''Z'' then char_of (of_char c + 32 :: nat) else c)"

definition is_alpha :: "char \<Rightarrow> bool" where
  "is_alpha c \<longleftrightarrow> CHR ''A'' \<le> c \<and> c \<le> CHR ''Z'' \<or> CHR ''a'' \<le> c \<and> c \<le> CHR ''z''"

definition is_digit :: "char \<Rightarrow> bool" where
  "is_digit c \<longleftrightarrow> CHR ''0'' \<le> c \<and> c \<le> CHR ''9''"

definition is_alnum :: "char \<Rightarrow> bool" where
  "is_alnum c \<longleftrightarrow> is_alpha c \<or> is_digit c"

definition is_hex_digit :: "char \<Rightarrow> bool" where
  "is_hex_digit c \<longleftrightarrow> is_digit c \<or> CHR ''a'' \<le> c \<and> c \<le> CHR ''f'' \<or> CHR ''A'' \<le> c \<and> c \<le> CHR ''F''"

definition to_lower :: "string \<Rightarrow> string" where
  "to_lower s = map byte_tolower s"

lemma char_le_iff: "c \<le> d \<longleftrightarrow> (of_char c :: nat) \<le> of_char d"
  by (simp add: less_eq_char_def)

lemma of_char_less_256 [simp]: "(of_char c :: nat) < 256"
  by (metis of_char_mod_256 mod_less_divisor zero_less_numeral)

lemma byte_tolower_cases:
  "byte_tolower c = c \<or> CHR ''A'' \<le> c \<and> c \<le> CHR ''Z'' \<and> CHR ''a'' \<le> byte_tolower c
     \<and> byte_tolower c \<le> CHR ''z''"
  by (auto simp: byte_tolower_def char_le_iff)

lemma byte_tolower_idem [simp]: "byte_tolower (byte_tolower c) = byte_tolower c"
  using byte_tolower_cases [of c] by (auto simp: byte_tolower_def char_le_iff)

lemma to_lower_idem [simp]: "to_lower (to_lower s) = to_lower s"
  by (simp add: to_lower_def)

lemma to_lower_length [simp]: "length (to_lower s) = length s"
  by (simp add: to_lower_def)

section \<open>Sorting by a comparison function\<close>

text \<open>
  \<open>std::sort\<close> and SQL's \<open>ORDER BY\<close> take a comparison. The model sorts by insertion, stably; the
  locale below shows that for a strict order that is total on the identities of the elements the
  sorted list is determined by the elements alone, so the algorithm and the initial order do not
  matter.
\<close>

fun insert_by :: "('a \<Rightarrow> 'a \<Rightarrow> bool) \<Rightarrow> 'a \<Rightarrow> 'a list \<Rightarrow> 'a list" where
  "insert_by lt x [] = [x]"
| "insert_by lt x (y # ys) = (if lt y x then y # insert_by lt x ys else x # y # ys)"

primrec sort_by :: "('a \<Rightarrow> 'a \<Rightarrow> bool) \<Rightarrow> 'a list \<Rightarrow> 'a list" where
  "sort_by lt [] = []"
| "sort_by lt (x # xs) = insert_by lt x (sort_by lt xs)"

text \<open>\<open>std::lower_bound\<close> on a range partitioned by the comparison with the probe.\<close>

definition lower_bound :: "('a \<Rightarrow> 'a \<Rightarrow> bool) \<Rightarrow> 'a list \<Rightarrow> 'a \<Rightarrow> nat" where
  "lower_bound lt xs a = length (takeWhile (\<lambda>x. lt x a) xs)"

lemma mset_insert_by [simp]: "mset (insert_by lt x xs) = add_mset x (mset xs)"
  by (induction xs) auto

lemma mset_sort_by [simp]: "mset (sort_by lt xs) = mset xs"
  by (induction xs) auto

lemma set_sort_by [simp]: "set (sort_by lt xs) = set xs"
  by (metis mset_sort_by set_mset_mset)

lemma insert_by_map:
  "(\<And>y. y \<in> set ys \<Longrightarrow> lt' (f y) (f x) = lt y x) \<Longrightarrow> insert_by lt' (f x) (map f ys) = map f (insert_by lt x ys)"
  by (induction ys) auto

lemma sort_by_map:
  assumes "\<And>x y. x \<in> set xs \<Longrightarrow> y \<in> set xs \<Longrightarrow> lt' (f x) (f y) = lt x y"
  shows "sort_by lt' (map f xs) = map f (sort_by lt xs)"
  using assms
proof (induction xs)
  case (Cons x xs)
  then show ?case using insert_by_map [of "sort_by lt xs" lt' f x lt] by simp
qed simp

lemma sort_by_sorted_same:
  assumes "sorted_wrt lt xs" and "\<And>x y. lt x y \<Longrightarrow> \<not> lt y x"
  shows "sort_by lt xs = xs"
  using assms(1)
proof (induction xs)
  case (Cons x xs)
  then show ?case using assms(2) by (cases xs) auto
qed simp

lemma length_sort_by [simp]: "length (sort_by lt xs) = length xs"
  by (metis mset_sort_by size_mset)

lemma distinct_map_sort_by [simp]: "distinct (map f (sort_by lt xs)) \<longleftrightarrow> distinct (map f xs)"
  by (metis mset_sort_by mset_map mset_eq_imp_distinct_iff)

lemma distinct_sort_by [simp]: "distinct (sort_by lt xs) \<longleftrightarrow> distinct xs"
  using distinct_map_sort_by [of id] by simp

lemma lower_bound_le [simp]: "lower_bound lt xs a \<le> length xs"
  by (simp add: lower_bound_def length_takeWhile_le)

lemma lower_bound_before: "i < lower_bound lt xs a \<Longrightarrow> lt (xs ! i) a"
  unfolding lower_bound_def
  by (metis nth_mem set_takeWhileD takeWhile_nth)

lemma lower_bound_at:
  assumes "lower_bound lt xs a < length xs"
  shows "\<not> lt (xs ! lower_bound lt xs a) a"
  using assms nth_length_takeWhile [of "\<lambda>x. lt x a" xs] by (simp add: lower_bound_def)

locale keyed_order =
  fixes lt :: "'a \<Rightarrow> 'a \<Rightarrow> bool"
    and ident :: "'a \<Rightarrow> 'i"
    and ok :: "'a \<Rightarrow> bool"
  assumes irrefl: "ok a \<Longrightarrow> \<not> lt a a"
    and trans: "ok a \<Longrightarrow> ok b \<Longrightarrow> ok c \<Longrightarrow> lt a b \<Longrightarrow> lt b c \<Longrightarrow> lt a c"
    and total: "ok a \<Longrightarrow> ok b \<Longrightarrow> ident a \<noteq> ident b \<Longrightarrow> lt a b \<or> lt b a"
begin

lemma asym: "ok a \<Longrightarrow> ok b \<Longrightarrow> lt a b \<Longrightarrow> \<not> lt b a"
  using irrefl trans by blast

lemma insert_by_sorted:
  assumes "sorted_wrt lt xs" and "list_all ok (x # xs)" and "ident x \<notin> ident ` set xs"
  shows "sorted_wrt lt (insert_by lt x xs)"
  using assms
proof (induction xs)
  case (Cons y ys)
  have set_ins: "set (insert_by lt x ys) = insert x (set ys)"
    by (metis mset_insert_by set_mset_add_mset_insert set_mset_mset)
  show ?case
  proof (cases "lt y x")
    case True
    with Cons set_ins show ?thesis by auto
  next
    case False
    have oks: "ok x" "ok y" and "ident x \<noteq> ident y" using Cons.prems by auto
    then have xy: "lt x y" using False total by blast
    have "lt x z" if "z \<in> set ys" for z
    proof (rule trans [of x y z])
      show "ok z" and "lt y z" using that Cons.prems by (auto simp: list_all_iff)
    qed (use xy oks in auto)
    then have "\<forall>z \<in> set ys. lt x z" by blast
    then show ?thesis using xy False Cons.prems by simp
  qed
qed simp

lemma sort_by_sorted:
  assumes "list_all ok xs" and "distinct (map ident xs)"
  shows "sorted_wrt lt (sort_by lt xs)"
  using assms
proof (induction xs)
  case (Cons x xs)
  then show ?case
    using insert_by_sorted [of "sort_by lt xs" x] by (auto simp: list_all_iff)
qed simp

lemma sorted_unique:
  assumes "sorted_wrt lt xs" and "sorted_wrt lt ys" and "set xs = set ys" and "list_all ok xs"
  shows "xs = ys"
  using assms
proof (induction xs arbitrary: ys)
  case (Cons x xs)
  then obtain y zs where ys: "ys = y # zs" by (cases ys) auto
  have oks: "\<And>z. z \<in> set (x # xs) \<Longrightarrow> ok z"
    using Cons.prems(4) by (auto simp: list_all_iff)
  have xy: "x = y"
  proof (rule ccontr)
    assume "x \<noteq> y"
    then have "x \<in> set zs" and "y \<in> set xs" using Cons.prems(3) ys by auto
    then have "lt y x" and "lt x y" using Cons.prems(1,2) ys by auto
    moreover have "ok x" and "ok y" using oks \<open>y \<in> set xs\<close> by auto
    ultimately show False using asym by blast
  qed
  have "x \<notin> set xs" and "y \<notin> set zs"
    using Cons.prems(1,2) ys oks irrefl xy by auto
  then have "set xs = set zs" using Cons.prems(3) ys xy by auto
  then have "xs = zs" using Cons ys by auto
  then show ?case using ys xy by simp
qed simp

lemma sort_by_mset_cong:
  assumes "mset xs = mset ys" and "list_all ok xs" and "distinct (map ident xs)"
  shows "sort_by lt xs = sort_by lt ys"
proof (rule sorted_unique)
  have "list_all ok ys" and "distinct (map ident ys)"
    using assms by (metis list_all_iff set_mset_mset, metis mset_map mset_eq_imp_distinct_iff)
  then show "sorted_wrt lt (sort_by lt ys)" by (rule sort_by_sorted)
  show "sorted_wrt lt (sort_by lt xs)" by (rule sort_by_sorted) fact+
  show "set (sort_by lt xs) = set (sort_by lt ys)" using assms(1) by (metis set_mset_mset set_sort_by)
  show "list_all ok (sort_by lt xs)" using assms(2) by (auto simp: list_all_iff)
qed

lemma lower_bound_after:
  assumes "sorted_wrt lt xs" and "list_all ok (a # xs)" and "ident a \<notin> ident ` set xs"
    and "lower_bound lt xs a \<le> i" and "i < length xs"
  shows "lt a (xs ! i)"
proof -
  let ?j = "lower_bound lt xs a"
  have oks: "ok a" "ok (xs ! i)" "ok (xs ! ?j)" using assms by (auto simp: list_all_iff)
  have "\<not> lt (xs ! ?j) a" using lower_bound_at assms(4,5) by (metis le_less_trans)
  then have first: "lt a (xs ! ?j)"
    using total oks assms(3,4,5) by (metis image_eqI le_less_trans nth_mem)
  show ?thesis
  proof (cases "?j = i")
    case False
    then have "lt (xs ! ?j) (xs ! i)"
      using assms(1,4,5) by (simp add: sorted_wrt_iff_nth_less)
    then show ?thesis using first trans oks by blast
  qed (use first in simp)
qed

end

text \<open>
  Keyset pagination: a page is a prefix of the sorted rows behind a cursor, and the next cursor is
  read off the last row of the page. \<open>anchor\<close> is the position a cursor stands for.
\<close>

locale keyset_page = keyed_order lt ident ok
  for lt :: "'a \<Rightarrow> 'a \<Rightarrow> bool" and ident :: "'a \<Rightarrow> 'i" and ok :: "'a \<Rightarrow> bool" +
  fixes after :: "'k \<Rightarrow> 'a \<Rightarrow> bool"
    and anchor :: "'k \<Rightarrow> 'a"
    and valid :: "'k \<Rightarrow> bool"
    and cursor_at :: "'a \<Rightarrow> 'k"
  assumes anchor_ok: "valid k \<Longrightarrow> ok (anchor k)"
    and after_anchor: "valid k \<Longrightarrow> ok a \<Longrightarrow> after k a \<longleftrightarrow> lt (anchor k) a"
    and after_cursor_at: "ok a \<Longrightarrow> ok b \<Longrightarrow> after (cursor_at a) b \<longleftrightarrow> lt a b"
begin

lemma after_trans: "valid k \<Longrightarrow> ok a \<Longrightarrow> ok b \<Longrightarrow> after k a \<Longrightarrow> lt a b \<Longrightarrow> after k b"
  using after_anchor anchor_ok trans by blast

lemma continue_page:
  assumes oks: "list_all ok xs" and ids: "distinct (map ident xs)"
    and k: "case k of None \<Rightarrow> True | Some c \<Rightarrow> valid c"
    and S: "S = sort_by lt (filter (\<lambda>x. w x \<and> (case k of None \<Rightarrow> True | Some c \<Rightarrow> after c x)) xs)"
    and ps: "ps = take n S" "ps \<noteq> []"
  shows "sort_by lt (filter (\<lambda>x. w x \<and> after (cursor_at (last ps)) x) xs) = drop n S"
proof (rule sorted_unique)
  let ?l = "last ps"
  have dist: "distinct (map ident (filter p xs))" for p using ids by (simp add: distinct_map_filter)
  have S_sorted: "sorted_wrt lt S"
    unfolding S by (rule sort_by_sorted) (use oks dist in \<open>auto simp: list_all_iff\<close>)
  show "sorted_wrt lt (sort_by lt (filter (\<lambda>x. w x \<and> after (cursor_at ?l) x) xs))"
    by (rule sort_by_sorted) (use oks dist in \<open>auto simp: list_all_iff\<close>)
  show "sorted_wrt lt (drop n S)" using S_sorted by (rule sorted_wrt_drop)
  show "list_all ok (sort_by lt (filter (\<lambda>x. w x \<and> after (cursor_at ?l) x) xs))"
    using oks by (auto simp: list_all_iff)
  have okS: "ok x" and wS: "w x" and kS: "case k of None \<Rightarrow> True | Some c \<Rightarrow> after c x" and xsS: "x \<in> set xs"
    if "x \<in> set S" for x using that oks by (auto simp: S list_all_iff)
  have split: "S = ps @ drop n S" using ps by simp
  obtain qs where qs: "ps = qs @ [?l]" using ps(2) by (metis append_butlast_last_id)
  have "?l \<in> set ps" using ps(2) by simp
  then have l: "?l \<in> set S" using ps(1) by (metis in_set_takeD)
  have "sorted_wrt lt (qs @ [?l])" using S_sorted qs ps(1) by (metis sorted_wrt_take)
  then have before: "x = ?l \<or> lt x ?l" if "x \<in> set ps" for x
    using that by (subst (asm) qs) (auto simp: sorted_wrt_append)
  have behind: "lt ?l x" if "x \<in> set (drop n S)" for x
    using that S_sorted ps(2) split by (metis last_in_set sorted_wrt_append)
  show "set (sort_by lt (filter (\<lambda>x. w x \<and> after (cursor_at ?l) x) xs)) = set (drop n S)"
  proof (intro set_eqI iffI)
    fix x assume x: "x \<in> set (drop n S)"
    then have "x \<in> set S" by (rule in_set_dropD)
    then show "x \<in> set (sort_by lt (filter (\<lambda>x. w x \<and> after (cursor_at ?l) x) xs))"
      using wS xsS after_cursor_at [OF okS okS, OF l] behind [OF x] by simp
  next
    fix x assume "x \<in> set (sort_by lt (filter (\<lambda>x. w x \<and> after (cursor_at ?l) x) xs))"
    then have x: "x \<in> set xs" "w x" "after (cursor_at ?l) x" and okx: "ok x"
      using oks by (auto simp: list_all_iff)
    then have lx: "lt ?l x" using after_cursor_at okS l by blast
    have "case k of None \<Rightarrow> True | Some c \<Rightarrow> after c x"
      using k kS [OF l] lx okx okS [OF l] by (auto split: option.splits intro: after_trans)
    then have "x \<in> set S" using x by (simp add: S)
    moreover have "x \<notin> set ps"
      using before lx okx okS [OF l] asym irrefl by blast
    ultimately show "x \<in> set (drop n S)" using split by (metis Un_iff set_append)
  qed
qed

end

section \<open>Tables\<close>

text \<open>
  An SQLite table is the list of its rows in rowid order. \<open>INSERT\<close> appends; \<open>UPDATE\<close> rewrites the
  rows that match; \<open>DELETE\<close> drops them; a primary key is a function with distinct values.
\<close>

definition update_where :: "('a \<Rightarrow> bool) \<Rightarrow> ('a \<Rightarrow> 'a) \<Rightarrow> 'a list \<Rightarrow> 'a list" where
  "update_where p f rows = map (\<lambda>r. if p r then f r else r) rows"

definition delete_where :: "('a \<Rightarrow> bool) \<Rightarrow> 'a list \<Rightarrow> 'a list" where
  "delete_where p rows = filter (\<lambda>r. \<not> p r) rows"

lemma set_delete_where [simp, table_simps]: "set (delete_where p rows) = {r \<in> set rows. \<not> p r}"
  by (auto simp: delete_where_def)

lemma image_set_delete_where: "k ` set (delete_where (\<lambda>r. k r = a) rows) = k ` set rows - {a}"
  by auto

lemma distinct_delete_where [simp]:
  "distinct (map k rows) \<Longrightarrow> distinct (map k (delete_where p rows))"
  by (auto simp: delete_where_def distinct_map_filter)

lemma update_where_key [simp, table_simps]:
  assumes "\<And>r. k (f r) = k r"
  shows "map k (update_where p f rows) = map k rows"
  using assms by (auto simp: update_where_def)

lemma image_set_update_where [simp]:
  assumes "\<And>r. k (f r) = k r"
  shows "k ` set (update_where p f rows) = k ` set rows"
proof -
  have "set (map k (update_where p f rows)) = set (map k rows)" using assms by simp
  then show ?thesis by simp
qed

lemma in_set_update_where: "x \<in> set (update_where p f rows) \<longleftrightarrow> (\<exists>r \<in> set rows. x = (if p r then f r else r))"
  by (auto simp: update_where_def)

lemma find_SomeD: "find p xs = Some x \<Longrightarrow> x \<in> set xs \<and> p x"
  by (induction xs) (auto split: if_splits)

lemma find_append: "find p (xs @ ys) = (case find p xs of None \<Rightarrow> find p ys | Some x \<Rightarrow> Some x)"
  by (induction xs) auto

lemma find_update_where_same:
  assumes "\<And>r. p (f r) = p r"
  shows "find p (update_where p f rows) = map_option f (find p rows)"
  using assms by (induction rows) (auto simp: update_where_def)

lemma find_update_where_other:
  assumes "\<And>r. q r \<Longrightarrow> \<not> p r" and "\<And>r. p r \<Longrightarrow> \<not> q (f r)"
  shows "find q (update_where p f rows) = find q rows"
  using assms by (induction rows) (auto simp: update_where_def)

lemma find_delete_where_other:
  assumes "\<And>r. q r \<Longrightarrow> \<not> p r"
  shows "find q (delete_where p rows) = find q rows"
  using assms by (induction rows) (auto simp: delete_where_def)

lemma find_delete_where_same [simp]: "find p (delete_where p rows) = None"
  by (auto simp: find_None_iff)

end
