(* ===== verification/Tag_Extractor.thy ===== *)
theory Tag_Extractor
  imports Holder_Prelude
begin

text \<open>
  Tags in card bodies: \<open>src/src/card/TagExtractor.cpp\<close>. The Markdown parser md4c is not part of the
  sources; what it does is the list of callbacks it makes, an argument of the model. The regular
  expression is translated into the scan that \<open>std::sregex_iterator\<close> performs with it.
\<close>

section \<open>Tag names\<close>

definition looks_like_hex_color :: "string \<Rightarrow> bool" where
  "looks_like_hex_color candidate \<longleftrightarrow>
     (let len = length candidate in len = 3 \<or> len = 4 \<or> len = 6 \<or> len = 8)
     \<and> list_all is_hex_digit candidate"

definition tag_char :: "char \<Rightarrow> bool" where
  "tag_char c \<longleftrightarrow> is_alnum c \<or> c = CHR ''_'' \<or> c = CHR ''/'' \<or> c = CHR ''-''"

definition is_valid_tag :: "string \<Rightarrow> bool" where
  "is_valid_tag t \<longleftrightarrow>
     t \<noteq> [] \<and> is_alpha (hd t) \<and> list_all tag_char t \<and> \<not> looks_like_hex_color t"

definition normalize_tag :: "string \<Rightarrow> string" where
  "normalize_tag t = to_lower t"

section \<open>Scanning a run of text\<close>

text \<open>
  The pattern is \<open>(^|[\s([{>,.;:!?])#([A-Za-z][A-Za-z0-9_/\-]*)\<close>: a boundary, a hash and a name. The
  anchor \<open>^\<close> matches at the start of the text only; after a match the iterator goes on at its end.
  A match is reported as the offset of the name and the name.
\<close>

definition is_boundary :: "char \<Rightarrow> bool" where
  "is_boundary c \<longleftrightarrow> c \<in> set ([CHR 0x20, CHR 0x09, CHR 0x0A, CHR 0x0B, CHR 0x0C, CHR 0x0D]
     @ ''([{>,.;:!?'')"

definition name_at :: "string \<Rightarrow> string" where
  "name_at cs = (case cs of [] \<Rightarrow> [] | c # _ \<Rightarrow> if is_alpha c then takeWhile tag_char cs else [])"

lemma name_at_length: "length (name_at cs) \<le> length cs"
  by (auto simp: name_at_def length_takeWhile_le split: list.split)

function tag_matches :: "bool \<Rightarrow> nat \<Rightarrow> string \<Rightarrow> (nat \<times> string) list" where
  "tag_matches at_start off rest =
     (case rest of
        [] \<Rightarrow> []
      | c # cs \<Rightarrow>
          if at_start \<and> c = CHR ''#'' \<and> name_at cs \<noteq> []
          then (off + 1, name_at cs)
                 # tag_matches False (off + 1 + length (name_at cs)) (drop (length (name_at cs)) cs)
          else if is_boundary c \<and> cs \<noteq> [] \<and> hd cs = CHR ''#'' \<and> name_at (tl cs) \<noteq> []
          then (off + 2, name_at (tl cs))
                 # tag_matches False (off + 2 + length (name_at (tl cs)))
                     (drop (length (name_at (tl cs))) (tl cs))
          else tag_matches False (off + 1) cs)"
  by pat_completeness auto
termination
  by (relation "measure (\<lambda>(_, _, rest). length rest)") auto

declare tag_matches.simps [simp del]

section \<open>Collecting tags over the parser's callbacks\<close>

record tag_occurrence =
  occ_tag :: string
  byte_start :: nat
  byte_end :: nat

record extractor_state =
  in_code :: bool
  tags :: "string list"
  occurrences :: "tag_occurrence list"

definition init_extractor :: extractor_state where
  "init_extractor = \<lparr>in_code = False, tags = [], occurrences = []\<rparr>"

text \<open>
  \<open>seen\<close> of the sources is always the set of \<open>tags\<close>: a tag is pushed exactly when it is inserted.
\<close>

fun collect_match :: "nat option \<Rightarrow> nat \<times> string \<Rightarrow> extractor_state \<Rightarrow> extractor_state" where
  "collect_match source_offset (pos, candidate) st =
     (if looks_like_hex_color candidate then st
      else let t = to_lower candidate;
               st' = (case source_offset of
                        None \<Rightarrow> st
                      | Some off \<Rightarrow> st\<lparr>occurrences := occurrences st @
                          [\<lparr>occ_tag = t, byte_start = off + pos - 1,
                            byte_end = off + pos + length candidate\<rparr>]\<rparr>)
           in if t \<in> set (tags st') then st' else st'\<lparr>tags := tags st' @ [t]\<rparr>)"

definition collect_tags :: "string \<Rightarrow> nat option \<Rightarrow> extractor_state \<Rightarrow> extractor_state" where
  "collect_tags text source_offset st =
     fold (collect_match source_offset) (tag_matches True 0 text) st"

datatype md_event =
    EnterBlock bool \<comment> \<open>is it a code block\<close>
  | LeaveBlock bool
  | EnterSpan bool \<comment> \<open>is it a code span\<close>
  | LeaveSpan bool
  | MdText string int \<comment> \<open>the text and its address relative to the start of the body\<close>

fun on_event :: "string \<Rightarrow> md_event \<Rightarrow> extractor_state \<Rightarrow> extractor_state" where
  "on_event body (EnterBlock code) st = (if code then st\<lparr>in_code := True\<rparr> else st)"
| "on_event body (LeaveBlock code) st = (if code then st\<lparr>in_code := False\<rparr> else st)"
| "on_event body (EnterSpan code) st = (if code then st\<lparr>in_code := True\<rparr> else st)"
| "on_event body (LeaveSpan code) st = (if code then st\<lparr>in_code := False\<rparr> else st)"
| "on_event body (MdText text address) st =
     (if in_code st then st
      else collect_tags text
             (if 0 \<le> address \<and> address + int (length text) \<le> int (length body)
              then Some (nat address) else None) st)"

definition parse_tags :: "(string \<Rightarrow> md_event list) \<Rightarrow> string \<Rightarrow> extractor_state" where
  "parse_tags md_parse body = fold (on_event body) (md_parse body) init_extractor"

definition extract_tags :: "(string \<Rightarrow> md_event list) \<Rightarrow> string \<Rightarrow> string list" where
  "extract_tags md_parse body = tags (parse_tags md_parse body)"

definition extract_tag_occurrences ::
  "(string \<Rightarrow> md_event list) \<Rightarrow> string \<Rightarrow> tag_occurrence list"
where
  "extract_tag_occurrences md_parse body = occurrences (parse_tags md_parse body)"

section \<open>Characters of tags\<close>

lemmas char_class_defs = is_alpha_def is_digit_def is_alnum_def is_hex_digit_def tag_char_def

lemma is_alpha_tolower [simp]: "is_alpha (byte_tolower c) = is_alpha c"
  using byte_tolower_cases [of c] by (auto simp: is_alpha_def)

lemma is_digit_tolower [simp]: "is_digit (byte_tolower c) = is_digit c"
  using byte_tolower_cases [of c] by (auto simp: is_digit_def char_le_iff)

lemma tag_char_tolower [simp]: "tag_char (byte_tolower c) = tag_char c"
proof -
  consider "byte_tolower c = c" | "is_alpha c" "is_alpha (byte_tolower c)"
    using byte_tolower_cases [of c] by (auto simp: is_alpha_def)
  then show ?thesis by cases (auto simp: tag_char_def is_alnum_def)
qed

lemma is_hex_digit_tolower [simp]: "is_hex_digit (byte_tolower c) = is_hex_digit c"
  by (auto simp: is_hex_digit_def is_digit_def byte_tolower_def char_le_iff)

lemma looks_like_hex_color_to_lower [simp]:
  "looks_like_hex_color (to_lower t) = looks_like_hex_color t"
  by (simp add: looks_like_hex_color_def to_lower_def list_all_iff Let_def)

lemma is_valid_tag_to_lower [simp]: "is_valid_tag (to_lower t) = is_valid_tag t"
proof -
  have "list_all tag_char (to_lower t) = list_all tag_char t"
    by (simp add: to_lower_def list_all_iff)
  moreover have "t \<noteq> [] \<Longrightarrow> hd (to_lower t) = byte_tolower (hd t)"
    by (simp add: to_lower_def hd_map)
  moreover have "to_lower t = [] \<longleftrightarrow> t = []" by (simp add: to_lower_def)
  ultimately show ?thesis by (auto simp: is_valid_tag_def)
qed

lemma is_valid_tag_normalize [simp]: "is_valid_tag (normalize_tag t) = is_valid_tag t"
  by (simp add: normalize_tag_def)

lemma normalize_tag_idem [simp]: "normalize_tag (normalize_tag t) = normalize_tag t"
  by (simp add: normalize_tag_def)

lemma name_at_tag:
  assumes "name_at cs \<noteq> []"
  shows "is_alpha (hd (name_at cs))" and "list_all tag_char (name_at cs)"
    and "take (length (name_at cs)) cs = name_at cs"
proof -
  obtain c ds where cs: "cs = c # ds" "is_alpha c" "name_at cs = takeWhile tag_char cs"
    using assms by (auto simp: name_at_def split: list.splits if_splits)
  have "tag_char c" using cs(2) by (simp add: tag_char_def is_alnum_def)
  then show "is_alpha (hd (name_at cs))" using cs by simp
  show "list_all tag_char (name_at cs)"
    using cs(3) by (auto simp: list_all_iff dest: set_takeWhileD)
  show "take (length (name_at cs)) cs = name_at cs"
    using cs(3) by (metis append_eq_conv_conj takeWhile_dropWhile_id)
qed

lemma name_at_valid: "name_at cs \<noteq> [] \<Longrightarrow> \<not> looks_like_hex_color (name_at cs) \<Longrightarrow> is_valid_tag (name_at cs)"
  using name_at_tag by (auto simp: is_valid_tag_def)

lemma name_at_of_valid: "is_valid_tag t \<Longrightarrow> name_at t = t"
  by (auto simp: is_valid_tag_def name_at_def list_all_iff takeWhile_eq_all_conv split: list.splits)

section \<open>What the scan reports\<close>

text \<open>Every match is a name preceded by a hash at the reported place.\<close>

lemma tag_matches_sound:
  assumes "(pos, t) \<in> set (tag_matches st off rest)"
  shows "off < pos \<and> pos + length t \<le> off + length rest
    \<and> take (Suc (length t)) (drop (pos - off - 1) rest) = CHR ''#'' # t
    \<and> t \<noteq> [] \<and> (\<exists>cs. t = name_at cs)"
  using assms
proof (induction st off rest rule: tag_matches.induct)
  case (1 at_start off rest)
  show ?case
  proof (cases rest)
    case Nil
    with "1.prems" show ?thesis by (simp add: tag_matches.simps [of at_start off "[]"])
  next
    case (Cons c cs)
    let ?A = "at_start \<and> c = CHR ''#'' \<and> name_at cs \<noteq> []"
    let ?B = "is_boundary c \<and> cs \<noteq> [] \<and> hd cs = CHR ''#'' \<and> name_at (tl cs) \<noteq> []"
    note eq = tag_matches.simps [of at_start off rest]
    note prems = "1.prems" [unfolded eq]
    consider (A) ?A | (B) "\<not> ?A" ?B | (C) "\<not> ?A" "\<not> ?B" by blast
    then show ?thesis
    proof cases
      case A
      let ?n = "name_at cs"
      from prems A Cons consider
          "pos = off + 1" "t = ?n"
        | "(pos, t) \<in> set (tag_matches False (off + 1 + length ?n) (drop (length ?n) cs))"
        by auto
      then show ?thesis
      proof cases
        case 1
        with A Cons name_at_tag(3) [of cs] name_at_length [of cs] show ?thesis by auto
      next
        case 2
        have IH: "off + 1 + length ?n < pos \<and> pos + length t \<le> off + 1 + length ?n + length (drop (length ?n) cs)
          \<and> take (Suc (length t)) (drop (pos - (off + 1 + length ?n) - 1) (drop (length ?n) cs)) = CHR ''#'' # t
          \<and> t \<noteq> [] \<and> (\<exists>cs. t = name_at cs)"
          using "1.IH"(1) [OF Cons A 2] .
        then have "pos - (off + 1 + length ?n) - 1 + length ?n = pos - off - 2" by auto
        with IH Cons name_at_length [of cs] show ?thesis
          by (auto simp: drop_Cons' add.commute)
      qed
    next
      case B
      then obtain ds where ds: "cs = CHR ''#'' # ds" by (cases cs) auto
      let ?n = "name_at ds"
      from prems B Cons ds consider
          "pos = off + 2" "t = ?n"
        | "(pos, t) \<in> set (tag_matches False (off + 2 + length ?n) (drop (length ?n) ds))"
        by auto
      then show ?thesis
      proof cases
        case 1
        with B Cons ds name_at_tag(3) [of ds] name_at_length [of ds] show ?thesis by auto
      next
        case 2
        have IH: "off + 2 + length ?n < pos \<and> pos + length t \<le> off + 2 + length ?n + length (drop (length ?n) ds)
          \<and> take (Suc (length t)) (drop (pos - (off + 2 + length ?n) - 1) (drop (length ?n) ds)) = CHR ''#'' # t
          \<and> t \<noteq> [] \<and> (\<exists>cs. t = name_at cs)"
          using "1.IH"(2) [OF Cons B(1) B(2), unfolded ds list.sel, OF 2] .
        then have idx: "pos - (off + 2 + length ?n) - 1 + length ?n = pos - off - 3"
          and "pos - off - 1 = Suc (Suc (pos - off - 3))" by auto
        then have "drop (pos - off - 1) rest = drop (pos - off - 3) ds"
          using Cons ds by simp
        with IH idx Cons ds name_at_length [of ds] show ?thesis by (simp only: drop_drop) auto
      qed
    next
      case C
      then have rec: "(pos, t) \<in> set (tag_matches False (off + 1) cs)"
        using prems Cons by auto
      have IH: "off + 1 < pos \<and> pos + length t \<le> off + 1 + length cs
        \<and> take (Suc (length t)) (drop (pos - (off + 1) - 1) cs) = CHR ''#'' # t
        \<and> t \<noteq> [] \<and> (\<exists>cs. t = name_at cs)"
        using "1.IH"(3) [OF Cons C rec] .
      then show ?thesis using Cons by (auto simp: drop_Cons')
    qed
  qed
qed

lemma tag_matches_hash_tag: "is_valid_tag t \<Longrightarrow> tag_matches True 0 (CHR ''#'' # t) = [(1, t)]"
  by (auto simp: tag_matches.simps [of True 0] tag_matches.simps [of False] name_at_of_valid
      is_valid_tag_def)

section \<open>Invariant of the extraction\<close>

definition tags_ok :: "extractor_state \<Rightarrow> bool" where
  "tags_ok st \<longleftrightarrow> distinct (tags st)
     \<and> (\<forall>t \<in> set (tags st). is_valid_tag t \<and> to_lower t = t)
     \<and> occ_tag ` set (occurrences st) \<subseteq> set (tags st)"

lemma tags_ok_init [simp]: "tags_ok init_extractor"
  by (simp add: tags_ok_def init_extractor_def)

lemma tags_ok_collect_match:
  assumes "tags_ok st" and "looks_like_hex_color t \<or> is_valid_tag t"
  shows "tags_ok (collect_match o' (pos, t) st)"
  using assms by (auto simp: tags_ok_def Let_def split: option.splits)

lemma tags_ok_fold_matches:
  assumes "tags_ok st" and "\<And>pos t. (pos, t) \<in> set ms \<Longrightarrow> looks_like_hex_color t \<or> is_valid_tag t"
  shows "tags_ok (fold (collect_match o') ms st)"
  using assms
proof (induction ms arbitrary: st)
  case (Cons m ms)
  obtain pos t where m: "m = (pos, t)" by (cases m)
  have "tags_ok (collect_match o' m st)"
    using tags_ok_collect_match Cons.prems m by (metis list.set_intros(1))
  then have "tags_ok (fold (collect_match o') ms (collect_match o' m st))"
    by (rule Cons.IH) (use Cons.prems(2) in auto)
  then show ?case by simp
qed simp

lemma tags_ok_collect_tags: "tags_ok st \<Longrightarrow> tags_ok (collect_tags text o' st)"
  unfolding collect_tags_def
proof (rule tags_ok_fold_matches)
  fix pos t
  assume "(pos, t) \<in> set (tag_matches True 0 text)"
  then obtain cs where "t \<noteq> []" "t = name_at cs" using tag_matches_sound by blast
  then show "looks_like_hex_color t \<or> is_valid_tag t" using name_at_valid by blast
qed

lemma tags_ok_in_code [simp]: "tags_ok (st\<lparr>in_code := b\<rparr>) = tags_ok st"
  by (simp add: tags_ok_def)

lemma tags_ok_on_event: "tags_ok st \<Longrightarrow> tags_ok (on_event body ev st)"
  by (cases ev) (auto simp: tags_ok_collect_tags)

lemma tags_ok_parse_tags: "tags_ok (parse_tags md body)"
proof -
  have "tags_ok (fold (on_event body) evs st)" if "tags_ok st" for evs st
    using that by (induction evs arbitrary: st) (auto simp: tags_ok_on_event)
  then show ?thesis by (simp add: parse_tags_def)
qed

section \<open>Properties\<close>

text \<open>
  Whatever the Markdown parser reports, the extracted tags are pairwise distinct, lower case and
  valid tag names, and every reported occurrence is of an extracted tag.
\<close>

theorem extract_tags_valid:
  "distinct (extract_tags md body)
   \<and> list_all (\<lambda>t. is_valid_tag t \<and> normalize_tag t = t) (extract_tags md body)
   \<and> set (map occ_tag (extract_tag_occurrences md body)) \<subseteq> set (extract_tags md body)"
  using tags_ok_parse_tags [of md body]
  by (simp add: tags_ok_def extract_tags_def extract_tag_occurrences_def normalize_tag_def list_all_iff)

lemma tags_collect_match_subset:
  "set (tags (fold (collect_match o') ms st)) \<subseteq>
     set (tags st) \<union> to_lower ` {t. (\<exists>pos. (pos, t) \<in> set ms) \<and> \<not> looks_like_hex_color t}"
proof (induction ms arbitrary: st)
  case (Cons m ms)
  obtain pos t where m: "m = (pos, t)" by (cases m)
  have "set (tags (collect_match o' m st)) \<subseteq>
      set (tags st) \<union> (if looks_like_hex_color t then {} else {to_lower t})"
    by (auto simp: m Let_def split: option.splits)
  with Cons.IH [of "collect_match o' m st"] m show ?case by (auto split: if_splits)
qed simp

text \<open>
  \<open>is_valid_tag\<close> accepts exactly the names the extractor recognises in a text that is a hash and
  the name.
\<close>

theorem is_valid_tag_iff_extracted:
  "is_valid_tag t \<longleftrightarrow> tags (collect_tags (CHR ''#'' # t) None init_extractor) = [normalize_tag t]"
proof
  assume "is_valid_tag t"
  then show "tags (collect_tags (CHR ''#'' # t) None init_extractor) = [normalize_tag t]"
    by (auto simp: collect_tags_def tag_matches_hash_tag init_extractor_def normalize_tag_def
        is_valid_tag_def)
next
  assume tags: "tags (collect_tags (CHR ''#'' # t) None init_extractor) = [normalize_tag t]"
  have "normalize_tag t \<in> to_lower ` {s. (\<exists>pos. (pos, s) \<in> set (tag_matches True 0 (CHR ''#'' # t)))
      \<and> \<not> looks_like_hex_color s}"
    using tags_collect_match_subset [of None "tag_matches True 0 (CHR ''#'' # t)" init_extractor] tags
    by (simp add: collect_tags_def init_extractor_def)
  then obtain pos s where s: "(pos, s) \<in> set (tag_matches True 0 (CHR ''#'' # t))"
      "\<not> looks_like_hex_color s" "normalize_tag t = to_lower s"
    by blast
  have len: "length s = length t" using s(3) by (metis normalize_tag_def to_lower_length)
  from tag_matches_sound [OF s(1)] obtain cs where "s \<noteq> []" "s = name_at cs"
      "0 < pos" "pos + length s \<le> Suc (length t)"
      and eq: "take (Suc (length s)) (drop (pos - 0 - 1) (CHR ''#'' # t)) = CHR ''#'' # s"
    by auto
  then have "pos = 1" using len by simp
  with eq len have "t = s" by simp
  moreover have "is_valid_tag s" using name_at_valid \<open>s \<noteq> []\<close> \<open>s = name_at cs\<close> s(2) by blast
  ultimately show "is_valid_tag t" by simp
qed

text \<open>
  The pointers md4c passes inside the body point at the text they deliver.
\<close>

definition md_offsets_ok :: "(string \<Rightarrow> md_event list) \<Rightarrow> string \<Rightarrow> bool" where
  "md_offsets_ok md body \<longleftrightarrow>
     list_all (\<lambda>ev. case ev of
        MdText text address \<Rightarrow>
          0 \<le> address \<and> address + int (length text) \<le> int (length body)
            \<longrightarrow> take (length text) (drop (nat address) body) = text
      | _ \<Rightarrow> True) (md body)"

definition occurrence_ok :: "string \<Rightarrow> tag_occurrence \<Rightarrow> bool" where
  "occurrence_ok body oc \<longleftrightarrow> byte_start oc < byte_end oc \<and> byte_end oc \<le> length body
     \<and> (\<exists>name. take (byte_end oc - byte_start oc) (drop (byte_start oc) body) = CHR ''#'' # name
          \<and> to_lower name = occ_tag oc)"

lemma occurrence_ok_match:
  assumes m: "(pos, t) \<in> set (tag_matches True 0 text)"
    and slice: "take (length text) (drop off body) = text" and len: "off + length text \<le> length body"
  shows "occurrence_ok body \<lparr>occ_tag = to_lower t, byte_start = off + pos - 1, byte_end = off + pos + length t\<rparr>"
proof -
  from tag_matches_sound [OF m] have p: "0 < pos" "pos + length t \<le> length text"
      "take (Suc (length t)) (drop (pos - 1) text) = CHR ''#'' # t" by auto
  have "drop (pos - 1) text = take (length text - (pos - 1)) (drop (off + (pos - 1)) body)"
    using slice by (metis drop_drop drop_take add.commute)
  then have "take (Suc (length t)) (drop (off + (pos - 1)) body) = CHR ''#'' # t"
    using p by (simp add: min_def split: if_splits)
  moreover have "off + pos - 1 = off + (pos - 1)" "off + pos + length t - (off + pos - 1) = Suc (length t)"
    using p(1) by auto
  ultimately show ?thesis using p len by (auto simp: occurrence_ok_def)
qed

lemma occurrences_fold:
  assumes "\<forall>oc \<in> set (occurrences st). occurrence_ok body oc"
    and "\<And>pos t. (pos, t) \<in> set ms \<Longrightarrow> o' = Some off \<Longrightarrow>
       occurrence_ok body \<lparr>occ_tag = to_lower t, byte_start = off + pos - 1, byte_end = off + pos + length t\<rparr>"
    and "o' = None \<or> o' = Some off"
  shows "\<forall>oc \<in> set (occurrences (fold (collect_match o') ms st)). occurrence_ok body oc"
  using assms
proof (induction ms arbitrary: st)
  case (Cons m ms)
  obtain pos t where m: "m = (pos, t)" by (cases m)
  have "\<forall>oc \<in> set (occurrences (collect_match o' m st)). occurrence_ok body oc"
    using Cons.prems m by (auto simp: Let_def split: option.splits)
  then have "\<forall>oc \<in> set (occurrences (fold (collect_match o') ms (collect_match o' m st))).
      occurrence_ok body oc"
    by (rule Cons.IH) (use Cons.prems in auto)
  then show ?case by simp
qed simp

lemma occurrences_on_event:
  assumes "\<forall>oc \<in> set (occurrences st). occurrence_ok body oc"
    and "case ev of MdText text address \<Rightarrow>
          0 \<le> address \<and> address + int (length text) \<le> int (length body)
            \<longrightarrow> take (length text) (drop (nat address) body) = text | _ \<Rightarrow> True"
  shows "\<forall>oc \<in> set (occurrences (on_event body ev st)). occurrence_ok body oc"
proof (cases ev)
  case (MdText tx address)
  let ?inside = "0 \<le> address \<and> address + int (length tx) \<le> int (length body)"
  have "\<forall>oc \<in> set (occurrences (collect_tags tx (if ?inside then Some (nat address) else None) st)).
      occurrence_ok body oc"
    unfolding collect_tags_def
  proof (rule occurrences_fold [where off = "nat address"])
    fix pos t
    assume m: "(pos, t) \<in> set (tag_matches True 0 tx)"
      and "(if ?inside then Some (nat address) else None) = Some (nat address)"
    then have "?inside" by (auto split: if_splits)
    with assms(2) MdText show "occurrence_ok body \<lparr>occ_tag = to_lower t,
        byte_start = nat address + pos - 1, byte_end = nat address + pos + length t\<rparr>"
      by (intro occurrence_ok_match [OF m]) auto
  qed (use assms(1) in auto)
  then show ?thesis using MdText assms(1) by simp
qed (use assms(1) in auto)

text \<open>
  every reported occurrence lies inside the body, and the bytes it covers are a hash followed by
  a spelling of the tag.
\<close>

theorem extract_tag_occurrences_slices:
  assumes "md_offsets_ok md body"
  shows "list_all (occurrence_ok body) (extract_tag_occurrences md body)"
proof -
  have "\<forall>oc \<in> set (occurrences (fold (on_event body) evs st)). occurrence_ok body oc"
    if "set evs \<subseteq> set (md body)" and "\<forall>oc \<in> set (occurrences st). occurrence_ok body oc" for evs st
    using that
  proof (induction evs arbitrary: st)
    case (Cons ev evs)
    have "\<forall>oc \<in> set (occurrences (on_event body ev st)). occurrence_ok body oc"
      using Cons.prems assms by (intro occurrences_on_event) (auto simp: md_offsets_ok_def list_all_iff)
    with Cons show ?case by simp
  qed simp
  from this [of "md body" init_extractor] show ?thesis
    by (simp add: extract_tag_occurrences_def parse_tags_def init_extractor_def list_all_iff)
qed

theorem extract_tag_occurrences_slices_witness:
  "md_offsets_ok (\<lambda>b. [EnterBlock False, MdText b 0, LeaveBlock False]) ''see #Todo''
   \<and> extract_tag_occurrences (\<lambda>b. [EnterBlock False, MdText b 0, LeaveBlock False]) ''see #Todo''
      = [\<lparr>occ_tag = ''todo'', byte_start = 4, byte_end = 9\<rparr>]
   \<and> list_all (occurrence_ok ''see #Todo'')
      (extract_tag_occurrences (\<lambda>b. [EnterBlock False, MdText b 0, LeaveBlock False]) ''see #Todo'')"
proof -
  have h: "md_offsets_ok (\<lambda>b. [EnterBlock False, MdText b 0, LeaveBlock False]) ''see #Todo''"
    by code_simp
  have "extract_tag_occurrences (\<lambda>b. [EnterBlock False, MdText b 0, LeaveBlock False]) ''see #Todo''
      = [\<lparr>occ_tag = ''todo'', byte_start = 4, byte_end = 9\<rparr>]"
    by code_simp
  with h extract_tag_occurrences_slices [OF h] show ?thesis by blast
qed

end
