(* ===== verification/Tag_Line_Editor.thy ===== *)
theory Tag_Line_Editor
  imports Tag_Extractor
begin

text \<open>
  The trailing tag line of a card body: \<open>src/src/card/TagLineEditor.cpp\<close>. It is the last non-blank
  line when that line consists of \<open>#tag\<close> tokens only, the one place of a body the program edits.
\<close>

section \<open>Splitting a body\<close>

definition is_line_whitespace :: "char \<Rightarrow> bool" where
  "is_line_whitespace c \<longleftrightarrow> c = CHR 0x20 \<or> c = CHR 0x09 \<or> c = CHR 0x0D"

definition is_blank :: "char \<Rightarrow> bool" where
  "is_blank c \<longleftrightarrow> c = CHR 0x0A \<or> is_line_whitespace c"

record body_split =
  split_content :: string
  trailing_ws :: string

definition split_trailing_whitespace :: "string \<Rightarrow> body_split" where
  "split_trailing_whitespace body =
     (let content = rev (dropWhile is_blank (rev body))
      in \<lparr>split_content = content, trailing_ws = drop (length content) body\<rparr>)"

definition last_line_start :: "string \<Rightarrow> nat" where
  "last_line_start content = length content - length (takeWhile (\<lambda>c. c \<noteq> CHR 0x0A) (rev content))"

section \<open>Tag lines\<close>

function parse_tag_tokens :: "string \<Rightarrow> string list option" where
  "parse_tag_tokens line =
     (case dropWhile is_line_whitespace line of
        [] \<Rightarrow> Some []
      | c # cs \<Rightarrow>
          if c \<noteq> CHR ''#'' then None
          else let candidate = takeWhile (\<lambda>x. \<not> is_line_whitespace x) cs
               in if \<not> is_valid_tag candidate then None
                  else map_option (\<lambda>ts. normalize_tag candidate # ts)
                         (parse_tag_tokens (dropWhile (\<lambda>x. \<not> is_line_whitespace x) cs)))"
  by pat_completeness auto
termination
proof (relation "measure length", goal_cases)
  case (2 line c cs candidate)
  have "length (dropWhile (\<lambda>x. \<not> is_line_whitespace x) cs) < length (c # cs)"
    by (simp add: length_dropWhile_le le_imp_less_Suc)
  also have "\<dots> \<le> length line"
    using 2(1) length_dropWhile_le [of is_line_whitespace line] by simp
  finally show ?case by simp
qed simp

declare parse_tag_tokens.simps [simp del]

definition parse_pure_tag_line :: "string \<Rightarrow> string list option" where
  "parse_pure_tag_line line =
     (case parse_tag_tokens line of
        None \<Rightarrow> None
      | Some ts \<Rightarrow> if ts = [] then None else Some ts)"

fun join_tag_line :: "string list \<Rightarrow> string" where
  "join_tag_line [] = []"
| "join_tag_line [t] = CHR ''#'' # t"
| "join_tag_line (t # ts) = CHR ''#'' # t @ CHR 0x20 # join_tag_line ts"

section \<open>Operations\<close>

definition upsert_trailing_tag_line :: "string \<Rightarrow> string \<Rightarrow> string" where
  "upsert_trailing_tag_line body t =
     (let sp = split_trailing_whitespace body; content = split_content sp
      in if content = [] then CHR ''#'' # t
         else let line_start = last_line_start content
              in case parse_pure_tag_line (drop line_start content) of
                   Some existing \<Rightarrow>
                     if t \<in> set existing then body
                     else take line_start content @ join_tag_line (existing @ [t]) @ trailing_ws sp
                 | None \<Rightarrow>
                     content @ [CHR 0x0A, CHR 0x0A] @ CHR ''#'' # t @ trailing_ws sp)"

datatype remove_outcome = TagRemoved | NotOnTrailingLine

record remove_result =
  new_body :: string
  outcome :: remove_outcome

text \<open>\<open>while (!before.empty() && before.back() == '\n') before.pop_back();\<close>\<close>

definition pop_newlines :: "string \<Rightarrow> string" where
  "pop_newlines s = rev (dropWhile (\<lambda>c. c = CHR 0x0A) (rev s))"

definition remove_from_trailing_tag_line :: "string \<Rightarrow> string \<Rightarrow> remove_result" where
  "remove_from_trailing_tag_line body t =
     (let sp = split_trailing_whitespace body; content = split_content sp;
          untouched = \<lparr>new_body = body, outcome = NotOnTrailingLine\<rparr>
      in if content = [] then untouched
         else let line_start = last_line_start content
              in case parse_pure_tag_line (drop line_start content) of
                   None \<Rightarrow> untouched
                 | Some existing \<Rightarrow>
                     if t \<notin> set existing then untouched
                     else let left = remove1 t existing
                          in if left = []
                             then \<lparr>new_body = pop_newlines (take line_start content) @ trailing_ws sp,
                                   outcome = TagRemoved\<rparr>
                             else \<lparr>new_body = take line_start content @ join_tag_line left
                                     @ trailing_ws sp,
                                   outcome = TagRemoved\<rparr>)"

definition tags_on_trailing_line :: "string \<Rightarrow> string list" where
  "tags_on_trailing_line body =
     (let sp = split_trailing_whitespace body; content = split_content sp
      in if content = [] then []
         else case parse_pure_tag_line (drop (last_line_start content) content) of
                None \<Rightarrow> [] | Some ts \<Rightarrow> ts)"

section \<open>Splitting and joining\<close>

lemma split_body [simp]:
  "split_content (split_trailing_whitespace body) @ trailing_ws (split_trailing_whitespace body) = body"
proof -
  have "body = rev (dropWhile is_blank (rev body)) @ rev (takeWhile is_blank (rev body))"
    by (metis rev_append rev_rev_ident takeWhile_dropWhile_id)
  then show ?thesis
    unfolding split_trailing_whitespace_def Let_def
    by (metis append_eq_conv_conj body_split.select_convs)
qed

lemma trailing_ws_blank:
  "list_all is_blank (trailing_ws (split_trailing_whitespace body))"
proof -
  have "body = rev (dropWhile is_blank (rev body)) @ rev (takeWhile is_blank (rev body))"
    by (metis rev_append rev_rev_ident takeWhile_dropWhile_id)
  then have "trailing_ws (split_trailing_whitespace body) = rev (takeWhile is_blank (rev body))"
    unfolding split_trailing_whitespace_def Let_def
    by (metis append_eq_conv_conj body_split.select_convs(2))
  then show ?thesis by (auto simp: list_all_iff dest: set_takeWhileD)
qed

lemma content_last:
  assumes "split_content (split_trailing_whitespace body) \<noteq> []"
  shows "\<not> is_blank (last (split_content (split_trailing_whitespace body)))"
  using assms hd_dropWhile [of is_blank "rev body"]
  by (simp add: split_trailing_whitespace_def Let_def last_rev)

lemma split_unique:
  assumes "content \<noteq> []" and "\<not> is_blank (last content)" and "list_all is_blank ws"
  shows "split_trailing_whitespace (content @ ws) = \<lparr>split_content = content, trailing_ws = ws\<rparr>"
proof -
  have "dropWhile is_blank (rev (content @ ws)) = dropWhile is_blank (rev content)"
    using assms(3) dropWhile_append2 [of "rev ws" is_blank "rev content"]
    by (simp add: list_all_iff)
  also have "\<dots> = rev content"
    using assms(1,2) by (cases content rule: rev_cases) auto
  finally show ?thesis by (simp add: split_trailing_whitespace_def)
qed

lemma last_line_start_split:
  assumes "content = before @ line" and "CHR 0x0A \<notin> set line"
    and "before = [] \<or> last before = CHR 0x0A"
  shows "last_line_start content = length before"
proof -
  have "takeWhile (\<lambda>c. c \<noteq> CHR 0x0A) (rev content) = rev line"
  proof (cases before rule: rev_cases)
    case Nil
    with assms show ?thesis by (auto simp: takeWhile_eq_all_conv)
  next
    case (snoc xs x)
    with assms show ?thesis by (auto simp: takeWhile_append2 takeWhile_append)
  qed
  then show ?thesis using assms(1) by (simp add: last_line_start_def)
qed

lemma last_line_start_le: "last_line_start content \<le> length content"
  by (simp add: last_line_start_def)

lemma last_line_parts:
  shows "CHR 0x0A \<notin> set (drop (last_line_start content) content)"
    and "take (last_line_start content) content = []
      \<or> last (take (last_line_start content) content) = CHR 0x0A"
proof -
  let ?p = "\<lambda>c. c \<noteq> CHR 0x0A"
  have c: "content = rev (dropWhile ?p (rev content)) @ rev (takeWhile ?p (rev content))"
    by (metis rev_append rev_rev_ident takeWhile_dropWhile_id)
  have n: "last_line_start content = length (rev (dropWhile ?p (rev content)))"
    unfolding last_line_start_def
    by (metis add_diff_cancel_right' append_take_drop_id c length_append length_rev)
  have d: "drop (last_line_start content) content = rev (takeWhile ?p (rev content))"
    and t: "take (last_line_start content) content = rev (dropWhile ?p (rev content))"
    using c n by (metis append_eq_conv_conj)+
  show "CHR 0x0A \<notin> set (drop (last_line_start content) content)"
    using d by (auto dest: set_takeWhileD)
  show "take (last_line_start content) content = []
      \<or> last (take (last_line_start content) content) = CHR 0x0A"
    unfolding t using hd_dropWhile [of ?p "rev content"] by (auto simp: last_rev)
qed

text \<open>A valid tag contains no white space, so joining tags and parsing the line is the identity.\<close>

lemma tag_char_not_ws: "tag_char c \<Longrightarrow> \<not> is_line_whitespace c \<and> c \<noteq> CHR 0x0A"
  by (auto simp: char_class_defs is_line_whitespace_def char_le_iff)

lemma valid_tag_no_ws: "is_valid_tag t \<Longrightarrow> c \<in> set t \<Longrightarrow> \<not> is_line_whitespace c \<and> c \<noteq> CHR 0x0A"
  using tag_char_not_ws by (auto simp: is_valid_tag_def list_all_iff)

lemma join_tag_line_Cons:
  "ts \<noteq> [] \<Longrightarrow> join_tag_line (t # ts) = CHR ''#'' # t @ CHR 0x20 # join_tag_line ts"
  by (cases ts) auto

lemma hash_not_ws [simp]: "\<not> is_line_whitespace (CHR ''#'')" "\<not> is_blank (CHR ''#'')"
  by (simp_all add: is_line_whitespace_def is_blank_def)

lemma parse_tag_tokens_space: "parse_tag_tokens (CHR 0x20 # s) = parse_tag_tokens s"
  by (simp add: parse_tag_tokens.simps [of "CHR 0x20 # s"] parse_tag_tokens.simps [of s]
      is_line_whitespace_def)

lemma parse_tag_tokens_token:
  assumes "is_valid_tag t" and "rest = [] \<or> is_line_whitespace (hd rest)"
  shows "parse_tag_tokens (CHR ''#'' # t @ rest)
    = map_option (\<lambda>ts. normalize_tag t # ts) (parse_tag_tokens rest)"
proof -
  have nows: "\<And>c. c \<in> set t \<Longrightarrow> \<not> is_line_whitespace c" using valid_tag_no_ws assms(1) by blast
  have tw: "takeWhile (\<lambda>x. \<not> is_line_whitespace x) (t @ rest) = t"
    and dw: "dropWhile (\<lambda>x. \<not> is_line_whitespace x) (t @ rest) = rest"
    using nows assms(2) by (cases rest; simp)+
  show ?thesis
    by (subst parse_tag_tokens.simps) (simp add: tw dw assms(1))
qed

lemma parse_join_tag_line:
  assumes "list_all is_valid_tag ts"
  shows "parse_tag_tokens (join_tag_line ts) = Some (map normalize_tag ts)"
  using assms
proof (induction ts)
  case Nil
  then show ?case by (simp add: parse_tag_tokens.simps)
next
  case (Cons t ts)
  show ?case
  proof (cases "ts = []")
    case True
    with Cons.prems parse_tag_tokens_token [of t "[]"] show ?thesis
      by (simp add: parse_tag_tokens.simps [of "[]"])
  next
    case False
    with Cons parse_tag_tokens_token [of t "CHR 0x20 # join_tag_line ts"] show ?thesis
      by (simp add: join_tag_line_Cons parse_tag_tokens_space is_line_whitespace_def)
  qed
qed

lemma parse_pure_join_tag_line:
  assumes "list_all is_valid_tag ts" and "ts \<noteq> []"
  shows "parse_pure_tag_line (join_tag_line ts) = Some (map normalize_tag ts)"
  using assms by (simp add: parse_pure_tag_line_def parse_join_tag_line)

lemma parse_tag_tokens_valid:
  "parse_tag_tokens line = Some ts \<Longrightarrow> \<forall>t \<in> set ts. is_valid_tag t \<and> normalize_tag t = t"
proof (induction line arbitrary: ts rule: parse_tag_tokens.induct)
  case (1 line)
  show ?case
  proof (cases "dropWhile is_line_whitespace line")
    case Nil
    with "1.prems" show ?thesis by (simp add: parse_tag_tokens.simps [of line])
  next
    case (Cons c cs)
    let ?cand = "takeWhile (\<lambda>x. \<not> is_line_whitespace x) cs"
    from "1.prems" Cons obtain us where us: "c = CHR ''#''" "is_valid_tag ?cand"
        "parse_tag_tokens (dropWhile (\<lambda>x. \<not> is_line_whitespace x) cs) = Some us"
        "ts = normalize_tag ?cand # us"
      by (auto simp: parse_tag_tokens.simps [of line] Let_def split: if_splits)
    then have "\<forall>t \<in> set us. is_valid_tag t \<and> normalize_tag t = t"
      using "1.IH" [OF Cons _ refl] by simp
    with us show ?thesis by simp
  qed
qed

lemma parse_pure_tag_line_valid:
  assumes "parse_pure_tag_line line = Some ts"
  shows "ts \<noteq> []" and "list_all is_valid_tag ts" and "map normalize_tag ts = ts"
  using assms parse_tag_tokens_valid
  by (auto simp: parse_pure_tag_line_def list_all_iff map_idI split: option.splits if_splits)

lemma join_tag_line_chars:
  assumes "list_all is_valid_tag ts" and "ts \<noteq> []"
  shows "CHR 0x0A \<notin> set (join_tag_line ts)" and "join_tag_line ts \<noteq> []"
    and "\<not> is_blank (last (join_tag_line ts))"
proof -
  show "CHR 0x0A \<notin> set (join_tag_line ts)"
    using assms by (induction ts rule: join_tag_line.induct) (auto dest: valid_tag_no_ws)
  show "join_tag_line ts \<noteq> []"
    using assms by (cases ts rule: join_tag_line.cases) auto
  show "\<not> is_blank (last (join_tag_line ts))"
    using assms
  proof (induction ts rule: join_tag_line.induct)
    case (2 t)
    then have "t \<noteq> []" "last t \<in> set t" by (auto simp: is_valid_tag_def)
    with 2 show ?case using valid_tag_no_ws [of t "last t"] by (auto simp: is_blank_def)
  next
    case (3 t u us)
    then have "join_tag_line (u # us) \<noteq> []" by (cases us) auto
    with 3 show ?case by (simp del: join_tag_line.simps(2,3) add: join_tag_line_Cons)
  qed simp
qed

section \<open>A body rebuilt with a new tag line\<close>

lemma tags_on_rebuilt:
  assumes ts: "list_all is_valid_tag ts" "ts \<noteq> []"
    and before: "before = [] \<or> last before = CHR 0x0A" and ws: "list_all is_blank ws"
  shows "split_trailing_whitespace (before @ join_tag_line ts @ ws)
      = \<lparr>split_content = before @ join_tag_line ts, trailing_ws = ws\<rparr>"
    and "last_line_start (before @ join_tag_line ts) = length before"
    and "tags_on_trailing_line (before @ join_tag_line ts @ ws) = map normalize_tag ts"
proof -
  note j = join_tag_line_chars [OF ts]
  show sp: "split_trailing_whitespace (before @ join_tag_line ts @ ws)
      = \<lparr>split_content = before @ join_tag_line ts, trailing_ws = ws\<rparr>"
    using split_unique [of "before @ join_tag_line ts" ws] j ws by simp
  show ls: "last_line_start (before @ join_tag_line ts) = length before"
    using last_line_start_split [OF refl j(1) before] .
  show "tags_on_trailing_line (before @ join_tag_line ts @ ws) = map normalize_tag ts"
    using j(2) by (simp add: tags_on_trailing_line_def sp ls parse_pure_join_tag_line [OF ts])
qed

lemma join_tag_line_single: "CHR ''#'' # t = join_tag_line [t]"
  by simp

text \<open>The three shapes a body can have: blank, ending in a tag line, ending in prose.\<close>

lemma body_cases:
  obtains (blank) "split_content (split_trailing_whitespace body) = []"
      "tags_on_trailing_line body = []"
  | (tagged) before line ws ts where "body = before @ line @ ws" "list_all is_blank ws"
      "before = [] \<or> last before = CHR 0x0A" "parse_pure_tag_line line = Some ts"
      "split_trailing_whitespace body = \<lparr>split_content = before @ line, trailing_ws = ws\<rparr>"
      "last_line_start (before @ line) = length before" "before @ line \<noteq> []"
      "tags_on_trailing_line body = ts"
  | (prose) content ws where "body = content @ ws" "content \<noteq> []" "list_all is_blank ws"
      "\<not> is_blank (last content)"
      "parse_pure_tag_line (drop (last_line_start content) content) = None"
      "split_trailing_whitespace body = \<lparr>split_content = content, trailing_ws = ws\<rparr>"
      "tags_on_trailing_line body = []"
proof -
  define content where "content = split_content (split_trailing_whitespace body)"
  define ws where "ws = trailing_ws (split_trailing_whitespace body)"
  have sp: "split_trailing_whitespace body = \<lparr>split_content = content, trailing_ws = ws\<rparr>"
    and body: "body = content @ ws" and blank_ws: "list_all is_blank ws"
    by (simp_all add: content_def ws_def trailing_ws_blank)
  define before where "before = take (last_line_start content) content"
  define line where "line = drop (last_line_start content) content"
  have c: "content = before @ line" by (simp add: before_def line_def)
  consider "content = []" | "content \<noteq> []" "parse_pure_tag_line line = None"
    | ts where "content \<noteq> []" "parse_pure_tag_line line = Some ts"
    by (cases "parse_pure_tag_line line") auto
  then show thesis
  proof cases
    case 1
    then show ?thesis by (intro blank) (simp_all add: sp tags_on_trailing_line_def)
  next
    case 2
    then have "tags_on_trailing_line body = []"
      by (simp add: tags_on_trailing_line_def sp line_def [symmetric])
    moreover have "\<not> is_blank (last content)"
      using content_last [of body] 2(1) by (simp add: sp)
    ultimately show ?thesis
      using prose [OF body 2(1) blank_ws _ _ sp] 2(2) by (simp add: line_def)
  next
    case (3 ts)
    have "length before = last_line_start content"
      unfolding before_def using last_line_start_le [of content] by simp
    then have "last_line_start (before @ line) = length before" by (simp only: c [symmetric])
    moreover have "tags_on_trailing_line body = ts"
      using 3 by (simp add: tags_on_trailing_line_def sp line_def [symmetric])
    moreover have "before = [] \<or> last before = CHR 0x0A"
      unfolding before_def by (rule last_line_parts(2))
    moreover have "body = before @ line @ ws" using body c by simp
    moreover have "split_trailing_whitespace body = \<lparr>split_content = before @ line, trailing_ws = ws\<rparr>"
      using sp c by simp
    ultimately show ?thesis using tagged 3 blank_ws c by metis
  qed
qed

section \<open>Properties\<close>

lemma valid_tags_remove1:
  assumes "list_all is_valid_tag ts" and "map normalize_tag ts = ts"
  shows "list_all is_valid_tag (remove1 t ts)" and "map normalize_tag (remove1 t ts) = remove1 t ts"
  using assms by (induction ts) auto

text \<open>
  C39: adding a tag appends it to the tags of the trailing line, creating the line when there is
  none; a tag already on the line is not duplicated and the order of the others is kept.
\<close>

theorem upsert_tags_on_trailing_line:
  assumes valid: "is_valid_tag t" and norm: "normalize_tag t = t"
  shows "tags_on_trailing_line (upsert_trailing_tag_line body t) =
    (if t \<in> set (tags_on_trailing_line body) then tags_on_trailing_line body
     else tags_on_trailing_line body @ [t])"
proof (cases body rule: body_cases)
  case blank
  then have "upsert_trailing_tag_line body t = [] @ join_tag_line [t] @ []"
    by (simp add: upsert_trailing_tag_line_def Let_def)
  with tags_on_rebuilt(3) [of "[t]" "[]" "[]"] valid norm blank(2) show ?thesis by simp
next
  case (tagged before line ws ts)
  note v = parse_pure_tag_line_valid [OF tagged(4)]
  show ?thesis
  proof (cases "t \<in> set ts")
    case True
    with tagged have "upsert_trailing_tag_line body t = body"
      by (auto simp: upsert_trailing_tag_line_def Let_def)
    with True tagged(8) show ?thesis by simp
  next
    case False
    with tagged have "upsert_trailing_tag_line body t = before @ join_tag_line (ts @ [t]) @ ws"
      by (auto simp: upsert_trailing_tag_line_def Let_def)
    with False tags_on_rebuilt(3) [of "ts @ [t]" before ws] v valid norm tagged(2,3,8)
    show ?thesis by simp
  qed
next
  case (prose content ws)
  then have "upsert_trailing_tag_line body t =
      (content @ [CHR 0x0A, CHR 0x0A]) @ join_tag_line [t] @ ws"
    by (simp add: upsert_trailing_tag_line_def Let_def)
  with tags_on_rebuilt(3) [of "[t]" "content @ [CHR 0x0A, CHR 0x0A]" ws] valid norm prose(3,7)
  show ?thesis by simp
qed

theorem upsert_tags_on_trailing_line_witness:
  "is_valid_tag ''todo'' \<and> normalize_tag ''todo'' = ''todo''
   \<and> tags_on_trailing_line (upsert_trailing_tag_line ''Note'' ''todo'') = [''todo'']"
proof -
  have v: "is_valid_tag ''todo''" and n: "normalize_tag ''todo'' = ''todo''" by code_simp+
  have "tags_on_trailing_line ''Note'' = []" by code_simp
  with v n upsert_tags_on_trailing_line [OF v n, of "''Note''"] show ?thesis by simp
qed

text \<open>
  Removing a tag reports \<open>Removed\<close> exactly when the tag is on the trailing line, otherwise the
  body is untouched. Exactly one occurrence goes: when other tokens stay, the line holds them in
  order (so a tag written twice on the line is still there after it was reported removed).
\<close>

theorem remove_tags_on_trailing_line:
  "(outcome (remove_from_trailing_tag_line body t) = TagRemoved
      \<longleftrightarrow> t \<in> set (tags_on_trailing_line body))
   \<and> (outcome (remove_from_trailing_tag_line body t) = NotOnTrailingLine
      \<longrightarrow> new_body (remove_from_trailing_tag_line body t) = body)
   \<and> (t \<in> set (tags_on_trailing_line body) \<and> remove1 t (tags_on_trailing_line body) \<noteq> []
      \<longrightarrow> tags_on_trailing_line (new_body (remove_from_trailing_tag_line body t))
          = remove1 t (tags_on_trailing_line body))"
proof (cases body rule: body_cases)
  case blank
  then show ?thesis by (simp add: remove_from_trailing_tag_line_def Let_def)
next
  case (tagged before line ws ts)
  note v = parse_pure_tag_line_valid [OF tagged(4)]
  have vr: "list_all is_valid_tag (remove1 t ts)" and nr: "map normalize_tag (remove1 t ts) = remove1 t ts"
    by (rule valid_tags_remove1 [OF v(2,3)])+
  have "remove_from_trailing_tag_line body t =
     (if t \<notin> set ts then \<lparr>new_body = body, outcome = NotOnTrailingLine\<rparr>
      else if remove1 t ts = [] then \<lparr>new_body = pop_newlines before @ ws, outcome = TagRemoved\<rparr>
      else \<lparr>new_body = before @ join_tag_line (remove1 t ts) @ ws, outcome = TagRemoved\<rparr>)"
    using tagged by (auto simp: remove_from_trailing_tag_line_def Let_def)
  with tags_on_rebuilt(3) [OF vr _ tagged(3,2)] nr tagged(8) show ?thesis by auto
next
  case (prose content ws)
  then show ?thesis by (simp add: remove_from_trailing_tag_line_def Let_def)
qed

theorem remove_tags_on_trailing_line_witness:
  "''a'' \<in> set (tags_on_trailing_line ''x\<newline>#a #a'')
   \<and> tags_on_trailing_line (new_body (remove_from_trailing_tag_line ''x\<newline>#a #a'' ''a'')) = [''a'']"
proof -
  have "tags_on_trailing_line ''x\<newline>#a #a'' = [''a'', ''a'']" by code_simp
  with remove_tags_on_trailing_line [of "''x\<newline>#a #a''" "''a''"] show ?thesis by simp
qed

text \<open>
  Adding a tag to a body that ends in prose and removing it again gives back the body byte for
  byte.
\<close>

theorem remove_undoes_upsert:
  assumes valid: "is_valid_tag t" and norm: "normalize_tag t = t"
    and untagged: "tags_on_trailing_line body = []"
    and content: "split_content (split_trailing_whitespace body) \<noteq> []"
  shows "remove_from_trailing_tag_line (upsert_trailing_tag_line body t) t
    = \<lparr>new_body = body, outcome = TagRemoved\<rparr>"
proof (cases body rule: body_cases)
  case blank
  with content show ?thesis by simp
next
  case (tagged before line ws ts)
  with untagged parse_pure_tag_line_valid(1) [OF tagged(4)] show ?thesis by simp
next
  case (prose content ws)
  let ?before = "content @ [CHR 0x0A, CHR 0x0A]"
  have up: "upsert_trailing_tag_line body t = ?before @ join_tag_line [t] @ ws"
    using prose by (simp add: upsert_trailing_tag_line_def Let_def)
  have v: "list_all is_valid_tag [t]" "[t] \<noteq> []" "?before = [] \<or> last ?before = CHR 0x0A"
    using valid by auto
  note r = tags_on_rebuilt [OF v prose(3)]
  have pop: "pop_newlines ?before = content"
    using prose(2,4) by (cases content rule: rev_cases) (auto simp: pop_newlines_def is_blank_def)
  have "parse_pure_tag_line (join_tag_line [t]) = Some [t]"
    using parse_pure_join_tag_line [OF v(1,2)] norm by simp
  with r(1,2) pop prose(1)
  have "remove_from_trailing_tag_line (?before @ join_tag_line [t] @ ws) t
      = \<lparr>new_body = body, outcome = TagRemoved\<rparr>"
    unfolding remove_from_trailing_tag_line_def by (simp add: Let_def)
  then show ?thesis unfolding up .
qed

theorem remove_undoes_upsert_witness:
  "remove_from_trailing_tag_line (upsert_trailing_tag_line ''Hello '' ''todo'') ''todo''
    = \<lparr>new_body = ''Hello '', outcome = TagRemoved\<rparr>"
  by (rule remove_undoes_upsert) code_simp+

text \<open>
  C40: in a body with CRLF line ends, removing the only tag of the line does not remove the blank
  separator before it: a lone carriage return stays behind.
\<close>

theorem remove_leaves_carriage_return:
  assumes valid: "is_valid_tag t" and norm: "normalize_tag t = t"
  shows "remove_from_trailing_tag_line (p @ ''\<newline>'' @ [CHR 0x0D, CHR 0x0A] @ CHR ''#'' # t) t
    = \<lparr>new_body = p @ ''\<newline>'' @ [CHR 0x0D], outcome = TagRemoved\<rparr>"
proof -
  let ?before = "p @ ''\<newline>'' @ [CHR 0x0D, CHR 0x0A]"
  have v: "list_all is_valid_tag [t]" "[t] \<noteq> []" "?before = [] \<or> last ?before = CHR 0x0A"
    using valid by auto
  note r = tags_on_rebuilt [OF v, of "[]"]
  have "parse_pure_tag_line (join_tag_line [t]) = Some [t]"
    using parse_pure_join_tag_line [OF v(1,2)] norm by simp
  moreover have "pop_newlines ?before = p @ ''\<newline>'' @ [CHR 0x0D]"
    by (simp add: pop_newlines_def)
  ultimately show ?thesis
    using r(1,2) by (simp add: remove_from_trailing_tag_line_def Let_def)
qed

theorem remove_leaves_carriage_return_witness:
  "remove_from_trailing_tag_line ([CHR ''a'', CHR 0x0D] @ ''\<newline>'' @ [CHR 0x0D, CHR 0x0A] @ CHR ''#'' # ''b'') ''b''
    = \<lparr>new_body = [CHR ''a'', CHR 0x0D] @ ''\<newline>'' @ [CHR 0x0D], outcome = TagRemoved\<rparr>"
  by (rule remove_leaves_carriage_return) code_simp+

end
