(* ===== verification/Doubles.thy ===== *)
theory Doubles
  imports Complex_Main "HOL-Library.Log_Nat" Holder_Prelude
begin

text \<open>
  The C++ type \<open>double\<close> of the card sort keys: IEEE 754 binary64 with round-to-nearest-even. A
  finite double is the rational it denotes; an arithmetic operation is the exact rational result
  rounded to 53 significant bits, with subnormals below \<open>2 ^ -1022\<close> and overflow to infinity.

  The two zeros are one value here: the sources compare, add and multiply keys and divide only by
  \<open>n + 1.0\<close>, and none of these tells the zeros apart by a comparison.
\<close>

section \<open>Values and rounding\<close>

datatype double = DNan | DPosInf | DNegInf | DFin rat

definition half_even :: "rat \<Rightarrow> int" where
  "half_even q =
     (let f = \<lfloor>q\<rfloor>; d = q - of_int f
      in if d < 1 / 2 then f else if 1 / 2 < d then f + 1 else if even f then f else f + 1)"

definition ilog2 :: "rat \<Rightarrow> int" where
  "ilog2 q =
     (let (a, b) = quotient_of q; k = bitlen a - bitlen b
      in if 2 powi k \<le> q then k else k - 1)"

definition rnd :: "rat \<Rightarrow> double" where
  "rnd q =
     (if q = 0 then DFin 0
      else let e = max (ilog2 \<bar>q\<bar> - 52) (- 1074);
               r = of_int (half_even (q / 2 powi e)) * 2 powi e
           in if 2 ^ 1024 \<le> r then DPosInf else if r \<le> - (2 ^ 1024) then DNegInf else DFin r)"

section \<open>Operations\<close>

fun isfinite :: "double \<Rightarrow> bool" where
  "isfinite (DFin _) = True"
| "isfinite _ = False"

fun dneg :: "double \<Rightarrow> double" where
  "dneg DNan = DNan"
| "dneg DPosInf = DNegInf"
| "dneg DNegInf = DPosInf"
| "dneg (DFin a) = DFin (- a)"

fun dadd :: "double \<Rightarrow> double \<Rightarrow> double" where
  "dadd DNan _ = DNan"
| "dadd _ DNan = DNan"
| "dadd DPosInf DNegInf = DNan"
| "dadd DNegInf DPosInf = DNan"
| "dadd DPosInf _ = DPosInf"
| "dadd _ DPosInf = DPosInf"
| "dadd DNegInf _ = DNegInf"
| "dadd _ DNegInf = DNegInf"
| "dadd (DFin a) (DFin b) = rnd (a + b)"

definition dsub :: "double \<Rightarrow> double \<Rightarrow> double" where
  "dsub x y = dadd x (dneg y)"

definition inf_times :: "bool \<Rightarrow> rat \<Rightarrow> double" where
  "inf_times neg a =
     (if a = 0 then DNan else if (a < 0) = neg then DPosInf else DNegInf)"

fun dmul :: "double \<Rightarrow> double \<Rightarrow> double" where
  "dmul DNan _ = DNan"
| "dmul _ DNan = DNan"
| "dmul DPosInf DPosInf = DPosInf"
| "dmul DPosInf DNegInf = DNegInf"
| "dmul DNegInf DPosInf = DNegInf"
| "dmul DNegInf DNegInf = DPosInf"
| "dmul DPosInf (DFin b) = inf_times False b"
| "dmul DNegInf (DFin b) = inf_times True b"
| "dmul (DFin a) DPosInf = inf_times False a"
| "dmul (DFin a) DNegInf = inf_times True a"
| "dmul (DFin a) (DFin b) = rnd (a * b)"

text \<open>The quotient of two finite doubles; the sources divide by \<open>n + 1.0\<close>, which is not zero.\<close>

fun ddiv :: "double \<Rightarrow> double \<Rightarrow> double" where
  "ddiv (DFin a) (DFin b) =
     (if b \<noteq> 0 then rnd (a / b) else if a = 0 then DNan else if 0 < a then DPosInf else DNegInf)"
| "ddiv DPosInf (DFin b) = (if 0 \<le> b then DPosInf else DNegInf)"
| "ddiv DNegInf (DFin b) = (if 0 \<le> b then DNegInf else DPosInf)"
| "ddiv (DFin _) DPosInf = DFin 0"
| "ddiv (DFin _) DNegInf = DFin 0"
| "ddiv _ _ = DNan"

fun dlt :: "double \<Rightarrow> double \<Rightarrow> bool" where
  "dlt DNan _ = False"
| "dlt _ DNan = False"
| "dlt DNegInf y = (y \<noteq> DNegInf)"
| "dlt _ DNegInf = False"
| "dlt DPosInf _ = False"
| "dlt _ DPosInf = True"
| "dlt (DFin a) (DFin b) = (a < b)"

definition deq :: "double \<Rightarrow> double \<Rightarrow> bool" where
  "deq x y \<longleftrightarrow> x \<noteq> DNan \<and> x = y"

definition dle :: "double \<Rightarrow> double \<Rightarrow> bool" where
  "dle x y \<longleftrightarrow> dlt x y \<or> deq x y"

text \<open>\<open>static_cast<double>\<close> of an unsigned integer.\<close>

definition double_of_nat :: "nat \<Rightarrow> double" where
  "double_of_nat n = rnd (of_nat n)"

section \<open>The order\<close>

lemma dlt_irrefl [simp]: "\<not> dlt x x"
  by (cases x) auto

lemma dlt_trans: "dlt x y \<Longrightarrow> dlt y z \<Longrightarrow> dlt x z"
  by (cases x; cases y; cases z) auto

lemma dlt_total: "x \<noteq> DNan \<Longrightarrow> y \<noteq> DNan \<Longrightarrow> x \<noteq> y \<Longrightarrow> dlt x y \<or> dlt y x"
  by (cases x; cases y) auto

lemma dlt_asym: "dlt x y \<Longrightarrow> \<not> dlt y x"
  using dlt_trans dlt_irrefl by blast

lemma dlt_not_NaN: "dlt x y \<Longrightarrow> x \<noteq> DNan \<and> y \<noteq> DNan"
  by (cases x; cases y) auto

lemma not_dle: "x \<noteq> DNan \<Longrightarrow> y \<noteq> DNan \<Longrightarrow> \<not> dle x y \<longleftrightarrow> dlt y x"
  using dlt_total dlt_asym by (auto simp: dle_def deq_def)

interpretation double_order: keyed_order dlt "\<lambda>x. x" "\<lambda>x. x \<noteq> DNan"
  by unfold_locales (use dlt_trans dlt_total in auto)

section \<open>Accuracy of rounding\<close>

lemma half_even_error: "\<bar>of_int (half_even q) - q\<bar> \<le> 1 / 2"
proof -
  let ?d = "q - of_int \<lfloor>q\<rfloor>"
  have d: "0 \<le> ?d" "?d < 1" by linarith+
  consider "?d < 1 / 2" | "1 / 2 < ?d" | "?d = 1 / 2" by linarith
  then show ?thesis
  proof cases
    case 1
    then have "half_even q = \<lfloor>q\<rfloor>" by (simp add: half_even_def)
    with 1 d show ?thesis by (simp only: abs_le_iff) linarith
  next
    case 2
    then have "half_even q = \<lfloor>q\<rfloor> + 1" by (simp add: half_even_def)
    with 2 d show ?thesis by (simp only: abs_le_iff of_int_add of_int_1) linarith
  next
    case 3
    then have "half_even q = \<lfloor>q\<rfloor> \<or> half_even q = \<lfloor>q\<rfloor> + 1" by (simp add: half_even_def Let_def)
    with 3 show ?thesis by (elim disjE) (simp_all only: abs_le_iff of_int_add of_int_1, linarith+)
  qed
qed

lemma half_even_int [simp]: "half_even (of_int k) = k"
  by (simp add: half_even_def)

lemma bitlen_bounds_rat:
  assumes "0 < a"
  shows "2 powi (bitlen a - 1) \<le> (of_int a :: rat)" and "(of_int a :: rat) < 2 powi bitlen a"
proof -
  have pos: "0 < bitlen a" using assms bitlen_nonneg [of a] bitlen_eq_zero_iff [of a] by linarith
  have *: "2 ^ nat (bitlen a - 1) \<le> a" "a < 2 ^ nat (bitlen a)"
    using bitlen_bounds [OF assms] by auto
  from *(1) have "(of_int (2 ^ nat (bitlen a - 1)) :: rat) \<le> of_int a" by (simp only: of_int_le_iff)
  then show "2 powi (bitlen a - 1) \<le> (of_int a :: rat)" using pos by (simp add: power_int_def)
  from *(2) have "(of_int a :: rat) < of_int (2 ^ nat (bitlen a))" by (simp only: of_int_less_iff)
  then show "(of_int a :: rat) < 2 powi bitlen a" using pos by (simp add: power_int_def)
qed

lemma powi_add_one: "(2 :: rat) powi (k + 1) = 2 * 2 powi k"
  by (simp add: power_int_add)

lemma ilog2_bounds:
  assumes "0 < q"
  shows "2 powi ilog2 q \<le> q" and "q < 2 powi (ilog2 q + 1)"
proof -
  obtain a b where ab: "quotient_of q = (a, b)" by (cases "quotient_of q")
  have q: "q = of_int a / of_int b" using ab by (rule quotient_of_div)
  have b: "0 < b" using ab by (rule quotient_of_denom_pos)
  then have a: "0 < a" using assms q by (simp add: zero_less_divide_iff)
  let ?k = "bitlen a - bitlen b"
  note A = bitlen_bounds_rat [OF a] and B = bitlen_bounds_rat [OF b]
  have lo: "2 powi (?k - 1) \<le> q"
  proof -
    have "(2 :: rat) powi (?k - 1) = 2 powi (bitlen a - 1) / 2 powi bitlen b"
      by (simp add: power_int_diff)
    also have "\<dots> \<le> of_int a / of_int b"
      using A(1) B(2) a b by (intro frac_le) auto
    finally show ?thesis by (simp add: q)
  qed
  have hi: "q < 2 powi (?k + 1)"
  proof -
    have "q < 2 powi bitlen a / 2 powi (bitlen b - 1)"
      unfolding q using A(2) B(1) a b by (intro frac_less) auto
    also have "\<dots> = 2 powi (?k + 1)" by (simp add: power_int_diff power_int_add)
    finally show ?thesis .
  qed
  show "2 powi ilog2 q \<le> q" and "q < 2 powi (ilog2 q + 1)"
    using lo hi by (auto simp: ilog2_def ab Let_def)
qed

lemma powi_strict_mono: "(2 :: rat) powi i < 2 powi j \<longleftrightarrow> i < j"
proof -
  have "(2 :: rat) powi i < 2 powi j" if "i < j" for i j :: int
    using that by (simp add: power_int_strict_increasing)
  then show ?thesis by (metis less_asym' linorder_neqE_linordered_idom order_less_irrefl)
qed

lemma ilog2_ge:
  assumes "0 < q" and "2 powi k \<le> q"
  shows "k \<le> ilog2 q"
proof -
  have "(2 :: rat) powi k < 2 powi (ilog2 q + 1)"
    using assms ilog2_bounds(2) [of q] by linarith
  then show ?thesis by (simp add: powi_strict_mono)
qed

lemma ilog2_less:
  assumes "0 < q" and "q < 2 powi k"
  shows "ilog2 q < k"
proof -
  have "(2 :: rat) powi ilog2 q < 2 powi k"
    using assms ilog2_bounds(1) [of q] by linarith
  then show ?thesis by (simp add: powi_strict_mono)
qed

text \<open>
  In the range of the normal doubles rounding has relative error at most \<open>2 ^ -53\<close> and does not
  overflow.
\<close>

lemma rnd_normal:
  assumes lo: "2 powi (- 1022) \<le> \<bar>q\<bar>" and hi: "\<bar>q\<bar> < 2 ^ 1000"
  shows "\<exists>r. rnd q = DFin r \<and> \<bar>r - q\<bar> \<le> \<bar>q\<bar> / 2 ^ 53"
proof -
  have "(0 :: rat) < 2 powi (- 1022)" by (rule zero_less_power_int) simp
  then have pos: "0 < \<bar>q\<bar>" using lo by (rule less_le_trans)
  then have q0: "q \<noteq> 0" by simp
  let ?l = "ilog2 \<bar>q\<bar>"
  have l: "- 1022 \<le> ?l" using pos lo by (rule ilog2_ge)
  define e where "e = ?l - 52"
  have e: "max (?l - 52) (- 1074) = e" using l by (simp add: e_def)
  define r :: rat where "r = of_int (half_even (q / 2 powi e)) * 2 powi e"
  have pe: "(0 :: rat) < 2 powi e" by simp
  have "\<bar>r - q\<bar> = \<bar>of_int (half_even (q / 2 powi e)) - q / 2 powi e\<bar> * 2 powi e"
    using pe unfolding r_def by (simp add: abs_mult [symmetric] field_simps)
  also have "\<dots> \<le> 1 / 2 * 2 powi e"
    using half_even_error pe by (intro mult_right_mono) auto
  also have "\<dots> = 2 powi ?l / 2 ^ 53"
    unfolding e_def by (simp add: power_int_diff)
  also have "\<dots> \<le> \<bar>q\<bar> / 2 ^ 53"
    using ilog2_bounds(1) [OF pos] by (intro divide_right_mono) auto
  finally have err: "\<bar>r - q\<bar> \<le> \<bar>q\<bar> / 2 ^ 53" .
  have "\<bar>r\<bar> \<le> 2 * \<bar>q\<bar>"
  proof -
    have "\<bar>q\<bar> / 2 ^ 53 \<le> \<bar>q\<bar>" using pos by (simp add: field_simps)
    then show ?thesis using err by linarith
  qed
  also have "\<dots> < 2 ^ 1024" using hi by simp
  finally have "\<not> 2 ^ 1024 \<le> r" and "\<not> r \<le> - (2 ^ 1024)" by linarith+
  then have "rnd q = DFin r"
    using q0 by (simp add: rnd_def e Let_def r_def [symmetric])
  with err show ?thesis by blast
qed

text \<open>Below \<open>2 ^ 52\<close> in magnitude the absolute error is at most a quarter.\<close>

lemma rnd_near:
  assumes "\<bar>q\<bar> < 2 ^ 52"
  shows "\<exists>r. rnd q = DFin r \<and> \<bar>r - q\<bar> \<le> 1 / 4"
proof (cases "q = 0")
  case False
  then have pos: "0 < \<bar>q\<bar>" by simp
  define e where "e = max (ilog2 \<bar>q\<bar> - 52) (- 1074)"
  have "ilog2 \<bar>q\<bar> < 52" using pos assms by (intro ilog2_less) (auto simp: power_int_def)
  then have "e < 0" by (simp add: e_def)
  then have "(2 :: rat) powi e < 2 powi 0" by (simp only: powi_strict_mono)
  moreover have "(2 :: rat) powi e \<le> 2 powi (- 1)"
    using \<open>e < 0\<close> by (intro power_int_increasing) auto
  ultimately have pe: "(0 :: rat) < 2 powi e" "(2 :: rat) powi e \<le> 1 / 2" by (auto simp: power_int_minus)
  define r :: rat where "r = of_int (half_even (q / 2 powi e)) * 2 powi e"
  have "\<bar>r - q\<bar> = \<bar>of_int (half_even (q / 2 powi e)) - q / 2 powi e\<bar> * 2 powi e"
    using pe(1) unfolding r_def by (simp add: abs_mult [symmetric] field_simps)
  also have "\<dots> \<le> 1 / 2 * (1 / 2)"
    using half_even_error pe by (intro mult_mono) auto
  finally have err: "\<bar>r - q\<bar> \<le> 1 / 4" by simp
  have "\<bar>q\<bar> < 4503599627370496" using assms by simp
  then have "\<bar>r\<bar> < 9007199254740992" using err by linarith
  then have "\<bar>r\<bar> < 2 ^ 53" by simp
  also have "(2 :: rat) ^ 53 < 2 ^ 1024" by (rule power_strict_increasing) simp_all
  finally have "\<bar>r\<bar> < 2 ^ 1024" .
  then have "\<not> 2 ^ 1024 \<le> r" and "\<not> r \<le> - (2 ^ 1024)" by linarith+
  then have "rnd q = DFin r" using False by (simp add: rnd_def e_def [symmetric] Let_def r_def [symmetric])
  with err show ?thesis by blast
qed (simp add: rnd_def)

text \<open>Integers below \<open>2 ^ 53\<close> are doubles: converting them is exact.\<close>

lemma rnd_int:
  assumes "\<bar>k\<bar> < 2 ^ 53"
  shows "rnd (of_int k) = DFin (of_int k)"
proof (cases "k = 0")
  case False
  let ?q = "of_int k :: rat"
  have pos: "0 < \<bar>?q\<bar>" using False by simp
  have lt: "\<bar>?q\<bar> < 2 powi 53"
  proof -
    have "(of_int \<bar>k\<bar> :: rat) < of_int (2 ^ 53)" using assms by (simp only: of_int_less_iff)
    then show ?thesis by (simp add: power_int_def)
  qed
  have "ilog2 \<bar>?q\<bar> < 53" using pos lt by (rule ilog2_less)
  moreover have "0 \<le> ilog2 \<bar>?q\<bar>"
  proof (rule ilog2_ge [OF pos])
    have "1 \<le> \<bar>k\<bar>" using False by simp
    then have "(of_int 1 :: rat) \<le> of_int \<bar>k\<bar>" by (simp only: of_int_le_iff)
    then show "2 powi 0 \<le> \<bar>?q\<bar>" by simp
  qed
  ultimately have m: "max (ilog2 \<bar>?q\<bar> - 52) (- 1074) = - int m" if "m = nat (52 - ilog2 \<bar>?q\<bar>)" for m
    using that by auto
  define m where "m = nat (52 - ilog2 \<bar>?q\<bar>)"
  note m = m [OF m_def]
  have inv: "?q / 2 powi (- int m) = of_int (k * 2 ^ m)"
    by (simp add: power_int_minus field_simps)
  have r: "of_int (half_even (?q / 2 powi (- int m))) * 2 powi (- int m) = ?q"
    by (simp only: inv half_even_int) (simp add: power_int_minus field_simps)
  have "\<bar>?q\<bar> < 2 ^ 1024"
    using lt by (rule less_trans) (simp add: power_int_def)
  then have "\<not> 2 ^ 1024 \<le> ?q" and "\<not> ?q \<le> - (2 ^ 1024)" by linarith+
  then show ?thesis using False by (simp add: rnd_def m Let_def r)
qed (simp add: rnd_def)

lemma double_of_nat_exact: "n < 2 ^ 53 \<Longrightarrow> double_of_nat n = DFin (of_nat n)"
  using rnd_int [of "int n"] by (simp add: double_of_nat_def)

end
