(* ===== verification/Card_Model.thy ===== *)
theory Card_Model
  imports Doubles
begin

text \<open>
  The data of \<open>src/src/model\<close> and the sharded file paths of \<open>src/src/card/CardPaths.cpp\<close>, with the
  SQLite tables of \<open>src/schema/schema.sql\<close> that hold projects, cards and the indexes over them.
  Timestamps are \<open>long long\<close> values that are stored and compared, never computed with.
\<close>

section \<open>Structs\<close>

datatype id_scheme = Uuid4 | Uuid7

datatype card_scope = Live | Trashed | Either

record card =
  card_id :: string
  project_id :: string
  title :: string
  rel_path :: path
  parent_card_id :: "string option"
  sort_key :: double
  created_at :: i64
  updated_at :: i64
  deleted_at :: "i64 option"

record card_link =
  link_project_id :: string
  from_card_id :: string
  to_card_id :: string
  to_type :: string
  link_kind :: string
  link_label :: "string option"
  link_created_at :: i64

record milestone =
  milestone_id :: string
  ms_project_id :: string
  ms_card_id :: string
  start_at :: i64
  end_at :: "i64 option"
  all_day :: bool
  ms_kind :: "string option"
  ms_description :: "string option"
  ms_created_at :: i64
  ms_updated_at :: i64

record project =
  proj_id :: string
  proj_name :: string
  root_path :: path
  git_remote_url :: "string option"
  git_provider :: "string option"
  privacy_mode :: string
  project_key_id :: "string option"
  id_scheme :: id_scheme
  proj_created_at :: i64
  proj_updated_at :: i64

record sync_state =
  ss_project_id :: string
  last_commit_at :: "i64 option"
  last_push_at :: "i64 option"
  last_pull_at :: "i64 option"
  uncommitted_changes_count :: int
  unpushed_commits_count :: int
  last_push_status :: "string option"
  last_pull_status :: "string option"
  last_sync_error :: "string option"
  last_sync_error_at :: "i64 option"
  retry_count :: int
  next_retry_at :: "i64 option"
  pull_retry_count :: int
  next_pull_retry_at :: "i64 option"
  ss_updated_at :: i64

record ai_thread =
  th_id :: string
  th_project_id :: string
  th_card_id :: "string option"
  th_title :: string
  th_created_at :: i64
  th_updated_at :: i64

record ai_message =
  msg_id :: string
  msg_thread_id :: string
  msg_role :: string
  msg_source :: string
  msg_provider :: "string option"
  msg_model :: "string option"
  msg_content :: string
  msg_created_at :: i64
  msg_deleted_at :: "i64 option"
  msg_prompt_hash :: "string option"
  msg_meta_json :: "string option"

text \<open>\<open>std::map\<close> is a list of its entries in the order of the keys.\<close>

record location =
  loc_id :: string
  loc_project_id :: string
  loc_name :: string
  loc_provider :: string
  loc_configuration :: "(string \<times> string) list"
  loc_created_at :: i64
  loc_updated_at :: i64

record placement =
  plc_id :: string
  plc_asset_id :: string
  plc_location_id :: string
  object_key :: string
  plc_encoding :: string
  stored_byte_size :: i64
  stored_sha256 :: string
  plc_created_at :: i64

record asset =
  asset_id :: string
  as_resource_id :: string
  original_filename :: string
  media_type :: string
  byte_size :: i64
  plaintext_sha256 :: string
  as_created_at :: i64
  as_updated_at :: i64
  as_placements :: "placement list"

record resource =
  res_id :: string
  res_project_id :: string
  res_type :: string
  res_label :: string
  res_metadata :: "(string \<times> string list) list"
  res_created_at :: i64
  res_updated_at :: i64

record resource_bundle =
  rb_resource :: resource
  rb_assets :: "asset list"

text \<open>A default-constructed \<open>Card\<close>, \<open>CardLink\<close> and \<open>Milestone\<close>.\<close>

definition empty_card :: card where
  "empty_card = \<lparr>card_id = [], project_id = [], title = [], rel_path = [], parent_card_id = None,
     sort_key = DFin 0, created_at = 0, updated_at = 0, deleted_at = None\<rparr>"

definition empty_link :: card_link where
  "empty_link = \<lparr>link_project_id = [], from_card_id = [], to_card_id = [], to_type = [],
     link_kind = [], link_label = None, link_created_at = 0\<rparr>"

definition empty_milestone :: milestone where
  "empty_milestone = \<lparr>milestone_id = [], ms_project_id = [], ms_card_id = [], start_at = 0,
     end_at = None, all_day = False, ms_kind = None, ms_description = None, ms_created_at = 0,
     ms_updated_at = 0\<rparr>"

abbreviation is_live :: "card \<Rightarrow> bool" where
  "is_live c \<equiv> deleted_at c = None"

section \<open>Tables\<close>

record card_tag =
  tag_project_id :: string
  tag_card_id :: string
  tag :: string
  tag_created_at :: i64

record fts_row =
  fts_card_id :: string
  fts_project_id :: string
  fts_title :: string
  fts_body :: string

record ai_fts_row =
  af_message_id :: string
  af_thread_id :: string
  af_project_id :: string
  af_content :: string

record resource_row =
  rr_id :: string
  rr_project_id :: string
  rr_type :: string
  rr_label :: string
  rr_created_at :: i64
  rr_updated_at :: i64

record metadata_row =
  md_resource_id :: string
  md_property :: string
  md_value_index :: i64
  md_value :: string

record asset_row =
  ar_id :: string
  ar_resource_id :: string
  ar_project_id :: string
  ar_original_filename :: string
  ar_media_type :: string
  ar_byte_size :: i64
  ar_plaintext_sha256 :: string
  ar_created_at :: i64
  ar_updated_at :: i64

record location_row =
  lr_id :: string
  lr_project_id :: string
  lr_name :: string
  lr_provider :: string
  lr_config_json :: string
  lr_created_at :: i64
  lr_updated_at :: i64

text \<open>The tables of AI threads and of resources are grouped; a row of \<open>asset_placements\<close> is a placement.\<close>

record ai_tables =
  ai_threads :: "ai_thread list"
  ai_messages :: "ai_message list"
  ai_fts :: "ai_fts_row list"

record resource_tables =
  resources :: "resource_row list"
  resource_metadata :: "metadata_row list"
  storage_locations :: "location_row list"
  assets :: "asset_row list"
  asset_placements :: "placement list"

record db =
  projects :: "project list"
  cards :: "card list"
  card_links :: "card_link list"
  card_tags :: "card_tag list"
  milestones :: "milestone list"
  cards_fts :: "fts_row list"
  sync_states :: "sync_state list"
  db_ai :: ai_tables
  db_res :: resource_tables

definition no_ai :: ai_tables where
  "no_ai = \<lparr>ai_threads = [], ai_messages = [], ai_fts = []\<rparr>"

definition no_resources :: resource_tables where
  "no_resources = \<lparr>resources = [], resource_metadata = [], storage_locations = [], assets = [], asset_placements = []\<rparr>"

abbreviation link_key :: "card_link \<Rightarrow> string \<times> string \<times> string \<times> string \<times> string" where
  "link_key l \<equiv> (link_project_id l, from_card_id l, to_card_id l, to_type l, link_kind l)"

abbreviation tag_key :: "card_tag \<Rightarrow> string \<times> string \<times> string" where
  "tag_key t \<equiv> (tag_project_id t, tag_card_id t, tag t)"

section \<open>Paths\<close>

definition card_rel_path :: "string \<Rightarrow> path result" where
  "card_rel_path cid =
     (if length cid < 4 then Inl (RuntimeError ''card_id too short for path sharding'')
      else Inr (''cards/'' @ take 2 cid @ ''/'' @ take 2 (drop 2 cid) @ ''/'' @ cid @ ''.md''))"

definition card_trash_rel_path :: "string \<Rightarrow> path result" where
  "card_trash_rel_path cid = rbind (card_rel_path cid) (\<lambda>p. Inr (''trash/'' @ p))"

lemma card_rel_path_Inr:
  "card_rel_path cid = Inr p \<longleftrightarrow>
     4 \<le> length cid \<and> p = ''cards/'' @ take 2 cid @ ''/'' @ take 2 (drop 2 cid) @ ''/'' @ cid @ ''.md''"
  by (auto simp: card_rel_path_def)

lemma card_trash_rel_path_Inr:
  "card_trash_rel_path cid = Inr p \<longleftrightarrow> (\<exists>q. card_rel_path cid = Inr q \<and> p = ''trash/'' @ q)"
  by (auto simp: card_trash_rel_path_def rbind_eq_Inr)

text \<open>Distinct cards never share a file, and a live path is never a trash path.\<close>

lemma card_rel_path_inj:
  assumes "card_rel_path a = Inr p" and "card_rel_path b = Inr p"
  shows "a = b"
proof -
  have "length a = length b"
    using assms by (auto simp: card_rel_path_Inr dest: arg_cong [where f = length])
  then show ?thesis using assms by (auto simp: card_rel_path_Inr)
qed

lemma live_path_not_trash_path:
  assumes "card_rel_path a = Inr p" and "card_trash_rel_path b = Inr q"
  shows "p \<noteq> q"
  using assms by (auto simp: card_rel_path_Inr card_trash_rel_path_Inr)

end
