(* ===== verification/Card_Repo.thy ===== *)
theory Card_Repo
  imports Card_Model Tag_Extractor
begin

text \<open>
  The card table: \<open>src/src/card/CardRepo.cpp\<close>, each method with its SQL statement. A statement
  that violates a constraint of the schema (primary key, \<open>UNIQUE(project_id, rel_path)\<close>, foreign
  keys, \<open>NOT NULL\<close>) throws. I/O errors of the database file are not modelled.
\<close>

section \<open>Binding and scope\<close>

definition bind_card :: "card \<Rightarrow> card" where
  "bind_card c = c\<lparr>card_id := c_str (card_id c), project_id := c_str (project_id c),
     title := c_str (title c), rel_path := c_str (rel_path c),
     parent_card_id := map_option c_str (parent_card_id c)\<rparr>"

fun deletion_scope :: "card_scope \<Rightarrow> card \<Rightarrow> bool" where
  "deletion_scope Live c = (deleted_at c = None)"
| "deletion_scope Trashed c = (deleted_at c \<noteq> None)"
| "deletion_scope Either c = True"

definition parent_row_exists :: "card list \<Rightarrow> card \<Rightarrow> bool" where
  "parent_row_exists rows c =
     (case parent_card_id c of None \<Rightarrow> True | Some p \<Rightarrow> p \<in> card_id ` set rows)"

section \<open>Rows\<close>

definition cards_create :: "card \<Rightarrow> db \<Rightarrow> db result" where
  "cards_create c0 d =
     (let c = bind_card c0
      in if card_id c \<in> card_id ` set (cards d)
            \<or> (project_id c, rel_path c) \<in> (\<lambda>r. (project_id r, rel_path r)) ` set (cards d)
            \<or> project_id c \<notin> proj_id ` set (projects d)
            \<or> \<not> parent_row_exists (c # cards d) c
            \<or> sort_key c = DNan
         then Inl (SqliteError ''insert card failed'')
         else Inr (d\<lparr>cards := cards d @ [c]\<rparr>))"

definition cards_get :: "string \<Rightarrow> db \<Rightarrow> card option" where
  "cards_get cid d = find (\<lambda>r. card_id r = c_str cid) (cards d)"

definition find_by_id :: "string \<Rightarrow> string \<Rightarrow> card_scope \<Rightarrow> db \<Rightarrow> card option" where
  "find_by_id pid cid scope d =
     find (\<lambda>r. project_id r = c_str pid \<and> card_id r = c_str cid \<and> deletion_scope scope r) (cards d)"

definition find_by_id_prefix :: "string \<Rightarrow> string \<Rightarrow> card_scope \<Rightarrow> int \<Rightarrow> db \<Rightarrow> card list" where
  "find_by_id_prefix pid prefix scope limit d =
     (if limit \<le> 0 then []
      else let p = c_str prefix
           in take (nat limit)
                (sort_by (\<lambda>a b. card_id a < card_id b)
                  (filter (\<lambda>r. project_id r = c_str pid \<and> p \<le> card_id r \<and> card_id r < p @ ''~''
                     \<and> take (length p) (card_id r) = p \<and> deletion_scope scope r) (cards d))))"

definition find_by_exact_title :: "string \<Rightarrow> string \<Rightarrow> card_scope \<Rightarrow> int \<Rightarrow> db \<Rightarrow> card list" where
  "find_by_exact_title pid ttl scope limit d =
     (if limit \<le> 0 then []
      else take (nat limit)
             (filter (\<lambda>r. project_id r = c_str pid \<and> title r = c_str ttl \<and> deletion_scope scope r)
               (cards d)))"

section \<open>Lists\<close>

text \<open>\<open>ORDER BY sort_key ASC, updated_at DESC\<close>.\<close>

definition sql_tree_less :: "card \<Rightarrow> card \<Rightarrow> bool" where
  "sql_tree_less a b \<longleftrightarrow>
     dlt (sort_key a) (sort_key b) \<or> deq (sort_key a) (sort_key b) \<and> updated_at b < updated_at a"

definition list_roots :: "string \<Rightarrow> db \<Rightarrow> card list" where
  "list_roots pid d =
     sort_by sql_tree_less
       (filter (\<lambda>r. project_id r = c_str pid \<and> parent_card_id r = None) (cards d))"

definition list_children :: "string \<Rightarrow> string \<Rightarrow> db \<Rightarrow> card list" where
  "list_children pid parent d =
     sort_by sql_tree_less
       (filter (\<lambda>r. project_id r = c_str pid \<and> parent_card_id r = Some (c_str parent)) (cards d))"

definition list_all_cards :: "string \<Rightarrow> db \<Rightarrow> card list" where
  "list_all_cards pid d = sort_by sql_tree_less (filter (\<lambda>r. project_id r = c_str pid) (cards d))"

section \<open>Collection pages\<close>

datatype page_order = CardIdAsc | UpdatedDesc

record page_cursor =
  cursor_card_id :: string
  cursor_updated_at :: "i64 option"

datatype page_parent = PageAll | PageRoots | PageChildrenOf string

record page_query =
  q_tag :: "string option"
  q_parent :: page_parent
  q_order :: page_order
  q_cursor :: "page_cursor option"

definition default_query :: page_query where
  "default_query = \<lparr>q_tag = None, q_parent = PageAll, q_order = CardIdAsc, q_cursor = None\<rparr>"

definition page_less :: "page_order \<Rightarrow> card \<Rightarrow> card \<Rightarrow> bool" where
  "page_less ord a b =
     (case ord of
        CardIdAsc \<Rightarrow> card_id a < card_id b
      | UpdatedDesc \<Rightarrow> updated_at b < updated_at a
          \<or> updated_at a = updated_at b \<and> card_id b < card_id a)"

definition page_from :: "string \<Rightarrow> page_query \<Rightarrow> db \<Rightarrow> card list" where
  "page_from pid q d =
     (case q_tag q of
        None \<Rightarrow> filter (\<lambda>c. project_id c = c_str pid) (cards d)
      | Some t \<Rightarrow>
          concat (map (\<lambda>row. filter (\<lambda>c. card_id c = tag_card_id row \<and> project_id c = c_str pid)
                               (cards d))
            (filter (\<lambda>row. tag_project_id row = c_str pid \<and> tag row = c_str (normalize_tag t))
              (card_tags d))))"

definition page_where :: "page_query \<Rightarrow> card \<Rightarrow> bool" where
  "page_where q c \<longleftrightarrow>
     deleted_at c = None
     \<and> (case q_parent q of
          PageAll \<Rightarrow> True
        | PageRoots \<Rightarrow> parent_card_id c = None
        | PageChildrenOf p \<Rightarrow> parent_card_id c = Some (c_str p))"

definition after_cursor :: "page_query \<Rightarrow> card \<Rightarrow> bool" where
  "after_cursor q c =
     (case q_cursor q of
        None \<Rightarrow> True
      | Some k \<Rightarrow>
          (case q_order q of
             CardIdAsc \<Rightarrow> c_str (cursor_card_id k) < card_id c
           | UpdatedDesc \<Rightarrow>
               (case cursor_updated_at k of
                  None \<Rightarrow> False
                | Some u \<Rightarrow> updated_at c < u
                    \<or> updated_at c = u \<and> card_id c < c_str (cursor_card_id k))))"

definition list_collection_page :: "string \<Rightarrow> page_query \<Rightarrow> int \<Rightarrow> db \<Rightarrow> card list result" where
  "list_collection_page pid q limit d =
     (if limit \<le> 0 then Inl (InvalidArgument ''limit must be positive'')
      else if q_parent q = PageChildrenOf []
      then Inl (InvalidArgument ''children parent card_id must not be empty'')
      else if (case q_cursor q of None \<Rightarrow> False | Some k \<Rightarrow> cursor_card_id k = [])
      then Inl (InvalidArgument ''cursor card_id must not be empty'')
      else if (case q_cursor q of None \<Rightarrow> False
               | Some k \<Rightarrow> q_order q = UpdatedDesc \<and> cursor_updated_at k = None)
      then Inl (InvalidArgument ''updated-order cursor must include updated_at'')
      else if (case q_tag q of None \<Rightarrow> False | Some t \<Rightarrow> \<not> is_valid_tag t)
      then Inl (InvalidArgument ''Invalid tag.'')
      else Inr (take (nat limit)
                 (sort_by (page_less (q_order q))
                   (filter (\<lambda>c. page_where q c \<and> after_cursor q c) (page_from pid q d)))))"

definition list_page_by_card_id :: "string \<Rightarrow> string option \<Rightarrow> int \<Rightarrow> db \<Rightarrow> card list result" where
  "list_page_by_card_id pid after limit d =
     list_collection_page pid
       (default_query\<lparr>q_cursor :=
          (case after of
             None \<Rightarrow> None
           | Some a \<Rightarrow> if a = [] then None
                        else Some \<lparr>cursor_card_id = a, cursor_updated_at = None\<rparr>)\<rparr>)
       limit d"

definition list_recent_page ::
  "string \<Rightarrow> i64 option \<Rightarrow> string option \<Rightarrow> int \<Rightarrow> db \<Rightarrow> card list result"
where
  "list_recent_page pid before_updated before_id limit d =
     (case before_updated of
        None \<Rightarrow> list_collection_page pid (default_query\<lparr>q_order := UpdatedDesc\<rparr>) limit d
      | Some u \<Rightarrow>
          (case before_id of
             None \<Rightarrow> Inl (InvalidArgument ''before_card_id is required with before_updated_at'')
           | Some b \<Rightarrow>
               if b = []
               then Inl (InvalidArgument ''before_card_id is required with before_updated_at'')
               else list_collection_page pid
                      (default_query\<lparr>q_order := UpdatedDesc,
                         q_cursor := Some \<lparr>cursor_card_id = b, cursor_updated_at = Some u\<rparr>\<rparr>)
                      limit d))"

section \<open>Counts and keys\<close>

definition count_all_not_deleted :: "string \<Rightarrow> db \<Rightarrow> nat" where
  "count_all_not_deleted pid d =
     length (filter (\<lambda>r. project_id r = c_str pid \<and> deleted_at r = None) (cards d))"

definition count_roots_not_deleted :: "string \<Rightarrow> db \<Rightarrow> nat" where
  "count_roots_not_deleted pid d =
     length (filter (\<lambda>r. project_id r = c_str pid \<and> parent_card_id r = None \<and> deleted_at r = None)
       (cards d))"

definition count_children_not_deleted :: "string \<Rightarrow> string \<Rightarrow> db \<Rightarrow> nat" where
  "count_children_not_deleted pid parent d =
     length (filter (\<lambda>r. project_id r = c_str pid \<and> parent_card_id r = Some (c_str parent)
       \<and> deleted_at r = None) (cards d))"

definition dmax :: "double \<Rightarrow> double \<Rightarrow> double" where
  "dmax x y = (if dlt x y then y else x)"

definition next_sort_key :: "string \<Rightarrow> string option \<Rightarrow> db \<Rightarrow> double" where
  "next_sort_key pid parent d =
     (case map sort_key (filter (\<lambda>r. project_id r = c_str pid
             \<and> parent_card_id r = map_option c_str parent \<and> deleted_at r = None) (cards d)) of
        [] \<Rightarrow> dadd (DFin (- 1)) (DFin 1)
      | k # ks \<Rightarrow> dadd (foldl dmax k ks) (DFin 1))"

section \<open>Updates\<close>

definition update_cards :: "string \<Rightarrow> (card \<Rightarrow> card) \<Rightarrow> db \<Rightarrow> db" where
  "update_cards cid f d = d\<lparr>cards := update_where (\<lambda>r. card_id r = c_str cid) f (cards d)\<rparr>"

definition update_title :: "string \<Rightarrow> string \<Rightarrow> i64 \<Rightarrow> db \<Rightarrow> db" where
  "update_title cid ttl now d = update_cards cid (\<lambda>r. r\<lparr>title := c_str ttl, updated_at := now\<rparr>) d"

definition touch_updated :: "string \<Rightarrow> i64 \<Rightarrow> db \<Rightarrow> db" where
  "touch_updated cid now d = update_cards cid (\<lambda>r. r\<lparr>updated_at := now\<rparr>) d"

definition soft_delete :: "string \<Rightarrow> i64 \<Rightarrow> i64 \<Rightarrow> db \<Rightarrow> db" where
  "soft_delete cid del now d =
     update_cards cid (\<lambda>r. r\<lparr>deleted_at := Some del, updated_at := now\<rparr>) d"

definition cards_restore :: "string \<Rightarrow> i64 \<Rightarrow> db \<Rightarrow> db" where
  "cards_restore cid now d = update_cards cid (\<lambda>r. r\<lparr>deleted_at := None, updated_at := now\<rparr>) d"

text \<open>
  Updates of constrained columns fail when the row exists and its new values break a constraint.
\<close>

definition restore_snapshot :: "card \<Rightarrow> db \<Rightarrow> db result" where
  "restore_snapshot c0 d =
     (let c = bind_card c0
      in if card_id c \<in> card_id ` set (cards d)
            \<and> (\<not> parent_row_exists (cards d) c \<or> sort_key c = DNan
               \<or> (\<exists>r \<in> set (cards d). card_id r \<noteq> card_id c \<and> rel_path r = rel_path c
                    \<and> (\<exists>own \<in> set (cards d). card_id own = card_id c
                         \<and> project_id own = project_id r)))
         then Inl (SqliteError ''restore card snapshot failed'')
         else Inr (update_cards (card_id c0)
                (\<lambda>r. r\<lparr>title := title c, parent_card_id := parent_card_id c, sort_key := sort_key c,
                       updated_at := updated_at c, deleted_at := deleted_at c,
                       rel_path := rel_path c\<rparr>) d))"

definition cards_move :: "string \<Rightarrow> string option \<Rightarrow> double \<Rightarrow> i64 \<Rightarrow> db \<Rightarrow> db result" where
  "cards_move cid parent key now d =
     (if c_str cid \<in> card_id ` set (cards d)
         \<and> (key = DNan
            \<or> (case parent of None \<Rightarrow> False | Some p \<Rightarrow> c_str p \<notin> card_id ` set (cards d)))
      then Inl (SqliteError ''move card failed'')
      else Inr (update_cards cid
             (\<lambda>r. r\<lparr>parent_card_id := map_option c_str parent, sort_key := key, updated_at := now\<rparr>)
             d))"

text \<open>
  \<open>DELETE FROM cards\<close>: children keep their row with \<open>parent_card_id\<close> set to \<open>NULL\<close>, the card's tag
  and milestone rows go with it, AI threads about the card are detached from it.
\<close>

definition cards_remove :: "string \<Rightarrow> db \<Rightarrow> db" where
  "cards_remove cid d =
     (let k = c_str cid
      in d\<lparr>cards := update_where (\<lambda>r. parent_card_id r = Some k \<and> k \<in> card_id ` set (cards d))
                      (\<lambda>r. r\<lparr>parent_card_id := None\<rparr>)
                      (delete_where (\<lambda>r. card_id r = k) (cards d)),
           card_tags := delete_where (\<lambda>t. tag_card_id t = k \<and> k \<in> card_id ` set (cards d))
                      (card_tags d),
           milestones := delete_where (\<lambda>m. ms_card_id m = k \<and> k \<in> card_id ` set (cards d))
                      (milestones d),
           db_ai := (db_ai d)\<lparr>ai_threads := update_where (\<lambda>t. th_card_id t = Some k \<and> k \<in> card_id ` set (cards d))
                      (\<lambda>t. t\<lparr>th_card_id := None\<rparr>) (ai_threads (db_ai d))\<rparr>\<rparr>)"

section \<open>The schema's constraints as an invariant\<close>

text \<open>
  What the schema promises of the rows: primary keys, \<open>UNIQUE(project_id, rel_path)\<close>, the foreign
  keys of cards, tags and milestones, and that text read back from a column holds no NUL byte.
\<close>

definition row_ok :: "db \<Rightarrow> card \<Rightarrow> bool" where
  "row_ok d r \<longleftrightarrow>
     nul_free (card_id r) \<and> nul_free (project_id r) \<and> nul_free (title r) \<and> nul_free (rel_path r)
     \<and> (case parent_card_id r of None \<Rightarrow> True | Some p \<Rightarrow> nul_free p)
     \<and> sort_key r \<noteq> DNan \<and> project_id r \<in> proj_id ` set (projects d)
     \<and> parent_row_exists (cards d) r"

abbreviation path_key :: "card \<Rightarrow> string \<times> path" where
  "path_key r \<equiv> (project_id r, rel_path r)"

definition wf_cards :: "db \<Rightarrow> bool" where
  "wf_cards d \<longleftrightarrow> distinct (map card_id (cards d)) \<and> distinct (map path_key (cards d))
     \<and> list_all (row_ok d) (cards d)"

definition wf_indexes :: "db \<Rightarrow> bool" where
  "wf_indexes d \<longleftrightarrow>
     distinct (map tag_key (card_tags d)) \<and> distinct (map link_key (card_links d))
     \<and> distinct (map milestone_id (milestones d))
     \<and> list_all (\<lambda>t. tag_card_id t \<in> card_id ` set (cards d) \<and> nul_free (tag t)) (card_tags d)
     \<and> list_all (\<lambda>m. ms_card_id m \<in> card_id ` set (cards d)) (milestones d)"

definition wf_db :: "db \<Rightarrow> bool" where
  "wf_db d \<longleftrightarrow> wf_cards d \<and> wf_indexes d"

lemmas wf_db_defs = wf_db_def wf_cards_def wf_indexes_def

lemma cards_distinct: "wf_db d \<Longrightarrow> distinct (map card_id (cards d))"
  by (simp add: wf_db_defs)

lemma cards_row_ok: "wf_db d \<Longrightarrow> r \<in> set (cards d) \<Longrightarrow> row_ok d r"
  by (simp add: wf_db_defs list_all_iff)

lemma card_by_id_unique:
  "wf_db d \<Longrightarrow> r \<in> set (cards d) \<Longrightarrow> s \<in> set (cards d) \<Longrightarrow> card_id r = card_id s \<Longrightarrow> r = s"
  using cards_distinct by (auto simp: distinct_map inj_on_def)

lemma cards_get_iff:
  assumes "wf_db d"
  shows "cards_get cid d = Some r \<longleftrightarrow> r \<in> set (cards d) \<and> card_id r = c_str cid"
proof
  assume "r \<in> set (cards d) \<and> card_id r = c_str cid"
  moreover from this obtain s where "cards_get cid d = Some s"
    by (cases "cards_get cid d") (auto simp: cards_get_def find_None_iff)
  ultimately show "cards_get cid d = Some r"
    using card_by_id_unique [OF assms, of r s] by (auto simp: cards_get_def dest: find_SomeD)
qed (auto simp: cards_get_def dest: find_SomeD)

lemma cards_get_None_iff: "cards_get cid d = None \<longleftrightarrow> c_str cid \<notin> card_id ` set (cards d)"
  by (auto simp: cards_get_def find_None_iff image_iff)

lemma parent_row_exists_cong:
  "card_id ` set rows = card_id ` set rows' \<Longrightarrow> parent_card_id r = parent_card_id r'
    \<Longrightarrow> parent_row_exists rows r = parent_row_exists rows' r'"
  by (auto simp: parent_row_exists_def split: option.split)

lemma cards_update_cards [simp]:
  "cards (update_cards cid f d) = update_where (\<lambda>r. card_id r = c_str cid) f (cards d)"
  "projects (update_cards cid f d) = projects d"
  "card_tags (update_cards cid f d) = card_tags d"
  "card_links (update_cards cid f d) = card_links d"
  "milestones (update_cards cid f d) = milestones d"
  "cards_fts (update_cards cid f d) = cards_fts d"
  by (simp_all add: update_cards_def)

lemma distinct_update_where:
  assumes "distinct (map g rows)" and "distinct (map k rows)"
    and "\<And>r s. r \<in> set rows \<Longrightarrow> s \<in> set rows \<Longrightarrow> k r = a \<Longrightarrow> k s \<noteq> a \<Longrightarrow> g (f r) \<noteq> g s"
  shows "distinct (map g (update_where (\<lambda>r. k r = a) f rows))"
  using assms
proof (induction rows)
  case (Cons r rows)
  have IH: "distinct (map g (update_where (\<lambda>r. k r = a) f rows))"
    by (rule Cons.IH) (use Cons.prems in auto)
  show ?case
  proof (cases "k r = a")
    case True
    then have others: "\<And>s. s \<in> set rows \<Longrightarrow> k s \<noteq> a" using Cons.prems(2) by (auto simp: image_iff)
    then have "update_where (\<lambda>r. k r = a) f rows = rows"
      unfolding update_where_def by (intro map_idI) auto
    with True Cons.prems(1) Cons.prems(3) [of r] others show ?thesis
      by (auto simp: update_where_def)
  next
    case False
    with IH Cons.prems(1) Cons.prems(3) [of _ r] show ?thesis
      by (fastforce simp: update_where_def)
  qed
qed (simp add: update_where_def)

lemma wf_update_cards:
  assumes wf: "wf_db d" and keeps: "\<And>r. card_id (f r) = card_id r"
    and ok: "\<And>r. r \<in> set (cards d) \<Longrightarrow> card_id r = c_str cid \<Longrightarrow> row_ok d (f r)"
    and paths: "\<And>r s. r \<in> set (cards d) \<Longrightarrow> s \<in> set (cards d) \<Longrightarrow> card_id r = c_str cid
      \<Longrightarrow> card_id s \<noteq> c_str cid \<Longrightarrow> path_key (f r) \<noteq> path_key s"
  shows "wf_db (update_cards cid f d)"
proof -
  let ?rows = "update_where (\<lambda>r. card_id r = c_str cid) f (cards d)"
  have ids: "map card_id ?rows = map card_id (cards d)" using keeps by simp
  then have idset: "card_id ` set ?rows = card_id ` set (cards d)" by (metis set_map)
  have "distinct (map path_key ?rows)"
    by (rule distinct_update_where) (use wf paths in \<open>auto simp: wf_db_defs\<close>)
  moreover have "row_ok (update_cards cid f d) r" if r: "r \<in> set ?rows" for r
  proof -
    have "row_ok d r" using r ok cards_row_ok [OF wf] by (auto simp: update_where_def split: if_splits)
    then show ?thesis
      using parent_row_exists_cong [OF idset refl] by (simp add: row_ok_def)
  qed
  ultimately show ?thesis
    using wf ids idset by (simp add: wf_db_defs list_all_iff)
qed

lemma row_okD:
  assumes "row_ok d r"
  shows "nul_free (card_id r)" "nul_free (project_id r)" "nul_free (title r)" "nul_free (rel_path r)"
    "sort_key r \<noteq> DNan" "project_id r \<in> proj_id ` set (projects d)"
    "parent_row_exists (cards d) r" "parent_card_id r = Some p \<Longrightarrow> nul_free p"
    "map_option c_str (parent_card_id r) = parent_card_id r"
  using assms by (auto simp: row_ok_def split: option.splits)

lemma bind_card_id [simp]: "row_ok d r \<Longrightarrow> bind_card r = r"
  using row_okD [of d r] by (simp add: bind_card_def)

lemma bind_card_sel [simp]:
  "card_id (bind_card c) = c_str (card_id c)" "project_id (bind_card c) = c_str (project_id c)"
  "title (bind_card c) = c_str (title c)" "rel_path (bind_card c) = c_str (rel_path c)"
  "parent_card_id (bind_card c) = map_option c_str (parent_card_id c)"
  "sort_key (bind_card c) = sort_key c" "updated_at (bind_card c) = updated_at c"
  "created_at (bind_card c) = created_at c" "deleted_at (bind_card c) = deleted_at c"
  by (simp_all add: bind_card_def)

lemma wf_update_keeping:
  assumes "wf_db d" and "\<And>r. card_id (f r) = card_id r" and "\<And>r. project_id (f r) = project_id r"
    and "\<And>r. rel_path (f r) = rel_path r" and "\<And>r. parent_card_id (f r) = parent_card_id r"
    and "\<And>r. sort_key (f r) = sort_key r" and "\<And>r. nul_free (title r) \<Longrightarrow> nul_free (title (f r))"
  shows "wf_db (update_cards cid f d)"
proof (rule wf_update_cards)
  fix r assume "r \<in> set (cards d)"
  from cards_row_ok [OF assms(1) this] show "row_ok d (f r)"
    using assms(2-) parent_row_exists_cong [OF refl, of "f r" r "cards d"] by (simp add: row_ok_def)
next
  fix r s assume "r \<in> set (cards d)" "s \<in> set (cards d)" "card_id r = c_str cid" "card_id s \<noteq> c_str cid"
  then have "path_key r \<noteq> path_key s"
    using assms(1) by (auto simp: wf_db_defs distinct_map inj_on_def)
  then show "path_key (f r) \<noteq> path_key s" using assms(3,4) by simp
qed (use assms in auto)

lemma wf_update_title: "wf_db d \<Longrightarrow> wf_db (update_title cid t now d)"
  unfolding update_title_def by (rule wf_update_keeping) auto

lemma wf_touch_updated: "wf_db d \<Longrightarrow> wf_db (touch_updated cid now d)"
  unfolding touch_updated_def by (rule wf_update_keeping) auto

lemma wf_soft_delete: "wf_db d \<Longrightarrow> wf_db (soft_delete cid del now d)"
  unfolding soft_delete_def by (rule wf_update_keeping) auto

lemma wf_cards_restore: "wf_db d \<Longrightarrow> wf_db (cards_restore cid now d)"
  unfolding cards_restore_def by (rule wf_update_keeping) auto

lemma wf_cards_move:
  assumes wf: "wf_db d" and "cards_move cid parent key now d = Inr d'"
  shows "wf_db d'"
proof -
  let ?f = "\<lambda>r. r\<lparr>parent_card_id := map_option c_str parent, sort_key := key, updated_at := now\<rparr>"
  have d': "d' = update_cards cid ?f d"
    and g: "c_str cid \<in> card_id ` set (cards d) \<Longrightarrow> key \<noteq> DNan \<and>
      (case parent of None \<Rightarrow> True | Some p \<Rightarrow> c_str p \<in> card_id ` set (cards d))"
    using assms(2) by (auto simp: cards_move_def split: if_splits option.splits)
  show ?thesis unfolding d'
  proof (rule wf_update_cards [OF wf])
    fix r assume r: "r \<in> set (cards d)" "card_id r = c_str cid"
    then have "c_str cid \<in> card_id ` set (cards d)" by (metis imageI)
    from g [OF this] row_okD [OF cards_row_ok [OF wf r(1)]] show "row_ok d (?f r)"
      by (auto simp: row_ok_def parent_row_exists_def split: option.splits)
  next
    fix r s assume "r \<in> set (cards d)" "s \<in> set (cards d)" "card_id r = c_str cid" "card_id s \<noteq> c_str cid"
    then show "path_key (?f r) \<noteq> path_key s"
      using wf by (auto simp: wf_db_defs distinct_map inj_on_def)
  qed simp
qed

lemma wf_restore_snapshot:
  assumes wf: "wf_db d" and "restore_snapshot c d = Inr d'"
  shows "wf_db d'"
proof -
  let ?c = "bind_card c"
  let ?f = "\<lambda>r. r\<lparr>title := title ?c, parent_card_id := parent_card_id ?c, sort_key := sort_key ?c,
      updated_at := updated_at ?c, deleted_at := deleted_at ?c, rel_path := rel_path ?c\<rparr>"
  have d': "d' = update_cards (card_id c) ?f d"
    using assms(2) by (auto simp: restore_snapshot_def Let_def split: if_splits)
  have g: "parent_row_exists (cards d) ?c \<and> sort_key c \<noteq> DNan
      \<and> (\<forall>r \<in> set (cards d). \<forall>own \<in> set (cards d). card_id r \<noteq> c_str (card_id c) \<longrightarrow>
           card_id own = c_str (card_id c) \<longrightarrow> rel_path r = c_str (rel_path c) \<longrightarrow> project_id own \<noteq> project_id r)"
    if "c_str (card_id c) \<in> card_id ` set (cards d)"
    using assms(2) that by (auto simp: restore_snapshot_def Let_def split: if_splits)
  show ?thesis unfolding d'
  proof (rule wf_update_cards [OF wf])
    fix r assume r: "r \<in> set (cards d)" "card_id r = c_str (card_id c)"
    then have "c_str (card_id c) \<in> card_id ` set (cards d)" by (metis imageI)
    from g [OF this] row_okD [OF cards_row_ok [OF wf r(1)]] show "row_ok d (?f r)"
      by (auto simp: row_ok_def parent_row_exists_def split: option.splits)
  next
    fix r s
    assume r: "r \<in> set (cards d)" "s \<in> set (cards d)" "card_id r = c_str (card_id c)"
      "card_id s \<noteq> c_str (card_id c)"
    then have "c_str (card_id c) \<in> card_id ` set (cards d)" by (metis imageI)
    from g [OF this] r show "path_key (?f r) \<noteq> path_key s" by auto
  qed simp
qed

lemma wf_cards_create:
  assumes wf: "wf_db d" and "cards_create c d = Inr d'"
  shows "wf_db d'"
proof -
  let ?c = "bind_card c"
  have d': "d' = d\<lparr>cards := cards d @ [?c]\<rparr>"
    and g: "card_id ?c \<notin> card_id ` set (cards d)" "path_key ?c \<notin> path_key ` set (cards d)"
      "project_id ?c \<in> proj_id ` set (projects d)" "parent_row_exists (?c # cards d) ?c" "sort_key ?c \<noteq> DNan"
    using assms(2) by (auto simp: cards_create_def Let_def simp del: bind_card_sel split: if_splits)
  have "row_ok d' ?c"
    using g by (auto simp: d' row_ok_def parent_row_exists_def split: option.splits)
  moreover have "row_ok d' r" if "r \<in> set (cards d)" for r
    using row_okD [OF cards_row_ok [OF wf that]]
    by (auto simp: d' row_ok_def parent_row_exists_def split: option.splits)
  ultimately show ?thesis
    using wf g(1,2) by (auto simp: wf_db_defs d' list_all_iff simp del: bind_card_sel)
qed

lemma wf_cards_remove:
  assumes wf: "wf_db d"
  shows "wf_db (cards_remove cid d)"
proof -
  let ?k = "c_str cid" and ?d = "cards_remove cid d"
  let ?del = "delete_where (\<lambda>r. card_id r = ?k) (cards d)"
  let ?f = "\<lambda>r. r\<lparr>parent_card_id := None\<rparr>"
  have rows: "cards ?d = update_where (\<lambda>r. parent_card_id r = Some ?k \<and> ?k \<in> card_id ` set (cards d)) ?f ?del"
    and pr [simp]: "projects ?d = projects d" "card_links ?d = card_links d"
    by (simp_all add: cards_remove_def Let_def)
  have ids: "map card_id (cards ?d) = map card_id ?del"
    and paths: "map path_key (cards ?d) = map path_key ?del"
    unfolding rows by (rule update_where_key, simp)+
  from arg_cong [OF ids, of set] have idset: "card_id ` set (cards ?d) = card_id ` set (cards d) - {?k}"
    by (simp only: set_map image_set_delete_where)
  have "row_ok ?d r" if r: "r \<in> set (cards ?d)" for r
  proof -
    obtain s where s: "s \<in> set (cards d)" "r = (if parent_card_id s = Some ?k \<and> ?k \<in> card_id ` set (cards d) then ?f s else s)"
      using r unfolding rows by (auto simp: update_where_def)
    with row_okD [OF cards_row_ok [OF wf s(1)]] idset show ?thesis
      by (auto simp: row_ok_def parent_row_exists_def split: option.splits if_splits) (metis imageI)
  qed
  then have "wf_cards ?d" using wf by (simp add: wf_db_defs ids paths list_all_iff)
  moreover have "wf_indexes ?d"
    using wf unfolding wf_db_defs idset
    by (auto simp: cards_remove_def Let_def list_all_iff) metis+
  ultimately show ?thesis by (simp add: wf_db_def)
qed

section \<open>Keyset pagination\<close>

definition cursor_of :: "card \<Rightarrow> page_cursor" where
  "cursor_of c = \<lparr>cursor_card_id = card_id c, cursor_updated_at = Some (updated_at c)\<rparr>"

lemma cursor_of_sel [simp]:
  "cursor_card_id (cursor_of c) = card_id c" "cursor_updated_at (cursor_of c) = Some (updated_at c)"
  by (simp_all add: cursor_of_def)

definition cursor_anchor :: "page_cursor \<Rightarrow> card" where
  "cursor_anchor k = empty_card\<lparr>card_id := c_str (cursor_card_id k),
     updated_at := (case cursor_updated_at k of None \<Rightarrow> 0 | Some u \<Rightarrow> u)\<rparr>"

definition behind :: "page_order \<Rightarrow> page_cursor \<Rightarrow> card \<Rightarrow> bool" where
  "behind ord k c = after_cursor (default_query\<lparr>q_order := ord, q_cursor := Some k\<rparr>) c"

lemma after_cursor_behind:
  "after_cursor q c = (case q_cursor q of None \<Rightarrow> True | Some k \<Rightarrow> behind (q_order q) k c)"
  by (auto simp: after_cursor_def behind_def split: option.splits)

interpretation id_pages: keyset_page "page_less CardIdAsc" card_id "\<lambda>c. nul_free (card_id c)"
  "behind CardIdAsc" cursor_anchor "\<lambda>_. True" cursor_of
  by unfold_locales
    (auto simp: page_less_def behind_def after_cursor_def cursor_anchor_def default_query_def)

interpretation recent_pages: keyset_page "page_less UpdatedDesc" card_id "\<lambda>c. nul_free (card_id c)"
  "behind UpdatedDesc" cursor_anchor "\<lambda>k. cursor_updated_at k \<noteq> None" cursor_of
  by unfold_locales
    (auto simp: page_less_def behind_def after_cursor_def cursor_anchor_def default_query_def)

definition cursor_valid :: "page_query \<Rightarrow> bool" where
  "cursor_valid q = (case q_cursor q of None \<Rightarrow> True
     | Some k \<Rightarrow> q_order q = UpdatedDesc \<longrightarrow> cursor_updated_at k \<noteq> None)"

text \<open>The rows of a query, before \<open>LIMIT\<close>.\<close>

definition page_rows :: "string \<Rightarrow> page_query \<Rightarrow> db \<Rightarrow> card list" where
  "page_rows pid q d = sort_by (page_less (q_order q))
     (filter (\<lambda>c. page_where q c \<and> after_cursor q c) (page_from pid q d))"

lemma tag_join_distinct:
  assumes "distinct (map card_id rows)" and "distinct (map f ks)"
  shows "distinct (map card_id (concat (map (\<lambda>k. filter (\<lambda>c. card_id c = f k \<and> p c) rows) ks)))"
  using assms
proof (induction ks)
  case (Cons k ks)
  have "card_id c \<noteq> f k" if "c \<in> set (concat (map (\<lambda>k. filter (\<lambda>c. card_id c = f k \<and> p c) rows) ks))" for c
    using that Cons.prems(2) by (auto simp: image_iff)
  then have "card_id ` set (filter (\<lambda>c. card_id c = f k \<and> p c) rows)
      \<inter> card_id ` set (concat (map (\<lambda>k. filter (\<lambda>c. card_id c = f k \<and> p c) rows) ks)) = {}"
    by fastforce
  with Cons show ?case by (auto simp: distinct_map_filter)
qed simp

lemma page_from_distinct:
  assumes wf: "wf_db d"
  shows "distinct (map card_id (page_from pid q d))"
proof (cases "q_tag q")
  case (Some t)
  let ?ks = "filter (\<lambda>row. tag_project_id row = c_str pid \<and> tag row = c_str (normalize_tag t)) (card_tags d)"
  have "distinct (map tag_card_id ?ks)"
    using wf by (auto simp: wf_db_defs distinct_map inj_on_def)
  with tag_join_distinct [OF cards_distinct [OF wf] this] Some show ?thesis by (simp add: page_from_def)
qed (use cards_distinct [OF wf] in \<open>simp add: page_from_def distinct_map_filter\<close>)

lemma page_from_ok:
  assumes wf: "wf_db d"
  shows "set (page_from pid q d) \<subseteq> set (cards d)"
    and "list_all (\<lambda>c. nul_free (card_id c)) (page_from pid q d)"
proof -
  show "set (page_from pid q d) \<subseteq> set (cards d)"
    by (auto simp: page_from_def split: option.splits)
  then show "list_all (\<lambda>c. nul_free (card_id c)) (page_from pid q d)"
    using cards_row_ok [OF wf] row_okD(1) by (fastforce simp: list_all_iff)
qed

lemma page_rows_continue:
  assumes wf: "wf_db d" and q: "cursor_valid q"
    and ps: "ps = take n (page_rows pid q d)" "ps \<noteq> []"
  shows "page_rows pid (q\<lparr>q_cursor := Some (cursor_of (last ps))\<rparr>) d = drop n (page_rows pid q d)"
proof -
  note pf = page_from_ok(2) [OF wf, of pid q] page_from_distinct [OF wf, of pid q]
  have S: "page_rows pid q d = sort_by (page_less (q_order q)) (filter (\<lambda>c. page_where q c
      \<and> (case q_cursor q of None \<Rightarrow> True | Some k \<Rightarrow> behind (q_order q) k c)) (page_from pid q d))"
    by (simp add: page_rows_def after_cursor_behind)
  have "sort_by (page_less (q_order q)) (filter (\<lambda>c. page_where q c \<and> behind (q_order q) (cursor_of (last ps)) c)
      (page_from pid q d)) = drop n (page_rows pid q d)"
  proof (cases "q_order q")
    case CardIdAsc
    show ?thesis unfolding CardIdAsc
      by (rule id_pages.continue_page [OF pf _ S [unfolded CardIdAsc] ps]) (simp split: option.split)
  next
    case UpdatedDesc
    show ?thesis unfolding UpdatedDesc
      by (rule recent_pages.continue_page [OF pf _ S [unfolded UpdatedDesc] ps])
        (use q UpdatedDesc in \<open>simp add: cursor_valid_def split: option.splits\<close>)
  qed
  moreover have "page_where (q\<lparr>q_cursor := k\<rparr>) = page_where q" "page_from pid (q\<lparr>q_cursor := k\<rparr>) d = page_from pid q d" for k
    by (simp_all add: page_where_def page_from_def fun_eq_iff)
  ultimately show ?thesis by (simp add: page_rows_def after_cursor_behind)
qed

lemma list_collection_page_Inr:
  "list_collection_page pid q limit d = Inr ps \<longleftrightarrow>
     0 < limit \<and> q_parent q \<noteq> PageChildrenOf [] \<and> cursor_valid q
     \<and> (case q_cursor q of None \<Rightarrow> True | Some k \<Rightarrow> cursor_card_id k \<noteq> [])
     \<and> (case q_tag q of None \<Rightarrow> True | Some t \<Rightarrow> is_valid_tag t)
     \<and> ps = take (nat limit) (page_rows pid q d)"
  by (auto simp: list_collection_page_def page_rows_def cursor_valid_def split: option.splits)

text \<open>
  C2: two consecutive pages are one longer page. The cursor read off the last card of a page
  continues the listing exactly there, in either order and under any tag and parent filter: no
  card is skipped and none is repeated.
\<close>

theorem pages_concatenate:
  assumes wf: "wf_db d" and page: "list_collection_page pid q limit d = Inr ps"
    and last: "ps \<noteq> []" "card_id (last ps) \<noteq> []" and m: "0 < m"
  shows "\<exists>qs. list_collection_page pid (q\<lparr>q_cursor := Some (cursor_of (last ps))\<rparr>) m d = Inr qs
    \<and> list_collection_page pid q (limit + m) d = Inr (ps @ qs)
    \<and> distinct (map card_id (ps @ qs))"
proof -
  note p = page [unfolded list_collection_page_Inr]
  let ?q = "q\<lparr>q_cursor := Some (cursor_of (last ps))\<rparr>" and ?S = "page_rows pid q d"
  have ps: "ps = take (nat limit) ?S" and q: "cursor_valid q" using p by auto
  have next_rows: "page_rows pid ?q d = drop (nat limit) ?S"
    by (rule page_rows_continue [OF wf q ps last(1)])
  have "cursor_valid ?q" by (simp add: cursor_valid_def)
  then have "list_collection_page pid ?q m d = Inr (take (nat m) (drop (nat limit) ?S))"
    unfolding list_collection_page_Inr next_rows using p last(2) m by simp
  moreover have "list_collection_page pid q (limit + m) d = Inr (ps @ take (nat m) (drop (nat limit) ?S))"
    using p m by (auto simp: list_collection_page_Inr ps take_add nat_add_distrib)
  moreover have "distinct (map card_id ?S)"
    using page_from_distinct [OF wf] by (simp add: page_rows_def distinct_map_filter)
  then have "distinct (map card_id (take (nat limit + nat m) ?S))"
    by (simp add: take_map [symmetric])
  then have "distinct (map card_id (ps @ take (nat m) (drop (nat limit) ?S)))"
    using ps by (simp add: take_add)
  ultimately show ?thesis by blast
qed

definition demo_project :: project where
  "demo_project = \<lparr>proj_id = ''p'', proj_name = ''P'', root_path = ''/p'', git_remote_url = None,
     git_provider = None, privacy_mode = ''plain'', project_key_id = None, id_scheme = Uuid4,
     proj_created_at = 1, proj_updated_at = 1\<rparr>"

definition demo_card :: "string \<Rightarrow> rat \<Rightarrow> card" where
  "demo_card cid key = \<lparr>card_id = cid, project_id = ''p'', title = cid, rel_path = cid, parent_card_id = None,
     sort_key = DFin key, created_at = 1, updated_at = 1, deleted_at = None\<rparr>"

definition demo_db :: db where
  "demo_db = \<lparr>projects = [demo_project], cards = [demo_card ''bb02'' 1, demo_card ''aa01'' 0],
     card_links = [], card_tags = [], milestones = [], cards_fts = [], sync_states = [], db_ai = no_ai, db_res = no_resources\<rparr>"

lemma wf_demo_db [simp]: "wf_db demo_db"
  by (simp add: wf_db_defs demo_db_def demo_card_def demo_project_def row_ok_def nul_free_def
      parent_row_exists_def)

theorem pages_concatenate_witness:
  "list_collection_page ''p'' default_query 1 demo_db = Inr [demo_card ''aa01'' 0]
   \<and> (\<exists>qs. list_collection_page ''p'' (default_query\<lparr>q_cursor := Some (cursor_of (demo_card ''aa01'' 0))\<rparr>) 1 demo_db = Inr qs
        \<and> list_collection_page ''p'' default_query (1 + 1) demo_db = Inr (demo_card ''aa01'' 0 # qs))"
proof -
  have one: "list_collection_page ''p'' default_query 1 demo_db = Inr [demo_card ''aa01'' 0]"
    by code_simp
  show ?thesis using one pages_concatenate [OF wf_demo_db one, of 1] by (auto simp: demo_card_def)
qed

section \<open>The key after the last sibling\<close>

lemma foldl_dmax:
  assumes "\<forall>x \<in> set (k # ks). x \<noteq> DNan"
  shows "foldl dmax k ks \<in> set (k # ks) \<and> (\<forall>x \<in> set (k # ks). dle x (foldl dmax k ks))"
  using assms
proof (induction ks arbitrary: k)
  case (Cons y ys)
  have m: "dmax k y \<in> {k, y}" "dle k (dmax k y)" "dle y (dmax k y)"
    using Cons.prems dlt_total [of k y] by (auto simp: dmax_def dle_def deq_def)
  then have "\<forall>x \<in> set (dmax k y # ys). x \<noteq> DNan" using Cons.prems by auto
  from Cons.IH [OF this] m show ?case
    by (auto simp: dle_def deq_def intro: dlt_trans)
qed (auto simp: dle_def deq_def)

text \<open>
  The key given to a card appended to a parent is larger than the key of every live child the
  parent already has, as long as the children's keys are finite and below \<open>2 ^ 51\<close> in magnitude.
\<close>

theorem next_sort_key_is_last:
  assumes wf: "wf_db d"
    and r: "r \<in> set (cards d)" "project_id r = c_str pid" "parent_card_id r = map_option c_str parent" "is_live r"
    and small: "\<forall>s \<in> set (cards d). \<exists>k. sort_key s = DFin k \<and> \<bar>k\<bar> < 2 ^ 51"
  shows "dlt (sort_key r) (next_sort_key pid parent d)"
proof -
  let ?sib = "filter (\<lambda>r. project_id r = c_str pid \<and> parent_card_id r = map_option c_str parent
      \<and> deleted_at r = None) (cards d)"
  obtain k ks where ks: "map sort_key ?sib = k # ks"
    using r by (cases "map sort_key ?sib") (auto simp: filter_empty_conv)
  let ?m = "foldl dmax k ks"
  have sub: "set (k # ks) \<subseteq> sort_key ` set (cards d)"
    unfolding ks [symmetric] by auto
  then have "\<forall>x \<in> set (k # ks). x \<noteq> DNan" using small by fastforce
  note m = foldl_dmax [OF this]
  from m sub obtain s where "s \<in> set (cards d)" "?m = sort_key s" by blast
  with small obtain a where a: "?m = DFin a" "\<bar>a\<bar> < 2 ^ 51" by auto
  have "sort_key r \<in> set (k # ks)" unfolding ks [symmetric] using r by auto
  with m have le: "dle (sort_key r) (DFin a)" using a by auto
  have "\<bar>a + 1\<bar> < 2 ^ 52" using a(2) by (simp add: abs_less_iff)
  from rnd_near [OF this] obtain b where b: "rnd (a + 1) = DFin b" "\<bar>b - (a + 1)\<bar> \<le> 1 / 4" by blast
  from b(2) have "a < b" by linarith
  then have "dlt (DFin a) (DFin b)" by simp
  moreover have "next_sort_key pid parent d = DFin b"
    using ks a(1) b(1) by (simp add: next_sort_key_def)
  ultimately show ?thesis using le by (auto simp: dle_def deq_def intro: dlt_trans)
qed

theorem next_sort_key_is_last_witness:
  "dlt (sort_key (demo_card ''bb02'' 1)) (next_sort_key ''p'' None demo_db)"
  by (rule next_sort_key_is_last [OF wf_demo_db]) (simp_all add: demo_db_def demo_card_def nul_free_def)

end
