(* ===== verification/Card_Index.thy ===== *)
theory Card_Index
  imports Card_Repo
begin

text \<open>
  The tables derived from card files: links (\<open>src/src/card/LinkRepo.cpp\<close>), milestones
  (\<open>MilestoneRepo.cpp\<close>), tags (\<open>TagRepo.cpp\<close>) and the full-text rows of cards
  (\<open>src/src/index/FtsIndexer.cpp\<close>). A statement that breaks a constraint throws; the rows written
  before it are undone by the transaction the caller holds, so an error carries no state. Rows that
  tie in an \<open>ORDER BY\<close> keep the order of the table.
\<close>

section \<open>Links\<close>

definition bind_link :: "card_link \<Rightarrow> card_link" where
  "bind_link l = \<lparr>link_project_id = c_str (link_project_id l), from_card_id = c_str (from_card_id l),
     to_card_id = c_str (to_card_id l),
     to_type = c_str (if to_type l = [] then ''card'' else to_type l),
     link_kind = c_str (link_kind l), link_label = map_option c_str (link_label l),
     link_created_at = link_created_at l\<rparr>"

definition upsert_link :: "string \<Rightarrow> string \<Rightarrow> card_link \<Rightarrow> db \<Rightarrow> db result" where
  "upsert_link pid from l0 d =
     (if link_project_id l0 \<noteq> pid \<or> from_card_id l0 \<noteq> from
      then Inl (RuntimeError ''link project_id/from_card_id mismatch'')
      else let l = bind_link l0
           in if link_key l \<in> link_key ` set (card_links d)
              then Inr (d\<lparr>card_links := update_where (\<lambda>r. link_key r = link_key l)
                         (\<lambda>r. r\<lparr>link_label := link_label l, link_created_at := link_created_at l\<rparr>)
                         (card_links d)\<rparr>)
              else if link_project_id l \<notin> proj_id ` set (projects d)
              then Inl (SqliteError ''upsert link failed'')
              else Inr (d\<lparr>card_links := card_links d @ [l]\<rparr>))"

definition upsert_links :: "string \<Rightarrow> string \<Rightarrow> card_link list \<Rightarrow> db \<Rightarrow> db result" where
  "upsert_links pid from links d = rfold (upsert_link pid from) links d"

definition newest_link :: "card_link \<Rightarrow> card_link \<Rightarrow> bool" where
  "newest_link a b \<longleftrightarrow> link_created_at b < link_created_at a"

definition list_outgoing :: "string \<Rightarrow> string \<Rightarrow> db \<Rightarrow> card_link list" where
  "list_outgoing pid from d =
     sort_by newest_link
       (filter (\<lambda>l. link_project_id l = c_str pid \<and> from_card_id l = c_str from) (card_links d))"

definition list_backlinks :: "string \<Rightarrow> string \<Rightarrow> db \<Rightarrow> card_link list" where
  "list_backlinks pid cid d =
     sort_by newest_link
       (filter (\<lambda>l. link_project_id l = c_str pid \<and> to_card_id l = c_str cid) (card_links d))"

definition list_backlinks_typed :: "string \<Rightarrow> string \<Rightarrow> string \<Rightarrow> db \<Rightarrow> card_link list" where
  "list_backlinks_typed pid cid ty d =
     sort_by newest_link
       (filter (\<lambda>l. link_project_id l = c_str pid \<and> to_card_id l = c_str cid
          \<and> to_type l = c_str ty) (card_links d))"

definition list_incoming_typed :: "string \<Rightarrow> string \<Rightarrow> db \<Rightarrow> card_link list" where
  "list_incoming_typed pid ty d =
     sort_by (\<lambda>a b. to_card_id a < to_card_id b \<or> to_card_id a = to_card_id b \<and> newest_link a b)
       (filter (\<lambda>l. link_project_id l = c_str pid \<and> to_type l = c_str ty) (card_links d))"

definition delete_link ::
  "string \<Rightarrow> string \<Rightarrow> string \<Rightarrow> string option \<Rightarrow> string option \<Rightarrow> db \<Rightarrow> db"
where
  "delete_link pid from cid ty kind d =
     d\<lparr>card_links := delete_where (\<lambda>l. link_project_id l = c_str pid \<and> from_card_id l = c_str from
          \<and> to_card_id l = c_str cid
          \<and> (case ty of None \<Rightarrow> True | Some t \<Rightarrow> to_type l = c_str t)
          \<and> (case kind of None \<Rightarrow> True | Some k \<Rightarrow> link_kind l = c_str k)) (card_links d)\<rparr>"

definition delete_links_to_typed :: "string \<Rightarrow> string \<Rightarrow> string \<Rightarrow> db \<Rightarrow> db" where
  "delete_links_to_typed pid cid ty d =
     d\<lparr>card_links := delete_where (\<lambda>l. link_project_id l = c_str pid \<and> to_card_id l = c_str cid
          \<and> to_type l = c_str ty) (card_links d)\<rparr>"

definition delete_links_from :: "string \<Rightarrow> string \<Rightarrow> db \<Rightarrow> db" where
  "delete_links_from pid from d =
     d\<lparr>card_links := delete_where (\<lambda>l. link_project_id l = c_str pid \<and> from_card_id l = c_str from)
          (card_links d)\<rparr>"

section \<open>Milestones\<close>

definition delete_milestones :: "string \<Rightarrow> string \<Rightarrow> db \<Rightarrow> db" where
  "delete_milestones pid cid d =
     d\<lparr>milestones := delete_where (\<lambda>m. ms_project_id m = c_str pid \<and> ms_card_id m = c_str cid)
          (milestones d)\<rparr>"

definition bind_milestone :: "milestone \<Rightarrow> milestone" where
  "bind_milestone m = m\<lparr>milestone_id := c_str (milestone_id m),
     ms_project_id := c_str (ms_project_id m), ms_card_id := c_str (ms_card_id m),
     ms_kind := map_option c_str (ms_kind m), ms_description := map_option c_str (ms_description m)\<rparr>"

definition insert_milestone :: "string \<Rightarrow> string \<Rightarrow> milestone \<Rightarrow> db \<Rightarrow> db result" where
  "insert_milestone pid cid m0 d =
     (if ms_project_id m0 \<noteq> pid \<or> ms_card_id m0 \<noteq> cid
      then Inl (RuntimeError ''milestone project_id/card_id mismatch'')
      else let m = bind_milestone m0
           in if milestone_id m \<in> milestone_id ` set (milestones d)
                 \<or> ms_project_id m \<notin> proj_id ` set (projects d)
                 \<or> ms_card_id m \<notin> card_id ` set (cards d)
              then Inl (SqliteError ''insert milestone failed'')
              else Inr (d\<lparr>milestones := milestones d @ [m]\<rparr>))"

definition replace_milestones :: "string \<Rightarrow> string \<Rightarrow> milestone list \<Rightarrow> db \<Rightarrow> db result" where
  "replace_milestones pid cid ms d = rfold (insert_milestone pid cid) ms (delete_milestones pid cid d)"

definition earlier_milestone :: "milestone \<Rightarrow> milestone \<Rightarrow> bool" where
  "earlier_milestone a b \<longleftrightarrow> start_at a < start_at b"

definition list_milestones :: "string \<Rightarrow> string \<Rightarrow> db \<Rightarrow> milestone list" where
  "list_milestones pid cid d =
     sort_by earlier_milestone
       (filter (\<lambda>m. ms_project_id m = c_str pid \<and> ms_card_id m = c_str cid) (milestones d))"

text \<open>\<open>JOIN cards c ... WHERE c.deleted_at IS NULL\<close>: the card's row exists and is live.\<close>

definition live_row :: "db \<Rightarrow> string \<Rightarrow> bool" where
  "live_row d cid = list_ex (\<lambda>c. card_id c = cid \<and> deleted_at c = None) (cards d)"

definition list_in_range :: "string \<Rightarrow> i64 \<Rightarrow> i64 \<Rightarrow> db \<Rightarrow> milestone list" where
  "list_in_range pid lo hi d =
     sort_by earlier_milestone
       (filter (\<lambda>m. ms_project_id m = c_str pid \<and> live_row d (ms_card_id m)
          \<and> lo \<le> start_at m \<and> start_at m \<le> hi) (milestones d))"

section \<open>Tags\<close>

definition delete_tags_for_card :: "string \<Rightarrow> string \<Rightarrow> db \<Rightarrow> db" where
  "delete_tags_for_card pid cid d =
     d\<lparr>card_tags := delete_where (\<lambda>t. tag_project_id t = c_str pid \<and> tag_card_id t = c_str cid)
          (card_tags d)\<rparr>"

definition insert_tag :: "string \<Rightarrow> string \<Rightarrow> i64 \<Rightarrow> string \<Rightarrow> db \<Rightarrow> db result" where
  "insert_tag pid cid now t d =
     (let row = \<lparr>tag_project_id = c_str pid, tag_card_id = c_str cid, tag = c_str t,
                 tag_created_at = now\<rparr>
      in if tag_key row \<in> tag_key ` set (card_tags d)
            \<or> tag_project_id row \<notin> proj_id ` set (projects d)
            \<or> tag_card_id row \<notin> card_id ` set (cards d)
         then Inl (SqliteError ''insert tag failed'')
         else Inr (d\<lparr>card_tags := card_tags d @ [row]\<rparr>))"

definition set_tags_for_card :: "string \<Rightarrow> string \<Rightarrow> string list \<Rightarrow> i64 \<Rightarrow> db \<Rightarrow> db result" where
  "set_tags_for_card pid cid ts now d =
     rfold (insert_tag pid cid now) ts (delete_tags_for_card pid cid d)"

definition list_tags_for_card :: "string \<Rightarrow> string \<Rightarrow> db \<Rightarrow> string list" where
  "list_tags_for_card pid cid d =
     sort_by (<) (map tag (filter (\<lambda>t. tag_project_id t = c_str pid \<and> tag_card_id t = c_str cid)
       (card_tags d)))"

definition list_card_ids_with_tag :: "string \<Rightarrow> string \<Rightarrow> db \<Rightarrow> string list" where
  "list_card_ids_with_tag pid t d =
     map tag_card_id
       (sort_by (\<lambda>a b. tag_created_at b < tag_created_at a)
         (filter (\<lambda>r. tag_project_id r = c_str pid \<and> tag r = c_str t \<and> live_row d (tag_card_id r))
           (card_tags d)))"

definition list_project_tags :: "string \<Rightarrow> db \<Rightarrow> (string \<times> nat) list" where
  "list_project_tags pid d =
     (let ts = map tag (filter (\<lambda>r. tag_project_id r = c_str pid \<and> live_row d (tag_card_id r))
                   (card_tags d))
      in sort_by (\<lambda>a b. snd b < snd a \<or> snd a = snd b \<and> fst a < fst b)
           (map (\<lambda>t. (t, count_list ts t)) (remdups ts)))"

section \<open>Full-text rows\<close>

definition fts_delete_card :: "string \<Rightarrow> db \<Rightarrow> db" where
  "fts_delete_card cid d = d\<lparr>cards_fts := delete_where (\<lambda>r. fts_card_id r = c_str cid) (cards_fts d)\<rparr>"

definition fts_upsert_card :: "string \<Rightarrow> string \<Rightarrow> string \<Rightarrow> string \<Rightarrow> db \<Rightarrow> db" where
  "fts_upsert_card cid pid ttl body d =
     (let d1 = fts_delete_card cid d
      in d1\<lparr>cards_fts := cards_fts d1 @ [\<lparr>fts_card_id = c_str cid, fts_project_id = c_str pid,
                                           fts_title = c_str ttl, fts_body = c_str body\<rparr>]\<rparr>)"

definition fts_get_body :: "string \<Rightarrow> db \<Rightarrow> string option" where
  "fts_get_body cid d = map_option fts_body (find (\<lambda>r. fts_card_id r = c_str cid) (cards_fts d))"

section \<open>Replacing the rows of an owner\<close>

text \<open>
  Tags and milestones of a card are replaced as a whole: delete the owner's rows, insert the new
  ones one by one. The interface of an insertion is the same for both tables: it appends the row
  when the foreign keys hold and the primary key is free, and throws otherwise.
\<close>

locale keyed_table =
  fixes rows :: "'d \<Rightarrow> 'r list" and set_rows :: "'r list \<Rightarrow> 'd \<Rightarrow> 'd"
    and key :: "'r \<Rightarrow> 'k" and mk :: "'x \<Rightarrow> 'r" and admits :: "'x \<Rightarrow> 'd \<Rightarrow> bool"
    and ins :: "'x \<Rightarrow> 'd \<Rightarrow> 'e + 'd"
  assumes rows_set: "rows (set_rows rs d) = rs"
    and set_set: "set_rows rs (set_rows rs' d) = set_rows rs d"
    and set_same: "set_rows (rows d) d = d"
    and admits_set: "admits x (set_rows rs d) = admits x d"
    and ins_iff: "ins x d = Inr d' \<longleftrightarrow> admits x d \<and> key (mk x) \<notin> key ` set (rows d)
      \<and> d' = set_rows (rows d @ [mk x]) d"
begin

lemma insert_all:
  "rfold ins xs d = Inr d' \<longleftrightarrow> list_all (\<lambda>x. admits x d) xs \<and> distinct (map (key \<circ> mk) xs)
     \<and> (key \<circ> mk) ` set xs \<inter> key ` set (rows d) = {} \<and> d' = set_rows (rows d @ map mk xs) d"
proof (induction xs arbitrary: d)
  case Nil
  then show ?case by (auto simp: set_same)
next
  case (Cons x xs)
  let ?d = "set_rows (rows d @ [mk x]) d"
  have "rfold ins (x # xs) d = Inr d' \<longleftrightarrow> admits x d \<and> key (mk x) \<notin> key ` set (rows d)
      \<and> rfold ins xs ?d = Inr d'"
    by (auto simp: rbind_eq_Inr ins_iff)
  also have "\<dots> \<longleftrightarrow> admits x d \<and> key (mk x) \<notin> key ` set (rows d) \<and> list_all (\<lambda>x. admits x d) xs
      \<and> distinct (map (key \<circ> mk) xs) \<and> (key \<circ> mk) ` set xs \<inter> key ` set (rows d @ [mk x]) = {}
      \<and> d' = set_rows (rows d @ map mk (x # xs)) d"
    by (simp add: Cons.IH admits_set rows_set set_set o_def)
  also have "\<dots> \<longleftrightarrow> list_all (\<lambda>x. admits x d) (x # xs) \<and> distinct (map (key \<circ> mk) (x # xs))
      \<and> (key \<circ> mk) ` set (x # xs) \<inter> key ` set (rows d) = {} \<and> d' = set_rows (rows d @ map mk (x # xs)) d"
    by auto
  finally show ?case .
qed

end

definition tag_row :: "string \<Rightarrow> string \<Rightarrow> i64 \<Rightarrow> string \<Rightarrow> card_tag" where
  "tag_row pid cid now t =
     \<lparr>tag_project_id = c_str pid, tag_card_id = c_str cid, tag = c_str t, tag_created_at = now\<rparr>"

interpretation tag_table: keyed_table card_tags "\<lambda>rs d. d\<lparr>card_tags := rs\<rparr>" tag_key
  "tag_row pid cid now"
  "\<lambda>t d. c_str pid \<in> proj_id ` set (projects d) \<and> c_str cid \<in> card_id ` set (cards d)"
  "insert_tag pid cid now" for pid cid now
  by unfold_locales (auto simp: insert_tag_def tag_row_def Let_def)

interpretation milestone_table: keyed_table milestones "\<lambda>rs d. d\<lparr>milestones := rs\<rparr>" milestone_id
  bind_milestone
  "\<lambda>m d. ms_project_id m = pid \<and> ms_card_id m = cid \<and> c_str pid \<in> proj_id ` set (projects d)
     \<and> c_str cid \<in> card_id ` set (cards d)"
  "insert_milestone pid cid" for pid cid
  by unfold_locales (auto simp: insert_milestone_def bind_milestone_def Let_def)

lemma tag_row_sel [simp]:
  "tag_project_id (tag_row pid cid now t) = c_str pid" "tag_card_id (tag_row pid cid now t) = c_str cid"
  "tag (tag_row pid cid now t) = c_str t"
  by (simp_all add: tag_row_def)

lemma set_tags_for_card_iff:
  "set_tags_for_card pid cid ts now d = Inr d' \<longleftrightarrow>
     (ts \<noteq> [] \<longrightarrow> c_str pid \<in> proj_id ` set (projects d) \<and> c_str cid \<in> card_id ` set (cards d))
     \<and> distinct (map c_str ts)
     \<and> d' = d\<lparr>card_tags := delete_where (\<lambda>t. tag_project_id t = c_str pid \<and> tag_card_id t = c_str cid)
            (card_tags d) @ map (tag_row pid cid now) ts\<rparr>"
proof -
  have "distinct (map (tag_key \<circ> tag_row pid cid now) ts) \<longleftrightarrow> distinct (map c_str ts)"
    by (auto simp: distinct_map inj_on_def)
  moreover have "(tag_key \<circ> tag_row pid cid now) ` set ts \<inter> tag_key ` {r \<in> set (card_tags d).
      \<not> (tag_project_id r = c_str pid \<and> tag_card_id r = c_str cid)} = {}"
    by auto
  moreover have "list_all (\<lambda>x. P) ts \<longleftrightarrow> (ts \<noteq> [] \<longrightarrow> P)" for P by (induction ts) auto
  ultimately show ?thesis
    by (simp add: set_tags_for_card_def tag_table.insert_all delete_tags_for_card_def)
qed

lemma replace_milestones_iff:
  "replace_milestones pid cid ms d = Inr d' \<longleftrightarrow>
     list_all (\<lambda>m. ms_project_id m = pid \<and> ms_card_id m = cid) ms
     \<and> (ms \<noteq> [] \<longrightarrow> c_str pid \<in> proj_id ` set (projects d) \<and> c_str cid \<in> card_id ` set (cards d))
     \<and> distinct (map (c_str \<circ> milestone_id) ms)
     \<and> (c_str \<circ> milestone_id) ` set ms \<inter> milestone_id ` {m \<in> set (milestones d).
          \<not> (ms_project_id m = c_str pid \<and> ms_card_id m = c_str cid)} = {}
     \<and> d' = d\<lparr>milestones := delete_where (\<lambda>m. ms_project_id m = c_str pid \<and> ms_card_id m = c_str cid)
            (milestones d) @ map bind_milestone ms\<rparr>"
proof -
  have key: "milestone_id \<circ> bind_milestone = c_str \<circ> milestone_id"
    by (auto simp: bind_milestone_def)
  have all: "list_all (\<lambda>m. p m \<and> P) ms \<longleftrightarrow> list_all p ms \<and> (ms \<noteq> [] \<longrightarrow> P)" for p P
    by (induction ms) auto
  show ?thesis
    by (simp add: replace_milestones_def milestone_table.insert_all delete_milestones_def key
        all [of "\<lambda>m. ms_project_id m = pid \<and> ms_card_id m = cid", simplified conj_assoc])
qed

section \<open>Every repository operation keeps the schema's constraints\<close>

text \<open>The statements on the other tables leave the card rows alone.\<close>

lemma cards_index_ops [simp]:
  "cards (delete_links_from pid cid d) = cards d" "cards (fts_delete_card cid d) = cards d"
  "cards (delete_milestones pid cid d) = cards d" "cards (delete_tags_for_card pid cid d) = cards d"
  "cards (fts_upsert_card cid pid ttl body d) = cards d"
  by (simp_all add: delete_links_from_def fts_delete_card_def delete_milestones_def delete_tags_for_card_def
      fts_upsert_card_def Let_def)

lemma cards_upsert_links: "upsert_links pid from ls d = Inr d' \<Longrightarrow> cards d' = cards d"
  unfolding upsert_links_def
  by (rule rfold_invariant [where P = "\<lambda>x. cards x = cards d"])
    (auto simp: upsert_link_def Let_def split: if_splits)

lemma wf_index_update:
  assumes "wf_db d" and "cards d' = cards d" and "projects d' = projects d"
    and "wf_indexes d \<Longrightarrow> wf_indexes d'"
  shows "wf_db d'"
  using assms by (simp add: wf_db_def wf_cards_def list_all_iff row_ok_def)

lemma wf_upsert_link: "wf_db d \<Longrightarrow> upsert_link pid from l d = Inr d' \<Longrightarrow> wf_db d'"
  by (erule wf_index_update)
    (auto simp: upsert_link_def Let_def wf_indexes_def split: if_splits)

lemma wf_upsert_links: "wf_db d \<Longrightarrow> upsert_links pid from ls d = Inr d' \<Longrightarrow> wf_db d'"
  unfolding upsert_links_def by (rule rfold_invariant [where P = wf_db]) (auto dest: wf_upsert_link)

lemma wf_replace_milestones:
  assumes "wf_db d" and "replace_milestones pid cid ms d = Inr d'"
  shows "wf_db d'"
proof (rule wf_index_update [OF assms(1)])
  note r = assms(2) [unfolded replace_milestones_iff]
  show "cards d' = cards d" and "projects d' = projects d" using r by auto
  have "milestone_id \<circ> bind_milestone = c_str \<circ> milestone_id" by (auto simp: bind_milestone_def)
  then have "distinct (map milestone_id (milestones d'))"
    using r assms(1) by (auto simp: wf_db_defs)
  moreover have "ms_card_id (bind_milestone m) \<in> card_id ` set (cards d)" if "m \<in> set ms" for m
    using r that by (auto simp: bind_milestone_def list_all_iff)
  ultimately show "wf_indexes d'" using r assms(1) by (auto simp: wf_db_defs list_all_iff)
qed

lemma wf_set_tags_for_card:
  assumes "wf_db d" and "set_tags_for_card pid cid ts now d = Inr d'"
  shows "wf_db d'"
proof (rule wf_index_update [OF assms(1)])
  note r = assms(2) [unfolded set_tags_for_card_iff]
  show "cards d' = cards d" and "projects d' = projects d" using r by auto
  have "distinct (map tag_key (map (tag_row pid cid now) ts))"
    using r by (auto simp: distinct_map inj_on_def)
  moreover have "distinct (map tag_key (card_tags d))" using assms(1) by (simp add: wf_db_defs)
  ultimately have "distinct (map tag_key (card_tags d'))"
    using r by (simp add: distinct_delete_where del: map_map) auto
  moreover have "list_all (\<lambda>t. tag_card_id t \<in> card_id ` set (cards d') \<and> nul_free (tag t)) (card_tags d')"
    using r assms(1) by (auto simp: wf_db_defs list_all_iff split: if_splits)
  ultimately show "wf_indexes d'" using r assms(1) by (auto simp: wf_db_defs list_all_iff)
qed

lemma wf_delete_rows:
  assumes "wf_db d"
  shows "wf_db (delete_link pid from cid ty kind d)" "wf_db (delete_links_to_typed pid cid lt d)"
    "wf_db (delete_links_from pid from d)" "wf_db (delete_milestones pid cid d)"
    "wf_db (delete_tags_for_card pid cid d)" "wf_db (fts_delete_card cid d)"
    "wf_db (fts_upsert_card cid pid ttl body d)"
  by (rule wf_index_update [OF assms];
      use assms in \<open>simp add: delete_link_def delete_links_to_typed_def delete_links_from_def
        delete_milestones_def delete_tags_for_card_def fts_delete_card_def fts_upsert_card_def
        wf_db_defs list_all_iff Let_def\<close>)+

text \<open>One statement of a repository, as a step of the database.\<close>

inductive repo_step :: "db \<Rightarrow> db \<Rightarrow> bool" where
  create: "cards_create c d = Inr d' \<Longrightarrow> repo_step d d'"
| title: "repo_step d (update_title cid ttl now d)"
| touch: "repo_step d (touch_updated cid now d)"
| soft_delete: "repo_step d (soft_delete cid del now d)"
| restore: "repo_step d (cards_restore cid now d)"
| snapshot: "restore_snapshot c d = Inr d' \<Longrightarrow> repo_step d d'"
| move: "cards_move cid parent key now d = Inr d' \<Longrightarrow> repo_step d d'"
| remove: "repo_step d (cards_remove cid d)"
| links: "upsert_links pid from ls d = Inr d' \<Longrightarrow> repo_step d d'"
| unlink: "repo_step d (delete_link pid from cid ty kind d)"
| unlink_to: "repo_step d (delete_links_to_typed pid cid lt d)"
| unlink_from: "repo_step d (delete_links_from pid from d)"
| milestones: "replace_milestones pid cid ms d = Inr d' \<Longrightarrow> repo_step d d'"
| unmilestone: "repo_step d (delete_milestones pid cid d)"
| tags: "set_tags_for_card pid cid ts now d = Inr d' \<Longrightarrow> repo_step d d'"
| untag: "repo_step d (delete_tags_for_card pid cid d)"
| fts: "repo_step d (fts_upsert_card cid pid ttl body d)"
| unfts: "repo_step d (fts_delete_card cid d)"

lemmas wf_operations = wf_cards_create wf_update_title wf_touch_updated wf_soft_delete
  wf_cards_restore wf_restore_snapshot wf_cards_move wf_cards_remove wf_upsert_links
  wf_replace_milestones wf_set_tags_for_card wf_delete_rows

lemma wf_repo_step: "repo_step d d' \<Longrightarrow> wf_db d \<Longrightarrow> wf_db d'"
  by (induction rule: repo_step.induct) (auto intro: wf_operations)

text \<open>
  Any sequence of repository statements keeps the constraints of the schema: distinct primary
  keys, one card per path of a project, no dangling parent, project, tag or milestone reference.
\<close>

theorem repo_steps_keep_schema:
  assumes "repo_step\<^sup>*\<^sup>* d d'" and "wf_db d"
  shows "wf_db d'"
  using assms by (induction rule: rtranclp_induct) (auto intro: wf_repo_step)

theorem repo_steps_keep_schema_witness:
  "wf_db (cards_remove ''bb02'' (update_title ''aa01'' ''New'' 5 demo_db))"
proof (rule repo_steps_keep_schema)
  show "repo_step\<^sup>*\<^sup>* demo_db (cards_remove ''bb02'' (update_title ''aa01'' ''New'' 5 demo_db))"
    by (meson repo_step.title repo_step.remove rtranclp.rtrancl_refl rtranclp.rtrancl_into_rtrancl)
qed simp

section \<open>What the queries return\<close>

lemma filter_delete_where_none [simp]:
  "(\<And>r. q r \<Longrightarrow> p r) \<Longrightarrow> filter q (delete_where p rows) = []"
  by (auto simp: delete_where_def filter_empty_conv)

lemma filter_delete_where_keep:
  "a \<noteq> b \<Longrightarrow> filter (\<lambda>r. q r \<and> k r = a) (delete_where (\<lambda>r. p r \<and> k r = b) rows)
     = filter (\<lambda>r. q r \<and> k r = a) rows"
  by (induction rows) (auto simp: delete_where_def)

text \<open>
  writing the tags of a card succeeds exactly when they are pairwise different and the card and
  project rows exist (an empty list needs neither); the card then lists exactly these tags in
  alphabetical order, and the tags of every other card are as before.
\<close>

theorem set_tags_then_list:
  "((\<exists>d'. set_tags_for_card pid cid ts now d = Inr d') \<longleftrightarrow>
      distinct (map c_str ts)
      \<and> (ts \<noteq> [] \<longrightarrow> c_str pid \<in> proj_id ` set (projects d) \<and> c_str cid \<in> card_id ` set (cards d)))
   \<and> (\<forall>d'. set_tags_for_card pid cid ts now d = Inr d' \<longrightarrow>
        list_tags_for_card pid cid d' = sort_by (<) (map c_str ts)
        \<and> (\<forall>other. c_str other \<noteq> c_str cid \<longrightarrow>
              list_tags_for_card pid other d' = list_tags_for_card pid other d))"
proof -
  have "list_tags_for_card pid cid d' = sort_by (<) (map c_str ts)"
    if "set_tags_for_card pid cid ts now d = Inr d'" for d'
  proof -
    have "filter (\<lambda>t. tag_project_id t = c_str pid \<and> tag_card_id t = c_str cid) (card_tags d')
        = map (tag_row pid cid now) ts"
      using that by (auto simp: set_tags_for_card_iff)
    then show ?thesis by (simp add: list_tags_for_card_def o_def)
  qed
  moreover have "list_tags_for_card pid other d' = list_tags_for_card pid other d"
    if "set_tags_for_card pid cid ts now d = Inr d'" and "c_str other \<noteq> c_str cid" for d' other
  proof -
    have "filter (\<lambda>t. tag_project_id t = c_str pid \<and> tag_card_id t = c_str other) (card_tags d')
        = filter (\<lambda>t. tag_project_id t = c_str pid \<and> tag_card_id t = c_str other) (card_tags d)"
      using that by (auto simp: set_tags_for_card_iff filter_delete_where_keep)
    then show ?thesis by (simp add: list_tags_for_card_def)
  qed
  ultimately show ?thesis by (auto simp: set_tags_for_card_iff)
qed

theorem set_tags_then_list_witness:
  "\<exists>d'. set_tags_for_card ''p'' ''aa01'' [''todo'', ''idea''] 3 demo_db = Inr d'
     \<and> list_tags_for_card ''p'' ''aa01'' d' = [''idea'', ''todo'']"
proof -
  have "distinct (map c_str [''todo'', ''idea''])" "c_str ''p'' \<in> proj_id ` set (projects demo_db)"
    "c_str ''aa01'' \<in> card_id ` set (cards demo_db)" by code_simp+
  then obtain d' where "set_tags_for_card ''p'' ''aa01'' [''todo'', ''idea''] 3 demo_db = Inr d'"
    using set_tags_then_list by blast
  moreover from this have "list_tags_for_card ''p'' ''aa01'' d' = sort_by (<) (map c_str [''todo'', ''idea''])"
    using set_tags_then_list by blast
  moreover have "sort_by (<) (map c_str [''todo'', ''idea'']) = [''idea'', ''todo'']" by code_simp
  ultimately show ?thesis by auto
qed

lemma count_list_filter: "count_list (map f (filter p xs)) a = length (filter (\<lambda>x. p x \<and> f x = a) xs)"
  by (induction xs) auto

text \<open>
  C38: the tag overview and the tag search agree. A tag is in the overview exactly when some live
  card carries it, its count is the number of cards the search returns for it, and every card the
  search returns is live.
\<close>

theorem project_tags_agree_with_search:
  assumes wf: "wf_db d"
  shows "((t, n) \<in> set (list_project_tags pid d) \<longleftrightarrow>
      nul_free t \<and> n = length (list_card_ids_with_tag pid t d) \<and> 0 < n)
    \<and> (\<forall>cid \<in> set (list_card_ids_with_tag pid t d). live_row d cid)"
proof -
  let ?rows = "filter (\<lambda>r. tag_project_id r = c_str pid \<and> live_row d (tag_card_id r)) (card_tags d)"
  let ?hits = "\<lambda>u. filter (\<lambda>r. (tag_project_id r = c_str pid \<and> live_row d (tag_card_id r)) \<and> tag r = u) (card_tags d)"
  have len: "length (list_card_ids_with_tag pid u d) = length (?hits (c_str u))" for u
    by (simp add: list_card_ids_with_tag_def conj_ac)
  have nul: "nul_free (tag r)" if "r \<in> set (card_tags d)" for r
    using wf that by (simp add: wf_db_defs list_all_iff)
  have "(t, n) \<in> set (list_project_tags pid d) \<longleftrightarrow> t \<in> tag ` set ?rows \<and> n = length (?hits t)"
    by (auto simp: list_project_tags_def Let_def count_list_filter)
  also have "\<dots> \<longleftrightarrow> nul_free t \<and> n = length (?hits t) \<and> 0 < n"
    using nul by (auto simp: filter_empty_conv)
  also have "\<dots> \<longleftrightarrow> nul_free t \<and> n = length (list_card_ids_with_tag pid t d) \<and> 0 < n"
    by (auto simp: len)
  finally show ?thesis by (auto simp: list_card_ids_with_tag_def)
qed

definition demo_tagged :: db where
  "demo_tagged = demo_db\<lparr>card_tags := [tag_row ''p'' ''aa01'' 1 ''todo'', tag_row ''p'' ''bb02'' 2 ''todo'']\<rparr>"

lemma wf_demo_tagged [simp]: "wf_db demo_tagged"
  by (rule wf_index_update [OF wf_demo_db])
    (simp_all add: demo_tagged_def wf_indexes_def demo_db_def demo_card_def nul_free_def)

theorem project_tags_agree_with_search_witness:
  "(''todo'', 2) \<in> set (list_project_tags ''p'' demo_tagged)"
proof -
  have "nul_free ''todo''" "2 = length (list_card_ids_with_tag ''p'' ''todo'' demo_tagged)" by code_simp+
  then show ?thesis using project_tags_agree_with_search [OF wf_demo_tagged] by auto
qed

text \<open>
  replacing a card's milestones and listing them gives back the same milestones ordered by
  start; the milestones of other cards are untouched.
\<close>

theorem replace_milestones_then_list:
  assumes "replace_milestones pid cid ms d = Inr d'"
  shows "list_milestones pid cid d' = sort_by earlier_milestone (map bind_milestone ms)
    \<and> (\<forall>other. c_str other \<noteq> c_str cid \<longrightarrow> list_milestones pid other d' = list_milestones pid other d)"
proof -
  let ?own = "\<lambda>m. ms_project_id m = c_str pid \<and> ms_card_id m = c_str cid"
  have r: "list_all (\<lambda>m. ms_project_id m = pid \<and> ms_card_id m = cid) ms"
    "milestones d' = delete_where ?own (milestones d) @ map bind_milestone ms"
    using assms by (auto simp: replace_milestones_iff)
  then have own: "\<forall>m \<in> set (map bind_milestone ms). ?own m"
    by (auto simp: list_all_iff bind_milestone_def)
  then have "filter ?own (milestones d') = map bind_milestone ms"
    using r(2) by (simp add: filter_True)
  moreover have "filter (\<lambda>m. ms_project_id m = c_str pid \<and> ms_card_id m = c_str other) (milestones d')
      = filter (\<lambda>m. ms_project_id m = c_str pid \<and> ms_card_id m = c_str other) (milestones d)"
    if "c_str other \<noteq> c_str cid" for other
    using r(2) own that by (auto simp: filter_delete_where_keep filter_empty_conv)
  ultimately show ?thesis by (simp add: list_milestones_def)
qed

definition demo_milestone :: milestone where
  "demo_milestone = \<lparr>milestone_id = ''m1'', ms_project_id = ''p'', ms_card_id = ''aa01'', start_at = 10,
     end_at = None, all_day = True, ms_kind = None, ms_description = None, ms_created_at = 1,
     ms_updated_at = 1\<rparr>"

theorem replace_milestones_then_list_witness:
  "\<exists>d'. replace_milestones ''p'' ''aa01'' [demo_milestone] demo_db = Inr d'
     \<and> list_milestones ''p'' ''aa01'' d' = [demo_milestone]"
proof -
  have ok: "replace_milestones ''p'' ''aa01'' [demo_milestone] demo_db
      = Inr (demo_db\<lparr>milestones := [demo_milestone]\<rparr>)" by code_simp
  have "sort_by earlier_milestone (map bind_milestone [demo_milestone]) = [demo_milestone]" by code_simp
  with ok replace_milestones_then_list [OF ok] show ?thesis by simp
qed

end
