(* ===== verification/Card_Hierarchy.thy ===== *)
theory Card_Hierarchy
  imports Card_Repo
begin

text \<open>
  The manual tree of cards: \<open>src/src/card/CardHierarchy.cpp\<close>. Siblings are ordered by a double key;
  inserting cards gives them keys between their neighbours and re-spaces a growing window of
  siblings when the keys leave no room. Arithmetic on keys is IEEE binary64 with one rounding per
  operation.
\<close>

section \<open>The tree order\<close>

definition card_tree_less :: "card \<Rightarrow> card \<Rightarrow> bool" where
  "card_tree_less a b =
     (if dlt (sort_key a) (sort_key b) then True
      else if dlt (sort_key b) (sort_key a) then False
      else if updated_at a \<noteq> updated_at b then updated_at b < updated_at a
      else let lhs = to_lower (title a); rhs = to_lower (title b)
           in if lhs \<noteq> rhs then lhs < rhs else card_id a < card_id b)"

definition siblings :: "card \<Rightarrow> db \<Rightarrow> card list" where
  "siblings c d =
     (let found = (case parent_card_id c of
                     Some p \<Rightarrow> list_children (project_id c) p d
                   | None \<Rightarrow> list_roots (project_id c) d)
      in sort_by card_tree_less (filter (\<lambda>r. deleted_at r = None) found))"

section \<open>Keys between two neighbours\<close>

definition spaced_key :: "double \<Rightarrow> double \<Rightarrow> double \<Rightarrow> nat \<Rightarrow> double" where
  "spaced_key low high n i =
     (let fraction = ddiv (double_of_nat (i + 1)) (dadd n (DFin 1))
      in dadd (dmul low (dsub (DFin 1) fraction)) (dmul high fraction))"

function spaced_from :: "double \<Rightarrow> double \<Rightarrow> double \<Rightarrow> nat \<Rightarrow> nat \<Rightarrow> double \<Rightarrow> double list option" where
  "spaced_from low high n cnt i previous =
     (if i < cnt
      then let key = spaced_key low high n i
           in if \<not> isfinite key \<or> dle key previous \<or> dle high key then None
              else map_option (Cons key) (spaced_from low high n cnt (i + 1) key)
      else Some [])"
  by pat_completeness auto
termination by (relation "measure (\<lambda>(_, _, _, cnt, i, _). cnt - i)") auto

declare spaced_from.simps [simp del]

definition spaced_keys :: "double option \<Rightarrow> double option \<Rightarrow> nat \<Rightarrow> double list option" where
  "spaced_keys left0 right cnt =
     (let n = double_of_nat cnt;
          left = (if left0 = None \<and> right = None then Some (DFin 0) else left0);
          low = (case left of Some l \<Rightarrow> l | None \<Rightarrow> dsub (dsub (the right) n) (DFin 1));
          high = (case right of Some r \<Rightarrow> r | None \<Rightarrow> dadd (dadd (the left) n) (DFin 1))
      in spaced_from low high n cnt 0 low)"

section \<open>Inserting a block\<close>

definition respace ::
  "card list \<Rightarrow> nat \<Rightarrow> nat \<Rightarrow> nat \<Rightarrow> nat \<Rightarrow> double list \<Rightarrow> i64 \<Rightarrow> card list \<times> card list"
where
  "respace dest pos block_end low high keys now =
     (let moved = (\<lambda>i. pos \<le> i \<and> i < block_end \<or> \<not> deq (sort_key (dest ! i)) (keys ! (i - low)));
          rekeyed = (\<lambda>i. (dest ! i)\<lparr>sort_key := keys ! (i - low), updated_at := now\<rparr>)
      in (map (\<lambda>i. if low \<le> i \<and> i < high \<and> moved i then rekeyed i else dest ! i) [0..<length dest],
          map rekeyed (filter moved [low..<high])))"

function widen ::
  "card list \<Rightarrow> nat \<Rightarrow> nat \<Rightarrow> i64 \<Rightarrow> nat \<Rightarrow> (card list \<times> card list) result"
where
  "widen dest pos block_end now radius =
     (let low = (if pos > radius then pos - radius else 0);
          high = min (length dest) (block_end + radius);
          left = (if low \<noteq> 0 then Some (sort_key (dest ! (low - 1))) else None);
          right = (if high < length dest then Some (sort_key (dest ! high)) else None)
      in case spaced_keys left right (high - low) of
           None \<Rightarrow>
             if low = 0 \<and> high = length dest
             then Inl (RuntimeError ''no sort keys available for card placement'')
             else widen dest pos block_end now (if radius \<noteq> 0 then radius * 2 else 1)
         | Some keys \<Rightarrow> Inr (respace dest pos block_end low high keys now))"
  by pat_completeness auto
termination
  by (relation "measure (\<lambda>(dest, pos, _, _, radius). length dest + pos - radius)") (auto split: if_splits)

declare widen.simps [simp del]

definition insert_block_into ::
  "card list \<Rightarrow> nat \<Rightarrow> card list \<Rightarrow> string option \<Rightarrow> i64 \<Rightarrow> (card list \<times> card list) result"
where
  "insert_block_into dest pos block parent now =
     (if block = [] then Inr (dest, [])
      else let placed = map (\<lambda>c. c\<lparr>parent_card_id := parent\<rparr>) block
           in widen (take pos dest @ placed @ drop pos dest) pos (pos + length block) now 0)"

definition insert_block ::
  "card list \<Rightarrow> nat \<Rightarrow> card list \<Rightarrow> string option \<Rightarrow> i64 \<Rightarrow> card list result"
where
  "insert_block dest pos block parent now =
     rbind (insert_block_into dest pos block parent now) (\<lambda>(_, changed). Inr changed)"

section \<open>Walking the ancestors\<close>

definition parent_ids :: "card list \<Rightarrow> string set" where
  "parent_ids rows = {p. \<exists>r \<in> set rows. parent_card_id r = Some p}"

lemma finite_parent_ids [simp]: "finite (parent_ids rows)"
proof -
  have "parent_ids rows \<subseteq> (the \<circ> parent_card_id) ` set rows" by (force simp: parent_ids_def)
  then show ?thesis by (rule finite_subset) simp
qed

definition steps_left :: "card list \<Rightarrow> string list \<Rightarrow> string option \<Rightarrow> nat" where
  "steps_left rows visited next_id =
     Finite_Set.card (parent_ids rows - set visited)
     + (case next_id of Some p \<Rightarrow> if p \<in> parent_ids rows then 1 else 2 | None \<Rightarrow> 0)"

lemma steps_left_decreases:
  assumes "p \<notin> set visited" and "r \<in> set rows"
  shows "steps_left rows (p # visited) (parent_card_id r) < steps_left rows visited (Some p)"
proof -
  let ?P = "parent_ids rows"
  have next_in: "parent_card_id r = Some q \<Longrightarrow> q \<in> ?P" for q
    using assms(2) by (auto simp: parent_ids_def)
  show ?thesis
  proof (cases "p \<in> ?P")
    case True
    have "?P - set (p # visited) = (?P - set visited) - {p}" by auto
    moreover have "Finite_Set.card ((?P - set visited) - {p}) < Finite_Set.card (?P - set visited)"
      using True assms(1) by (intro card_Diff1_less) auto
    ultimately show ?thesis
      using True next_in by (auto simp: steps_left_def split: option.splits)
  next
    case False
    have "Finite_Set.card (?P - set (p # visited)) \<le> Finite_Set.card (?P - set visited)"
      by (rule card_mono) auto
    then show ?thesis using False next_in by (auto simp: steps_left_def split: option.splits)
  qed
qed

function reachable_walk ::
  "db \<Rightarrow> string \<Rightarrow> string list \<Rightarrow> string option \<Rightarrow> string option \<Rightarrow> string option result"
where
  "reachable_walk d pid visited next_id candidate =
     (case next_id of
        None \<Rightarrow> Inr candidate
      | Some p \<Rightarrow>
          if p \<in> set visited then Inl (RuntimeError ''move_would_create_cycle'')
          else case cards_get p d of
                 None \<Rightarrow> Inr None
               | Some ancestor \<Rightarrow>
                   if project_id ancestor \<noteq> pid then Inr None
                   else reachable_walk d pid (p # visited) (parent_card_id ancestor)
                          (if deleted_at ancestor \<noteq> None then None
                           else if candidate = None then Some (card_id ancestor)
                           else candidate))"
  by pat_completeness auto
termination
proof (relation "measure (\<lambda>(d, _, visited, next_id, _). steps_left (cards d) visited next_id)", goal_cases)
  case (2 d pid visited next_id candidate p ancestor)
  then show ?case
    using steps_left_decreases [of p visited ancestor "cards d"]
    by (auto simp: cards_get_def dest: find_SomeD)
qed simp

declare reachable_walk.simps [simp del]

definition reachable_card_parent :: "card \<Rightarrow> db \<Rightarrow> string option result" where
  "reachable_card_parent c d = reachable_walk d (project_id c) [card_id c] (parent_card_id c) None"

definition validate_card_parent :: "card \<Rightarrow> db \<Rightarrow> unit result" where
  "validate_card_parent c d =
     rbind (reachable_card_parent c d) (\<lambda>p. require (p = parent_card_id c) (RuntimeError ''target_not_found''))"

section \<open>Placements\<close>

definition promoted_card_children :: "card \<Rightarrow> i64 \<Rightarrow> db \<Rightarrow> card list result" where
  "promoted_card_children parent now d =
     rbind (reachable_card_parent parent d)
       (\<lambda>dest_parent.
          let children = siblings (parent\<lparr>parent_card_id := Some (card_id parent)\<rparr>) d
          in if children = [] then Inr []
             else let anchor = parent\<lparr>parent_card_id := dest_parent\<rparr>;
                      dest = filter (\<lambda>c. card_id c \<noteq> card_id parent) (siblings anchor d);
                      pos = lower_bound card_tree_less dest anchor
                  in insert_block dest pos children dest_parent now)"

definition placed_card_changes ::
  "card list \<Rightarrow> nat \<Rightarrow> card \<Rightarrow> string option \<Rightarrow> i64 \<Rightarrow> card list result"
where
  "placed_card_changes dest pos c parent now = insert_block dest pos [c] parent now"

text \<open>\<open>restored\<close> is changed in place: the result holds its new value and the other changed cards.\<close>

definition restored_card_placement :: "card \<Rightarrow> i64 \<Rightarrow> db \<Rightarrow> (card \<times> card list) result" where
  "restored_card_placement restored0 now d =
     rbind (reachable_card_parent restored0 d)
       (\<lambda>p.
          let restored = restored0\<lparr>parent_card_id := p\<rparr>;
              dest = filter (\<lambda>c. card_id c \<noteq> card_id restored) (siblings restored d)
          in if isfinite (sort_key restored)
                \<and> \<not> list_ex (\<lambda>c. deq (sort_key c) (sort_key restored)) dest
             then Inr (restored, [])
             else let pos = lower_bound card_tree_less dest restored
                  in rbind (insert_block dest pos [restored] p now)
                       (\<lambda>changes.
                          let own = filter (\<lambda>c. card_id c = card_id restored) changes
                          in Inr (if own = [] then restored
                                  else restored\<lparr>sort_key := sort_key (last own)\<rparr>,
                                  filter (\<lambda>c. card_id c \<noteq> card_id restored) changes)))"

section \<open>Planning a repair\<close>

record repair_plan =
  placements :: "card list"
  moved_card_ids :: "string list"
  cycle_card_ids :: "string list"

record head =
  head_card :: card
  head_destination :: "string option"
  head_anchor :: "card option"

text \<open>
  \<open>std::map<std::string, Card>\<close> is the list of its values in ascending order of the card id; ids are
  the primary key of the rows.
\<close>

definition id_less :: "card \<Rightarrow> card \<Rightarrow> bool" where
  "id_less a b \<longleftrightarrow> card_id a < card_id b"

definition by_id :: "string \<Rightarrow> db \<Rightarrow> card list" where
  "by_id pid d = sort_by id_less (list_all_cards pid d)"

definition find_row :: "card list \<Rightarrow> string option \<Rightarrow> card option" where
  "find_row rows i = (case i of None \<Rightarrow> None | Some k \<Rightarrow> find (\<lambda>r. card_id r = k) rows)"

text \<open>The walk over the ancestors; \<open>None\<close> is \<open>cycle = true\<close>.\<close>

function repair_walk ::
  "card list \<Rightarrow> string list \<Rightarrow> string option \<Rightarrow> string option \<Rightarrow> string option option"
where
  "repair_walk rows visited next_id dest =
     (case next_id of
        None \<Rightarrow> Some dest
      | Some p \<Rightarrow>
          if p \<in> set visited then None
          else case find_row rows next_id of
                 None \<Rightarrow> Some None
               | Some ancestor \<Rightarrow>
                   repair_walk rows (p # visited) (parent_card_id ancestor)
                     (if deleted_at ancestor \<noteq> None then None
                      else if dest = None then Some (card_id ancestor)
                      else dest))"
  by pat_completeness auto
termination
proof (relation "measure (\<lambda>(rows, visited, next_id, _). steps_left rows visited next_id)", goal_cases)
  case (2 rows visited next_id dest p ancestor)
  then show ?case
    using steps_left_decreases [of p visited ancestor rows]
    by (auto simp: find_row_def dest: find_SomeD)
qed simp

declare repair_walk.simps [simp del]

text \<open>
  The second loop follows a chain the first loop walked without meeting a card twice, so it makes at
  most one step per row; the fuel is one more than that.
\<close>

fun anchor_walk :: "nat \<Rightarrow> card list \<Rightarrow> string option \<Rightarrow> card option \<Rightarrow> card option" where
  "anchor_walk 0 rows dest a = None"
| "anchor_walk (Suc n) rows dest a =
     (case a of
        None \<Rightarrow> None
      | Some x \<Rightarrow> if parent_card_id x = dest then Some x
                   else anchor_walk n rows dest (find_row rows (parent_card_id x)))"

datatype verdict = Settled | InCycle string | HiddenHead head

definition inspect :: "card list \<Rightarrow> card \<Rightarrow> verdict" where
  "inspect rows c =
     (if deleted_at c \<noteq> None \<or> parent_card_id c = None then Settled
      else case repair_walk rows [card_id c] (parent_card_id c) None of
             None \<Rightarrow> InCycle (card_id c)
           | Some dest \<Rightarrow>
               let parent = find_row rows (parent_card_id c)
               in if (case parent of None \<Rightarrow> False | Some q \<Rightarrow> deleted_at q = None) then Settled
                  else HiddenHead \<lparr>head_card = c, head_destination = dest,
                         head_anchor = anchor_walk (Suc (length rows)) rows dest parent\<rparr>)"

definition heads_of :: "card list \<Rightarrow> head list" where
  "heads_of rows = concat (map (\<lambda>c. case inspect rows c of HiddenHead h \<Rightarrow> [h] | _ \<Rightarrow> []) rows)"

definition cycles_of :: "card list \<Rightarrow> string list" where
  "cycles_of rows = concat (map (\<lambda>c. case inspect rows c of InCycle i \<Rightarrow> [i] | _ \<Rightarrow> []) rows)"

fun opt_less :: "string option \<Rightarrow> string option \<Rightarrow> bool" where
  "opt_less None b = (b \<noteq> None)"
| "opt_less (Some a) None = False"
| "opt_less (Some a) (Some b) = (a < b)"

text \<open>\<open>changed[card.card_id] = std::move(card)\<close>.\<close>

definition put_card :: "card \<Rightarrow> card list \<Rightarrow> card list" where
  "put_card c m = insert_by id_less c (filter (\<lambda>x. card_id x \<noteq> card_id c) m)"

definition place ::
  "string option \<Rightarrow> i64 \<Rightarrow> card list \<Rightarrow> nat \<Rightarrow> card list \<times> card list \<Rightarrow> (card list \<times> card list) result"
where
  "place dest now block pos st =
     rbind (insert_block_into (fst st) pos (sort_by card_tree_less block) dest now)
       (\<lambda>(sibs, chg). Inr (sibs, fold put_card chg (snd st)))"

definition place_anchored ::
  "string option \<Rightarrow> i64 \<Rightarrow> head list \<Rightarrow> string \<Rightarrow> card list \<times> card list \<Rightarrow> (card list \<times> card list) result"
where
  "place_anchored dest now grp aid st =
     (case find (\<lambda>h. map_option card_id (head_anchor h) = Some aid) grp of
        None \<Rightarrow> Inr st
      | Some h \<Rightarrow>
          place dest now
            (map head_card (filter (\<lambda>h. map_option card_id (head_anchor h) = Some aid) grp))
            (lower_bound card_tree_less (fst st) (the (head_anchor h))) st)"

definition place_group ::
  "card list \<Rightarrow> head list \<Rightarrow> i64 \<Rightarrow> string option \<Rightarrow> card list \<Rightarrow> card list result"
where
  "place_group rows heads now dest chg =
     (let grp = filter (\<lambda>h. head_destination h = dest) heads;
          sibs = sort_by card_tree_less
                   (filter (\<lambda>c. deleted_at c = None \<and> parent_card_id c = dest) rows);
          anchors = concat (map (\<lambda>h. case head_anchor h of None \<Rightarrow> [] | Some a \<Rightarrow> [card_id a]) grp);
          unanchored = map head_card (filter (\<lambda>h. head_anchor h = None) grp)
      in rbind (rfold (place_anchored dest now grp) (sort_by (<) (remdups anchors)) (sibs, chg))
           (\<lambda>st. if unanchored = [] then Inr (snd st)
                 else rbind (place dest now unanchored (length (fst st)) st) (\<lambda>st'. Inr (snd st'))))"

definition plan_hierarchy_repair :: "string \<Rightarrow> i64 \<Rightarrow> db \<Rightarrow> repair_plan result" where
  "plan_hierarchy_repair pid now d =
     (let rows = by_id pid d; heads = heads_of rows;
          dests = sort_by opt_less (remdups (map head_destination heads))
      in rbind (rfold (place_group rows heads now) dests [])
           (\<lambda>chg. Inr \<lparr>placements = chg,
              moved_card_ids = sort_by (<) (map (\<lambda>h. card_id (head_card h)) heads),
              cycle_card_ids = cycles_of rows\<rparr>))"

section \<open>The tree order is a strict total order on cards\<close>

lemma card_tree_less_iff [tree_simps]:
  assumes "sort_key a \<noteq> DNan" and "sort_key b \<noteq> DNan"
  shows "card_tree_less a b \<longleftrightarrow> dlt (sort_key a) (sort_key b) \<or> sort_key a = sort_key b \<and>
    (updated_at b < updated_at a \<or> updated_at a = updated_at b \<and>
      (to_lower (title a) < to_lower (title b) \<or> to_lower (title a) = to_lower (title b) \<and> card_id a < card_id b))"
  using assms dlt_total [of "sort_key a" "sort_key b"] dlt_asym [of "sort_key a" "sort_key b"]
  by (auto simp: card_tree_less_def Let_def)

interpretation tree_order: keyed_order card_tree_less card_id "\<lambda>c. sort_key c \<noteq> DNan"
proof
  fix a b c :: card
  assume k: "sort_key a \<noteq> DNan" "sort_key b \<noteq> DNan" "sort_key c \<noteq> DNan"
    and l: "card_tree_less a b" "card_tree_less b c"
  from l k show "card_tree_less a c"
    by (auto simp: card_tree_less_iff intro: dlt_trans)
next
  fix a b :: card
  assume "sort_key a \<noteq> DNan" "sort_key b \<noteq> DNan" "card_id a \<noteq> card_id b"
  then show "card_tree_less a b \<or> card_tree_less b a"
    using dlt_total by (auto simp: card_tree_less_iff)
qed (simp add: card_tree_less_iff)

lemma set_siblings:
  "set (siblings c d) = {r \<in> set (cards d). project_id r = c_str (project_id c)
     \<and> parent_card_id r = map_option c_str (parent_card_id c) \<and> is_live r}"
  by (auto simp: siblings_def list_children_def list_roots_def split: option.splits)

lemma siblings_sorted:
  assumes "wf_db d"
  shows "sorted_wrt card_tree_less (siblings c d)" and "distinct (map card_id (siblings c d))"
proof -
  have ids: "distinct (map card_id (filter p (cards d)))" for p
    using cards_distinct [OF assms] by (simp add: distinct_map_filter)
  show "distinct (map card_id (siblings c d))"
    using ids by (auto simp: siblings_def list_children_def list_roots_def distinct_map_filter split: option.splits)
  show "sorted_wrt card_tree_less (siblings c d)"
    unfolding siblings_def Let_def
  proof (rule tree_order.sort_by_sorted)
    show "list_all (\<lambda>c. sort_key c \<noteq> DNan) (filter is_live (case parent_card_id c of
        None \<Rightarrow> list_roots (project_id c) d | Some p \<Rightarrow> list_children (project_id c) p d))"
      using cards_row_ok [OF assms] row_okD(5)
      by (fastforce simp: list_all_iff list_children_def list_roots_def split: option.splits)
    show "distinct (map card_id (filter is_live (case parent_card_id c of
        None \<Rightarrow> list_roots (project_id c) d | Some p \<Rightarrow> list_children (project_id c) p d)))"
      using ids by (auto simp: list_children_def list_roots_def distinct_map_filter split: option.splits)
  qed
qed

section \<open>Spaced keys\<close>

lemma isfinite_not_NaN [simp]: "isfinite x \<Longrightarrow> x \<noteq> DNan"
  by auto

lemma spaced_from_sound:
  assumes "spaced_from low high n cnt i previous = Some ks" and "i \<le> cnt"
  shows "length ks = cnt - i \<and> list_all isfinite ks \<and> sorted_wrt dlt ks
    \<and> (high \<noteq> DNan \<longrightarrow> (\<forall>k \<in> set ks. dlt k high))
    \<and> (previous \<noteq> DNan \<longrightarrow> (\<forall>k \<in> set ks. dlt previous k))"
  using assms
proof (induction low high n cnt i previous arbitrary: ks rule: spaced_from.induct)
  case (1 low high n cnt i previous)
  show ?case
  proof (cases "i < cnt")
    case False
    with 1 show ?thesis by (simp add: spaced_from.simps [of low high n cnt i])
  next
    case True
    let ?key = "spaced_key low high n i"
    obtain ks' where guard: "\<not> (\<not> isfinite ?key \<or> dle ?key previous \<or> dle high ?key)"
      and ks: "ks = ?key # ks'" and rest: "spaced_from low high n cnt (i + 1) ?key = Some ks'"
      using 1(2) True by (subst (asm) spaced_from.simps) (auto simp: Let_def split: if_splits)
    from 1(1) [OF True refl guard rest] True
    have IH: "length ks' = cnt - (i + 1)" "list_all isfinite ks'" "sorted_wrt dlt ks'"
      "high \<noteq> DNan \<longrightarrow> (\<forall>k \<in> set ks'. dlt k high)" "\<forall>k \<in> set ks'. dlt ?key k"
      using guard isfinite_not_NaN by (auto simp del: isfinite_not_NaN)
    have "previous \<noteq> DNan \<Longrightarrow> dlt previous ?key" and "high \<noteq> DNan \<Longrightarrow> dlt ?key high"
      using guard by (metis isfinite_not_NaN not_dle)+
    then show ?thesis
      using IH guard ks True by (auto intro: dlt_trans)
  qed
qed

text \<open>Keys between two neighbours: as many as asked for, finite, increasing, strictly inside.\<close>

lemma spaced_keys_sound:
  assumes "spaced_keys left right cnt = Some ks"
  shows "length ks = cnt" and "list_all isfinite ks" and "sorted_wrt dlt ks"
    and "left = Some l \<Longrightarrow> l \<noteq> DNan \<Longrightarrow> k \<in> set ks \<Longrightarrow> dlt l k"
    and "right = Some r \<Longrightarrow> r \<noteq> DNan \<Longrightarrow> k \<in> set ks \<Longrightarrow> dlt k r"
  using spaced_from_sound [OF assms [unfolded spaced_keys_def Let_def]]
  by (auto split: option.splits if_splits)

lemma rnd_normal':
  assumes "1 / 2 ^ 60 \<le> \<bar>q\<bar>" and "\<bar>q\<bar> < 2 ^ 60"
  shows "\<exists>r. rnd q = DFin r \<and> \<bar>r - q\<bar> \<le> \<bar>q\<bar> / 2 ^ 53"
proof (rule rnd_normal)
  have "(2 :: rat) powi (- 1022) \<le> 2 powi (- 60)" by (rule power_int_increasing) simp_all
  also have "\<dots> = 1 / 2 ^ 60" by (simp add: power_int_minus field_simps)
  finally show "2 powi (- 1022) \<le> \<bar>q\<bar>" using assms(1) by linarith
  have "(2 :: rat) ^ 60 < 2 ^ 1000" by (rule power_strict_increasing) simp_all
  then show "\<bar>q\<bar> < 2 ^ 1000" using assms(2) by (rule less_trans [rotated])
qed

text \<open>
  With both ends open the keys are \<open>1, 2, ..., n\<close> up to rounding: each is within a quarter of its
  index, so they are increasing and below the upper end.
\<close>

lemma spaced_key_near:
  assumes n: "n < 2 ^ 48" and i: "i < n"
  shows "\<exists>k. spaced_key (DFin 0) (DFin (of_nat n + 1)) (DFin (of_nat n)) i = DFin k
    \<and> \<bar>k - (of_nat i + 1)\<bar> \<le> 1 / 4"
proof -
  define N a :: rat where "N = of_nat n + 1" and "a = of_nat i + 1"
  have "n \<le> 281474976710655" using n by simp
  then have N: "N \<le> 281474976710656" unfolding N_def by (simp flip: of_nat_Suc)
  have a: "1 \<le> a" "a < N" using i by (auto simp: N_def a_def)
  have da: "double_of_nat (i + 1) = DFin a"
    using i n double_of_nat_exact [of "i + 1"] by (simp add: a_def)
  have dN: "dadd (DFin (of_nat n)) (DFin 1) = DFin N"
    using rnd_int [of "int n + 1"] n by (simp add: N_def)
  have "1 / 2 ^ 60 \<le> \<bar>a / N\<bar>" and "\<bar>a / N\<bar> < 2 ^ 60"
    using a N by (auto simp: field_simps)
  then obtain f where f: "rnd (a / N) = DFin f" "\<bar>f - a / N\<bar> \<le> \<bar>a / N\<bar> / 2 ^ 53"
    using rnd_normal' by blast
  have fa: "\<bar>N * f - a\<bar> \<le> a / 2 ^ 53"
  proof -
    have "N * f - a = N * (f - a / N)" using a by (simp add: right_diff_distrib)
    then have "\<bar>N * f - a\<bar> = N * \<bar>f - a / N\<bar>" using a by (simp add: abs_mult)
    also have "\<dots> \<le> N * (\<bar>a / N\<bar> / 2 ^ 53)" using f(2) a by (intro mult_left_mono) auto
    also have "\<dots> = a / 2 ^ 53" using a by simp
    finally show ?thesis .
  qed
  then have p: "\<bar>N * f - a\<bar> \<le> 1 / 32" using a N by simp
  have "1 / 2 ^ 60 \<le> \<bar>N * f\<bar>" and "\<bar>N * f\<bar> < 2 ^ 60" using p a N by (simp_all, linarith+)
  then obtain q where q: "rnd (N * f) = DFin q" "\<bar>q - N * f\<bar> \<le> \<bar>N * f\<bar> / 2 ^ 53"
    using rnd_normal' by blast
  then have q': "\<bar>q - N * f\<bar> \<le> 1 / 16" using p a N by (simp, linarith)
  have "1 / 2 ^ 60 \<le> \<bar>q\<bar>" and "\<bar>q\<bar> < 2 ^ 60" using p q' a N by (simp_all, linarith+)
  then obtain k where k: "rnd q = DFin k" "\<bar>k - q\<bar> \<le> \<bar>q\<bar> / 2 ^ 53"
    using rnd_normal' by blast
  then have k': "\<bar>k - q\<bar> \<le> 1 / 8" using p q' a N by (simp, linarith)
  have "\<bar>f\<bar> \<le> 2"
  proof -
    have "\<bar>a / N\<bar> \<le> 1" using a by simp
    moreover have "x / 2 ^ 53 \<le> x" if "0 \<le> x" for x :: rat using that by simp
    note this [OF abs_ge_zero, of "a / N"]
    ultimately show ?thesis using f(2) by linarith
  qed
  then have "\<bar>1 + - f\<bar> < 2 ^ 52" by simp
  then obtain g where g: "rnd (1 + - f) = DFin g" using rnd_near by blast
  have "spaced_key (DFin 0) (DFin N) (DFin (of_nat n)) i = DFin k"
    using a f(1) g q(1) k(1) unfolding spaced_key_def Let_def da dN
    by (simp add: dsub_def rnd_def [of 0] del: One_nat_def)
  moreover have "\<bar>k - a\<bar> \<le> 1 / 4" using p q' k' by linarith
  ultimately show ?thesis by (auto simp: N_def a_def)
qed

lemma spaced_from_succeeds:
  assumes n: "cnt < 2 ^ 48" and "i \<le> cnt" and "\<bar>p - of_nat i\<bar> \<le> 1 / 4"
  shows "\<exists>ks. spaced_from (DFin 0) (DFin (of_nat cnt + 1)) (DFin (of_nat cnt)) cnt i (DFin p) = Some ks"
  using assms(2,3)
proof (induction "cnt - i" arbitrary: i p)
  case 0
  then show ?case by (simp add: spaced_from.simps [of _ _ _ _ i])
next
  case (Suc x)
  then have i: "i < cnt" by simp
  from spaced_key_near [OF n i] obtain k
    where k: "spaced_key (DFin 0) (DFin (of_nat cnt + 1)) (DFin (of_nat cnt)) i = DFin k"
      "\<bar>k - (of_nat i + 1)\<bar> \<le> 1 / 4" by blast
  have "p < k" using k(2) Suc.prems(2) by linarith
  moreover have "k < of_nat cnt + 1"
  proof -
    have "of_nat i + 1 \<le> (of_nat cnt :: rat)" using i by (metis Suc_leI of_nat_Suc of_nat_le_iff add.commute)
    then show ?thesis using k(2) by linarith
  qed
  moreover have "\<exists>ks. spaced_from (DFin 0) (DFin (of_nat cnt + 1)) (DFin (of_nat cnt)) cnt (i + 1) (DFin k) = Some ks"
    using Suc k(2) i by (intro Suc.hyps(1)) (auto simp: add.commute)
  ultimately show ?case
    using i k(1) by (subst spaced_from.simps) (auto simp: Let_def dle_def deq_def)
qed

lemma spaced_keys_open_succeeds:
  assumes "cnt < 2 ^ 48"
  shows "\<exists>ks. spaced_keys None None cnt = Some ks"
proof -
  have "double_of_nat cnt = DFin (of_nat cnt)" using assms by (intro double_of_nat_exact) simp
  moreover have "dadd (dadd (DFin 0) (DFin (of_nat cnt))) (DFin 1) = DFin (of_nat cnt + 1)"
    using rnd_int [of "int cnt"] rnd_int [of "int cnt + 1"] assms by simp
  ultimately show ?thesis
    using spaced_from_succeeds [OF assms, of 0 0] by (simp add: spaced_keys_def Let_def)
qed

section \<open>Insertion\<close>

definition window :: "card list \<Rightarrow> nat \<Rightarrow> nat \<Rightarrow> nat \<Rightarrow> nat \<Rightarrow> double list \<Rightarrow> i64 \<Rightarrow> card list" where
  "window dest pos block_end low high keys now =
     map (\<lambda>i. if pos \<le> i \<and> i < block_end \<or> \<not> deq (sort_key (dest ! i)) (keys ! (i - low))
              then (dest ! i)\<lparr>sort_key := keys ! (i - low), updated_at := now\<rparr> else dest ! i) [low..<high]"

lemma respace_fst:
  assumes "low \<le> high" and "high \<le> length dest"
  shows "fst (respace dest pos block_end low high keys now)
    = take low dest @ window dest pos block_end low high keys now @ drop high dest"
proof (rule nth_equalityI)
  fix i assume "i < length (fst (respace dest pos block_end low high keys now))"
  then have "i < length dest" by (simp add: respace_def)
  with assms show "fst (respace dest pos block_end low high keys now) ! i
      = (take low dest @ window dest pos block_end low high keys now @ drop high dest) ! i"
    by (auto simp: respace_def window_def nth_append Let_def)
qed (use assms in \<open>simp add: respace_def window_def\<close>)

lemma window_keys:
  assumes "length keys = high - low"
  shows "map sort_key (window dest pos block_end low high keys now) = keys"
  using assms by (intro nth_equalityI) (auto simp: window_def deq_def)

lemma window_ids:
  assumes "low \<le> high" and "high \<le> length dest"
  shows "map card_id (window dest pos block_end low high keys now)
    = map card_id (take (high - low) (drop low dest))"
  using assms by (intro nth_equalityI) (auto simp: window_def)

lemma widen_split:
  assumes "widen dest pos block_end now radius = Inr (dest', chg)"
    and "pos \<le> block_end" and "block_end \<le> length dest"
  shows "\<exists>low high keys. low \<le> pos \<and> block_end \<le> high \<and> high \<le> length dest
    \<and> spaced_keys (if low \<noteq> 0 then Some (sort_key (dest ! (low - 1))) else None)
        (if high < length dest then Some (sort_key (dest ! high)) else None) (high - low) = Some keys
    \<and> (dest', chg) = respace dest pos block_end low high keys now"
  using assms
proof (induction dest pos block_end now radius rule: widen.induct)
  case (1 dest pos block_end now radius)
  let ?low = "if pos > radius then pos - radius else 0"
  let ?high = "min (length dest) (block_end + radius)"
  let ?keys = "spaced_keys (if ?low \<noteq> 0 then Some (sort_key (dest ! (?low - 1))) else None)
        (if ?high < length dest then Some (sort_key (dest ! ?high)) else None) (?high - ?low)"
  show ?case
  proof (cases ?keys)
    case None
    with 1(2) have not_all: "\<not> (?low = 0 \<and> ?high = length dest)"
      and next_try: "widen dest pos block_end now (if radius \<noteq> 0 then radius * 2 else 1) = Inr (dest', chg)"
      by (subst (asm) widen.simps, simp only: Let_def option.case split: if_splits; simp)+
    show ?thesis by (rule 1(1) [OF refl refl refl refl None not_all next_try 1(3,4)])
  next
    case (Some keys)
    with 1(2) have "respace dest pos block_end ?low ?high keys now = (dest', chg)"
      by (subst (asm) widen.simps) (simp only: Let_def option.case sum.inject)
    with Some 1(3,4) show ?thesis
      by (intro exI [of _ ?low] exI [of _ ?high] exI [of _ keys]) auto
  qed
qed

lemma widen_succeeds:
  assumes "length dest < 2 ^ 48"
  shows "\<exists>r. widen dest pos block_end now radius = Inr r"
  using assms
proof (induction dest pos block_end now radius rule: widen.induct)
  case (1 dest pos block_end now radius)
  let ?low = "if pos > radius then pos - radius else 0"
  let ?high = "min (length dest) (block_end + radius)"
  let ?keys = "spaced_keys (if ?low \<noteq> 0 then Some (sort_key (dest ! (?low - 1))) else None)
        (if ?high < length dest then Some (sort_key (dest ! ?high)) else None) (?high - ?low)"
  show ?case
  proof (cases ?keys)
    case None
    have not_all: "\<not> (?low = 0 \<and> ?high = length dest)"
    proof
      assume all: "?low = 0 \<and> ?high = length dest"
      with None have "spaced_keys None None (length dest) = None" by auto
      with spaced_keys_open_succeeds [OF 1(2)] show False by simp
    qed
    from 1(1) [OF refl refl refl refl None not_all 1(2)] None not_all show ?thesis
      by (subst widen.simps) (simp only: Let_def option.case if_False)
  next
    case (Some keys)
    then show ?thesis by (subst widen.simps) (simp only: Let_def option.case, blast)
  qed
qed

abbreviation keyed :: "card \<Rightarrow> bool" where
  "keyed c \<equiv> sort_key c \<noteq> DNan"

lemma tree_less_dle: "keyed a \<Longrightarrow> keyed b \<Longrightarrow> card_tree_less a b \<Longrightarrow> dle (sort_key a) (sort_key b)"
  by (auto simp: card_tree_less_iff dle_def deq_def)

lemma dlt_tree_less: "dlt (sort_key a) (sort_key b) \<Longrightarrow> card_tree_less a b"
  by (simp add: card_tree_less_def)

lemma dle_dlt_trans: "dle x y \<Longrightarrow> dlt y z \<Longrightarrow> dlt x z"
  by (auto simp: dle_def deq_def intro: dlt_trans)

lemma dlt_dle_trans: "dlt x y \<Longrightarrow> dle y z \<Longrightarrow> dlt x z"
  by (auto simp: dle_def deq_def intro: dlt_trans)

lemma sorted_around_window:
  assumes A: "sorted_wrt card_tree_less (A @ C)" and keyed: "list_all keyed (A @ C)"
    and W: "sorted_wrt dlt (map sort_key W)"
    and left: "A \<noteq> [] \<Longrightarrow> \<forall>w \<in> set W. dlt (sort_key (last A)) (sort_key w)"
    and right: "C \<noteq> [] \<Longrightarrow> \<forall>w \<in> set W. dlt (sort_key w) (sort_key (hd C))"
  shows "sorted_wrt card_tree_less (A @ W @ C)"
proof -
  have "card_tree_less a w" if "a \<in> set A" "w \<in> set W" for a w
  proof -
    from that(1) have ne: "A \<noteq> []" by auto
    then obtain A' z where Az: "A = A' @ [z]" by (metis append_butlast_last_id)
    have "a = z \<or> card_tree_less a z" using that(1) A by (auto simp: Az sorted_wrt_append)
    then have "dle (sort_key a) (sort_key z)"
      using tree_less_dle [of a z] keyed that(1) by (auto simp: Az list_all_iff dle_def deq_def)
    with left [OF ne] that(2) Az show ?thesis by (intro dlt_tree_less) (auto intro: dle_dlt_trans)
  qed
  moreover have "card_tree_less w c" if "w \<in> set W" "c \<in> set C" for w c
  proof -
    from that(2) obtain z C' where Cz: "C = z # C'" by (cases C) auto
    have "c = z \<or> card_tree_less z c" using that(2) A by (auto simp: Cz sorted_wrt_append)
    then have "dle (sort_key z) (sort_key c)"
      using tree_less_dle [of z c] keyed that(2) by (auto simp: Cz list_all_iff dle_def deq_def)
    with right that(1) Cz show ?thesis by (intro dlt_tree_less) (auto intro: dlt_dle_trans)
  qed
  moreover have "sorted_wrt card_tree_less W"
    using W unfolding sorted_wrt_map by (rule sorted_wrt_mono_rel [rotated]) (rule dlt_tree_less)
  ultimately show ?thesis using A by (auto simp: sorted_wrt_append)
qed

lemma respace_snd:
  "set (snd (respace dest pos block_end low high keys now)) \<subseteq> set (window dest pos block_end low high keys now)"
  "w \<in> set (window dest pos block_end low high keys now) \<Longrightarrow>
     w \<in> set (snd (respace dest pos block_end low high keys now))
     \<or> (\<exists>i. low \<le> i \<and> i < high \<and> \<not> (pos \<le> i \<and> i < block_end) \<and> w = dest ! i)"
  "low \<le> pos \<Longrightarrow> block_end \<le> high \<Longrightarrow> pos \<le> i \<Longrightarrow> i < block_end \<Longrightarrow>
     (dest ! i)\<lparr>sort_key := keys ! (i - low), updated_at := now\<rparr> \<in> set (snd (respace dest pos block_end low high keys now))"
  by (auto simp: respace_def window_def Let_def image_iff intro: exI [of _ i])

lemma nth_slice:
  "low \<le> i \<Longrightarrow> i < high \<Longrightarrow> high \<le> length xs \<Longrightarrow> xs ! i = take (high - low) (drop low xs) ! (i - low)"
  by simp

lemma insert_block_into_split:
  assumes r: "insert_block_into dest pos block parent now = Inr (dest', chg)" and pos: "pos \<le> length dest"
    and block: "block \<noteq> []"
  obtains A M C W where "dest = A @ M @ C" "dest' = A @ W @ C"
    "length A \<le> pos" "pos \<le> length A + length M"
    "map card_id W = map card_id (take (pos - length A) M @ block @ drop (pos - length A) M)"
    "sorted_wrt dlt (map sort_key W)" "list_all isfinite (map sort_key W)"
    "A \<noteq> [] \<and> keyed (last A) \<longrightarrow> (\<forall>w \<in> set W. dlt (sort_key (last A)) (sort_key w))"
    "C \<noteq> [] \<and> keyed (hd C) \<longrightarrow> (\<forall>w \<in> set W. dlt (sort_key w) (sort_key (hd C)))"
    "set chg \<subseteq> set W" "set W \<subseteq> set chg \<union> set M"
    "\<forall>c \<in> set block. \<exists>k. c\<lparr>parent_card_id := parent, sort_key := k, updated_at := now\<rparr> \<in> set chg"
proof -
  let ?placed = "map (\<lambda>c. c\<lparr>parent_card_id := parent\<rparr>) block"
  let ?all = "take pos dest @ ?placed @ drop pos dest" and ?be = "pos + length block"
  have "widen ?all pos ?be now 0 = Inr (dest', chg)"
    using r block by (simp add: insert_block_into_def Let_def)
  from widen_split [OF this] pos obtain low high keys where
    b: "low \<le> pos" "?be \<le> high" "high \<le> length ?all"
    and k: "spaced_keys (if low \<noteq> 0 then Some (sort_key (?all ! (low - 1))) else None)
        (if high < length ?all then Some (sort_key (?all ! high)) else None) (high - low) = Some keys"
    and res: "(dest', chg) = respace ?all pos ?be low high keys now" by auto
  define W where "W = window ?all pos ?be low high keys now"
  define A where "A = take low dest"
  define C where "C = drop (high - length block) dest"
  define M where "M = take (high - length block - low) (drop low dest)"
  have lh: "low \<le> high" using b by simp
  have "dest' = fst (respace ?all pos ?be low high keys now)" using res by (metis fst_conv)
  then have dest': "dest' = take low ?all @ W @ drop high ?all"
    using respace_fst [OF lh b(3)] by (simp add: W_def)
  have A': "take low ?all = A" using b pos by (simp add: A_def)
  have C': "drop high ?all = C" using b pos by (simp add: C_def)
  have mid: "take (high - low) (drop low ?all) = take (pos - low) (drop low dest) @ ?placed
      @ take (high - ?be) (drop pos dest)"
    using b pos by (simp add: drop_take)
  have "drop (high - length block - low) (drop low dest) = C" using b by (simp add: C_def)
  then have "drop low dest = M @ C" unfolding M_def by (metis append_take_drop_id)
  then have dest: "dest = A @ M @ C" unfolding A_def by (metis append_take_drop_id)
  have lenA: "length A = low" and lenM: "length M = high - length block - low"
    using b pos by (auto simp: A_def M_def)
  have M: "take (pos - low) (drop low dest) = take (pos - low) M" "take (high - ?be) (drop pos dest) = drop (pos - low) M"
    using b pos by (auto simp: M_def drop_take add.commute)
  note s = spaced_keys_sound [OF k]
  have keys: "map sort_key W = keys" unfolding W_def by (rule window_keys [OF s(1)])
  have ids: "map card_id W = map card_id (take (high - low) (drop low ?all))"
    unfolding W_def by (rule window_ids [OF lh b(3)])
  show thesis
  proof (rule that [of A M C W])
    show "dest = A @ M @ C" by (rule dest)
    show "dest' = A @ W @ C" using dest' A' C' by simp
    show "length A \<le> pos" "pos \<le> length A + length M" using b by (auto simp: lenA lenM)
    show "map card_id W = map card_id (take (pos - length A) M @ block @ drop (pos - length A) M)"
      unfolding ids mid lenA M by simp
    show "sorted_wrt dlt (map sort_key W)" "list_all isfinite (map sort_key W)" using s(2,3) keys by auto
    show "A \<noteq> [] \<and> keyed (last A) \<longrightarrow> (\<forall>w \<in> set W. dlt (sort_key (last A)) (sort_key w))"
    proof (intro impI ballI)
      fix w assume that: "A \<noteq> [] \<and> keyed (last A)" and "w \<in> set W"
      then have w: "sort_key w \<in> set keys" using keys by (metis image_eqI set_map)
      have "low \<noteq> 0" using that lenA by auto
      moreover have "?all ! (low - 1) = last A"
        using that b(1) pos lenA by (cases low) (auto simp: last_conv_nth nth_append A_def)
      ultimately show "dlt (sort_key (last A)) (sort_key w)" using s(4) [OF _ conjunct2 [OF that] w] by simp
    qed
    show "C \<noteq> [] \<and> keyed (hd C) \<longrightarrow> (\<forall>w \<in> set W. dlt (sort_key w) (sort_key (hd C)))"
    proof (intro impI ballI)
      fix w assume that: "C \<noteq> [] \<and> keyed (hd C)" and "w \<in> set W"
      then have w: "sort_key w \<in> set keys" using keys by (metis image_eqI set_map)
      have "high < length ?all" using that C' by (metis drop_eq_Nil linorder_not_le)
      moreover from this have "?all ! high = hd C" unfolding C' [symmetric] by (rule hd_drop_conv_nth [symmetric])
      ultimately show "dlt (sort_key w) (sort_key (hd C))" using s(5) [OF _ conjunct2 [OF that] w] by simp
    qed
    have chg: "chg = snd (respace ?all pos ?be low high keys now)" using res by (metis snd_conv)
    show "set chg \<subseteq> set W" unfolding chg W_def by (rule respace_snd(1))
    show "set W \<subseteq> set chg \<union> set M"
    proof
      fix w assume "w \<in> set W"
      then consider "w \<in> set chg" | i where "low \<le> i" "i < high" "\<not> (pos \<le> i \<and> i < ?be)" "w = ?all ! i"
        using respace_snd(2) unfolding chg W_def by blast
      then show "w \<in> set chg \<union> set M"
      proof cases
        case (2 i)
        have "?all ! i = take (high - low) (drop low ?all) ! (i - low)"
          by (rule nth_slice [OF 2(1,2) b(3)])
        also have "\<dots> = (take (pos - low) M @ ?placed @ drop (pos - low) M) ! (i - low)" by (simp only: mid M)
        also have "\<dots> \<in> set M"
        proof (cases "i < pos")
          case True
          then have "i - low < length (take (pos - low) M)" using 2(1) b lenM by simp
          then show ?thesis by (simp add: nth_append)
        next
          case False
          then have "?be \<le> i" using 2(3) by simp
          then have "(take (pos - low) M @ ?placed @ drop (pos - low) M) ! (i - low)
              = drop (pos - low) M ! (i - ?be)"
            using b lenM by (simp add: nth_append)
          moreover have "i - ?be < length (drop (pos - low) M)" using 2(2) \<open>?be \<le> i\<close> b lenM by simp
          ultimately show ?thesis by (metis in_set_dropD nth_mem)
        qed
        finally show ?thesis using 2(4) by simp
      qed simp
    qed
    show "\<forall>c \<in> set block. \<exists>k. c\<lparr>parent_card_id := parent, sort_key := k, updated_at := now\<rparr> \<in> set chg"
    proof
      fix c assume "c \<in> set block"
      then obtain j where j: "j < length block" "c = block ! j" by (metis in_set_conv_nth)
      then have "?all ! (pos + j) = c\<lparr>parent_card_id := parent\<rparr>" using pos by (simp add: nth_append)
      then show "\<exists>k. c\<lparr>parent_card_id := parent, sort_key := k, updated_at := now\<rparr> \<in> set chg"
        using respace_snd(3) [OF b(1,2), where i = "pos + j" and dest = ?all and keys = keys and now = now] j(1) unfolding chg by auto
    qed
  qed
qed

lemma insert_block_into_props:
  assumes r: "insert_block_into dest pos block parent now = Inr (dest', chg)"
    and pos: "pos \<le> length dest" and sorted: "sorted_wrt card_tree_less dest" and keyed: "list_all keyed dest"
  shows "map card_id dest' = map card_id (take pos dest @ block @ drop pos dest)
    \<and> sorted_wrt card_tree_less dest' \<and> list_all keyed dest'
    \<and> set chg \<subseteq> set dest' \<and> set dest' \<subseteq> set chg \<union> set dest \<and> (\<forall>c \<in> set chg. isfinite (sort_key c))
    \<and> (\<forall>c \<in> set block. \<exists>k. c\<lparr>parent_card_id := parent, sort_key := k, updated_at := now\<rparr> \<in> set chg)"
proof (cases "block = []")
  case True
  with r sorted keyed show ?thesis by (auto simp: insert_block_into_def simp flip: map_append)
next
  case False
  obtain A M C W where
    d: "dest = A @ M @ C" "dest' = A @ W @ C" and len: "length A \<le> pos" "pos \<le> length A + length M"
    and ids: "map card_id W = map card_id (take (pos - length A) M @ block @ drop (pos - length A) M)"
    and W: "sorted_wrt dlt (map sort_key W)" "list_all isfinite (map sort_key W)"
    and left: "A \<noteq> [] \<and> keyed (last A) \<longrightarrow> (\<forall>w \<in> set W. dlt (sort_key (last A)) (sort_key w))"
    and right: "C \<noteq> [] \<and> keyed (hd C) \<longrightarrow> (\<forall>w \<in> set W. dlt (sort_key w) (sort_key (hd C)))"
    and chg: "set chg \<subseteq> set W" "set W \<subseteq> set chg \<union> set M"
      "\<forall>c \<in> set block. \<exists>k. c\<lparr>parent_card_id := parent, sort_key := k, updated_at := now\<rparr> \<in> set chg"
    by (rule insert_block_into_split [OF r pos False])
  have kA: "A \<noteq> [] \<Longrightarrow> keyed (last A)" and kC: "C \<noteq> [] \<Longrightarrow> keyed (hd C)"
    using keyed by (auto simp: d list_all_iff)
  have "sorted_wrt card_tree_less (A @ W @ C)"
    by (rule sorted_around_window [OF _ _ W(1)])
      (use sorted keyed left right kA kC in \<open>auto simp: d sorted_wrt_append\<close>)
  moreover have "list_all keyed (A @ W @ C)" using keyed W(2) by (auto simp: d list_all_iff)
  moreover have "map card_id (A @ W @ C) = map card_id (take pos dest @ block @ drop pos dest)"
    using len ids by (simp add: d)
  moreover have "\<forall>c \<in> set chg. isfinite (sort_key c)" using W(2) chg(1) by (auto simp: list_all_iff)
  ultimately show ?thesis using chg by (auto simp: d)
qed

text \<open>
  C24: cards inserted at a position of a sorted list of siblings end up exactly there. The new list
  holds the old siblings and the block in the requested order, it is sorted by the tree order, its
  fresh keys are finite, every card that is not reported as changed is an old sibling left as it
  was, and every card of the block is reported under its new parent.
\<close>

theorem insert_block_into_correct:
  assumes r: "insert_block_into dest pos block parent now = Inr (dest', chg)"
    and pos: "pos \<le> length dest" and sorted: "sorted_wrt card_tree_less dest" and keyed: "list_all keyed dest"
  shows "map card_id dest' = map card_id (take pos dest @ block @ drop pos dest)
    \<and> sorted_wrt card_tree_less dest' \<and> list_all keyed dest'
    \<and> set chg \<subseteq> set dest' \<and> set dest' \<subseteq> set chg \<union> set dest \<and> (\<forall>c \<in> set chg. isfinite (sort_key c))
    \<and> (\<forall>c \<in> set block. \<exists>k. c\<lparr>parent_card_id := parent, sort_key := k, updated_at := now\<rparr> \<in> set chg)"
  using insert_block_into_props [OF assms] .

lemma insert_block_into_succeeds:
  assumes "length dest + length block < 2 ^ 48"
  shows "\<exists>dest' chg. insert_block_into dest pos block parent now = Inr (dest', chg)"
proof -
  have "length (take pos dest @ map (\<lambda>c. c\<lparr>parent_card_id := parent\<rparr>) block @ drop pos dest) < 2 ^ 48"
    using assms by simp
  from widen_succeeds [OF this, of pos "pos + length block" now 0] show ?thesis
    by (auto simp: insert_block_into_def Let_def)
qed

theorem insert_block_into_correct_witness:
  "\<exists>dest' chg. insert_block_into [demo_card ''a'' 1, demo_card ''b'' 2] 1 [demo_card ''c'' 9] None 7 = Inr (dest', chg)
     \<and> map card_id dest' = [''a'', ''c'', ''b''] \<and> sorted_wrt card_tree_less dest'"
proof -
  let ?d = "[demo_card ''a'' 1, demo_card ''b'' 2]"
  obtain dest' chg where r: "insert_block_into ?d 1 [demo_card ''c'' 9] None 7 = Inr (dest', chg)"
    using insert_block_into_succeeds [of ?d "[demo_card ''c'' 9]" 1 None 7] by auto
  have "sorted_wrt card_tree_less ?d" "list_all keyed ?d"
    by (simp_all add: card_tree_less_def demo_card_def)
  from insert_block_into_correct [OF r _ this] r show ?thesis by (simp add: demo_card_def)
qed

text \<open>
  C25: insertion never gives up. For any list of fewer than \<open>2 ^ 48\<close> cards, whatever their keys, the
  widening window finds keys and the exception for missing keys is not thrown.
\<close>

theorem insert_block_total:
  assumes "length dest + length block < 2 ^ 48"
  shows "\<exists>chg. insert_block dest pos block parent now = Inr chg"
  using insert_block_into_succeeds [OF assms, of pos parent now] by (auto simp: insert_block_def)

theorem insert_block_total_witness:
  "\<exists>chg. insert_block [demo_card ''a'' 1, demo_card ''b'' 1] 1 [demo_card ''c'' 9] None 7 = Inr chg"
  by (rule insert_block_total) simp

end
