(* ===== verification/Card_Tree.thy ===== *)
theory Card_Tree
  imports Card_Hierarchy
begin

text \<open>
  The parent relation of cards as a forest: what the ancestor walk of
  \<open>src/src/card/CardHierarchy.cpp\<close> establishes about it, and what moves keep of it.
\<close>

section \<open>Paths to a root\<close>

text \<open>
  \<open>live_path d pid q path\<close>: the card \<open>q\<close> and its ancestors up to a root card, all of them live cards
  of the project. A card with such a path is what browsing from the roots can reach.
\<close>

inductive live_path :: "db \<Rightarrow> string \<Rightarrow> string \<Rightarrow> string list \<Rightarrow> bool" for d pid where
  root: "cards_get q d = Some r \<Longrightarrow> project_id r = pid \<Longrightarrow> is_live r \<Longrightarrow> parent_card_id r = None
    \<Longrightarrow> live_path d pid q [q]"
| child: "cards_get q d = Some r \<Longrightarrow> project_id r = pid \<Longrightarrow> is_live r \<Longrightarrow> parent_card_id r = Some p
    \<Longrightarrow> live_path d pid p path \<Longrightarrow> live_path d pid q (q # path)"

inductive_cases live_pathE: "live_path d pid q path"

definition browsable :: "db \<Rightarrow> string \<Rightarrow> string \<Rightarrow> bool" where
  "browsable d pid q \<longleftrightarrow> (\<exists>path. live_path d pid q path)"

lemma live_path_hd: "live_path d pid q path \<Longrightarrow> \<exists>rest. path = q # rest"
  by (auto elim: live_path.cases)

lemma live_path_unique: "live_path d pid q path \<Longrightarrow> live_path d pid q path' \<Longrightarrow> path = path'"
proof (induction arbitrary: path' rule: live_path.induct)
  case (root q r)
  from root.prems root.hyps show ?case by (auto elim: live_path.cases)
next
  case (child q r p path)
  from child.prems child.hyps obtain path2 where "path' = q # path2" "live_path d pid p path2"
    by (auto elim: live_path.cases)
  with child.IH show ?case by simp
qed

lemma live_path_suffix:
  assumes "live_path d pid q path" and "x \<in> set path"
  shows "\<exists>pre suf. path = pre @ suf \<and> live_path d pid x suf \<and> x \<notin> set pre"
  using assms
proof (induction rule: live_path.induct)
  case (root q r)
  then show ?case using live_path.root by fastforce
next
  case (child q r p path)
  show ?case
  proof (cases "x = q")
    case True
    with child live_path.child [OF child.hyps] show ?thesis by (intro exI [of _ "[]"] exI [of _ "q # path"]) auto
  next
    case False
    with child obtain pre suf where "path = pre @ suf" "live_path d pid x suf" "x \<notin> set pre" by auto
    with False show ?thesis by (intro exI [of _ "q # pre"] exI [of _ suf]) auto
  qed
qed

lemma live_path_distinct: "live_path d pid q path \<Longrightarrow> distinct path"
proof (induction rule: live_path.induct)
  case (child q r p path)
  have "q \<notin> set path"
  proof
    assume "q \<in> set path"
    then obtain pre suf where "path = pre @ suf" "live_path d pid q suf"
      using live_path_suffix [OF child.hyps(5)] by blast
    moreover have "live_path d pid q (q # path)" by (rule live_path.child) fact+
    ultimately show False using live_path_unique [of d pid q suf "q # path"] by simp
  qed
  with child.IH show ?case by simp
qed simp

lemma live_path_rows:
  assumes "live_path d pid q path" and "x \<in> set path"
  shows "\<exists>r. cards_get x d = Some r \<and> project_id r = pid \<and> is_live r"
  using assms by (induction rule: live_path.induct) auto

section \<open>The walk finds the nearest card with a live path\<close>

abbreviation step_candidate :: "string option \<Rightarrow> card \<Rightarrow> string option" where
  "step_candidate cand a \<equiv> (if deleted_at a \<noteq> None then None
     else if cand = None then Some (card_id a) else cand)"

lemma reachable_walk_simps [simp]:
  "reachable_walk d pid visited None cand = Inr cand"
  "p \<in> set visited \<Longrightarrow> reachable_walk d pid visited (Some p) cand = Inl (RuntimeError ''move_would_create_cycle'')"
  "p \<notin> set visited \<Longrightarrow> cards_get p d = None \<Longrightarrow> reachable_walk d pid visited (Some p) cand = Inr None"
  "p \<notin> set visited \<Longrightarrow> cards_get p d = Some a \<Longrightarrow> project_id a \<noteq> pid \<Longrightarrow>
     reachable_walk d pid visited (Some p) cand = Inr None"
  "p \<notin> set visited \<Longrightarrow> cards_get p d = Some a \<Longrightarrow> project_id a = pid \<Longrightarrow>
     reachable_walk d pid visited (Some p) cand
       = reachable_walk d pid (p # visited) (parent_card_id a) (step_candidate cand a)"
  by (subst reachable_walk.simps; simp)+

lemma cards_get_id: "wf_db d \<Longrightarrow> cards_get p d = Some a \<Longrightarrow> nul_free p \<Longrightarrow> card_id a = p"
  by (simp add: cards_get_iff)

lemma parent_nul_free: "wf_db d \<Longrightarrow> cards_get p d = Some a \<Longrightarrow> parent_card_id a = Some q \<Longrightarrow> nul_free q"
  using cards_row_ok row_okD(8) by (metis cards_get_iff)

definition live_above :: "db \<Rightarrow> string \<Rightarrow> string list \<Rightarrow> string option \<Rightarrow> bool" where
  "live_above d pid visited n \<longleftrightarrow>
     (case n of None \<Rightarrow> True | Some q \<Rightarrow> \<exists>path. live_path d pid q path \<and> set path \<inter> set visited = {})"

lemma live_above_step:
  assumes "cards_get p d = Some a" and "project_id a = pid" and "is_live a"
    and "live_above d pid (p # visited) (parent_card_id a)" and "p \<notin> set visited"
  shows "\<exists>path. live_path d pid p path \<and> set path \<inter> set visited = {}"
proof (cases "parent_card_id a")
  case None
  with assms show ?thesis by (intro exI [of _ "[p]"]) (auto intro: live_path.root)
next
  case (Some q)
  with assms(4) obtain path where "live_path d pid q path" "set path \<inter> set (p # visited) = {}"
    by (auto simp: live_above_def)
  with Some assms show ?thesis by (intro exI [of _ "p # path"]) (auto intro: live_path.child)
qed

lemma reachable_walk_sound:
  assumes "wf_db d" and "reachable_walk d pid visited n cand = Inr (Some p)"
    and "\<And>q. n = Some q \<Longrightarrow> nul_free q"
  shows "cand = Some p \<and> live_above d pid visited n
    \<or> (\<exists>path. live_path d pid p path \<and> set path \<inter> set visited = {})"
  using assms
proof (induction d pid visited n cand rule: reachable_walk.induct)
  case (1 d pid visited n cand)
  show ?case
  proof (cases n)
    case None
    with 1 show ?thesis by (simp add: live_above_def)
  next
    case (Some q)
    have nq: "q \<notin> set visited" using 1(3) Some by auto
    then obtain a where a: "cards_get q d = Some a" "project_id a = pid"
      using 1(3) Some by (cases "cards_get q d") (auto split: if_splits, fastforce)
    have ida: "card_id a = q" using cards_get_id [OF 1(2) a(1)] 1(4) Some by simp
    have rest: "reachable_walk d pid (q # visited) (parent_card_id a) (step_candidate cand a) = Inr (Some p)"
      using 1(3) Some nq a by simp
    have IH: "step_candidate cand a = Some p \<and> live_above d pid (q # visited) (parent_card_id a)
        \<or> (\<exists>path. live_path d pid p path \<and> set path \<inter> set (q # visited) = {})"
      using 1(1) [OF Some nq a(1) _ 1(2) rest] a(2) parent_nul_free [OF 1(2) a(1)] by simp
    then show ?thesis
    proof
      assume h: "step_candidate cand a = Some p \<and> live_above d pid (q # visited) (parent_card_id a)"
      then have live: "is_live a" by (auto split: if_splits)
      from live_above_step [OF a live _ nq] h
      have path: "\<exists>path. live_path d pid q path \<and> set path \<inter> set visited = {}" by blast
      show ?thesis
      proof (cases cand)
        case None
        then show ?thesis using h live path ida by auto
      next
        case (Some x)
        then show ?thesis using h live path \<open>n = Some q\<close> by (auto simp: live_above_def)
      qed
    qed auto
  qed
qed

lemma reachable_walk_complete:
  assumes "live_path d pid q path" and "wf_db d" and "nul_free q" and "set path \<inter> set visited = {}"
  shows "reachable_walk d pid visited (Some q) cand = Inr (if cand = None then Some q else cand)"
  using assms
proof (induction arbitrary: visited cand rule: live_path.induct)
  case (root q r)
  with cards_get_id [OF root(5) root(1) root(6)] show ?case by simp
next
  case (child q r p path)
  have "q \<notin> set path" using live_path_distinct [OF live_path.child [OF child(1-5)]] by simp
  with child have "reachable_walk d pid (q # visited) (Some p) (step_candidate cand r)
      = Inr (if step_candidate cand r = None then Some p else step_candidate cand r)"
    by (intro child.IH) (auto dest: parent_nul_free)
  with child cards_get_id [OF child(7) child(1) child(8)] show ?case by simp
qed

text \<open>
  C30: the placement \<open>reachable_card_parent\<close> finds for a card is a root place or a card that browsing
  from the roots reaches; the card itself is not on the path to it.
\<close>

theorem reachable_card_parent_browsable:
  assumes "wf_db d" and "reachable_card_parent c d = Inr (Some p)"
    and "\<forall>q. parent_card_id c = Some q \<longrightarrow> nul_free q"
  shows "\<exists>path. live_path d (project_id c) p path \<and> card_id c \<notin> set path"
  using reachable_walk_sound [OF assms(1) assms(2) [unfolded reachable_card_parent_def]] assms(3) by auto

definition demo_tree :: db where
  "demo_tree = demo_db\<lparr>cards := [demo_card ''aa01'' 0, demo_card ''bb02'' 1\<lparr>parent_card_id := Some ''aa01''\<rparr>,
     demo_card ''cc03'' 1\<lparr>parent_card_id := Some ''bb02'', deleted_at := Some 9\<rparr>]\<rparr>"

lemma wf_demo_tree [simp]: "wf_db demo_tree"
  by (simp add: wf_db_defs demo_tree_def demo_db_def demo_card_def demo_project_def row_ok_def nul_free_def
      parent_row_exists_def)

theorem reachable_card_parent_browsable_witness:
  "\<exists>path. live_path demo_tree ''p'' ''bb02'' path \<and> ''dd04'' \<notin> set path"
proof -
  let ?c = "demo_card ''dd04'' 1\<lparr>parent_card_id := Some ''cc03''\<rparr>"
  have "reachable_card_parent ?c demo_tree = Inr (Some ''bb02'')" by code_simp
  from reachable_card_parent_browsable [OF wf_demo_tree this] show ?thesis
    by (simp add: demo_card_def nul_free_def)
qed

text \<open>
  C26: \<open>validate_card_parent\<close> accepts a placement exactly when it is a root place, or a card that
  browsing from the roots reaches on a path that does not go through the placed card.
\<close>

theorem validate_card_parent_iff:
  assumes wf: "wf_db d" and nul: "\<forall>q. parent_card_id c = Some q \<longrightarrow> nul_free q"
  shows "validate_card_parent c d = Inr () \<longleftrightarrow>
    (case parent_card_id c of None \<Rightarrow> True
     | Some p \<Rightarrow> \<exists>path. live_path d (project_id c) p path \<and> card_id c \<notin> set path)"
proof (cases "parent_card_id c")
  case None
  then show ?thesis by (simp add: validate_card_parent_def reachable_card_parent_def)
next
  case (Some p)
  have "validate_card_parent c d = Inr () \<longleftrightarrow> reachable_card_parent c d = Inr (Some p)"
    using Some by (auto simp: validate_card_parent_def rbind_eq_Inr)
  also have "\<dots> \<longleftrightarrow> (\<exists>path. live_path d (project_id c) p path \<and> card_id c \<notin> set path)"
  proof
    assume "reachable_card_parent c d = Inr (Some p)"
    then show "\<exists>path. live_path d (project_id c) p path \<and> card_id c \<notin> set path"
      using reachable_walk_sound [OF wf, of "project_id c" "[card_id c]" "parent_card_id c" None p] nul
      by (auto simp: reachable_card_parent_def)
  next
    assume "\<exists>path. live_path d (project_id c) p path \<and> card_id c \<notin> set path"
    then show "reachable_card_parent c d = Inr (Some p)"
      using reachable_walk_complete [OF _ wf, of "project_id c" p _ "[card_id c]" None] nul Some
      by (auto simp: reachable_card_parent_def)
  qed
  finally show ?thesis using Some by simp
qed

theorem validate_card_parent_iff_witness:
  "\<exists>path. live_path demo_tree ''p'' ''bb02'' path \<and> ''dd04'' \<notin> set path"
proof -
  let ?c = "demo_card ''dd04'' 1\<lparr>parent_card_id := Some ''bb02''\<rparr>"
  have "validate_card_parent ?c demo_tree = Inr ()" by code_simp
  with validate_card_parent_iff [OF wf_demo_tree, of ?c] show ?thesis
    by (simp add: demo_card_def nul_free_def)
qed

section \<open>Validated moves keep every card reachable\<close>

definition all_browsable :: "db \<Rightarrow> string \<Rightarrow> bool" where
  "all_browsable d pid \<longleftrightarrow>
     (\<forall>r \<in> set (cards d). project_id r = pid \<and> is_live r \<longrightarrow> browsable d pid (card_id r))"

lemma find_map_key:
  assumes "\<And>r. k (f r) = k r"
  shows "find (\<lambda>r. k r = a) (update_where (\<lambda>r. k r = b) f rows)
    = (if a = b then map_option f (find (\<lambda>r. k r = a) rows) else find (\<lambda>r. k r = a) rows)"
  using assms by (induction rows) (auto simp: update_where_def)

lemma cards_get_update:
  assumes "\<And>r. card_id (f r) = card_id r"
  shows "cards_get q (update_cards cid f d)
    = (if c_str q = c_str cid then map_option f (cards_get q d) else cards_get q d)"
  using assms by (simp add: cards_get_def find_map_key)

lemma cards_move_update:
  "cards_move cid parent key now d = Inr d' \<Longrightarrow>
     d' = update_cards cid (\<lambda>r. r\<lparr>parent_card_id := map_option c_str parent, sort_key := key, updated_at := now\<rparr>) d"
  by (auto simp: cards_move_def split: if_splits)

lemma live_path_update_other:
  assumes "live_path d pid q path" and "\<And>x. x \<in> set path \<Longrightarrow> c_str x \<noteq> c_str cid"
    and "\<And>r. card_id (f r) = card_id r"
  shows "live_path (update_cards cid f d) pid q path"
  using assms(1,2)
proof (induction rule: live_path.induct)
  case (root q r)
  then show ?case by (intro live_path.root [of _ _ r]) (auto simp: cards_get_update assms(3))
next
  case (child q r p path)
  then show ?case by (intro live_path.child [of _ _ r _ p]) (auto simp: cards_get_update assms(3))
qed

lemma live_path_label:
  "live_path d pid q path \<Longrightarrow> wf_db d \<Longrightarrow> nul_free q \<Longrightarrow> x \<in> set path \<Longrightarrow> nul_free x"
  by (induction rule: live_path.induct) (auto dest: parent_nul_free)

abbreviation moved_to :: "string \<Rightarrow> string option \<Rightarrow> double \<Rightarrow> i64 \<Rightarrow> db \<Rightarrow> db" where
  "moved_to cid parent key now d \<equiv> update_cards cid (\<lambda>r. r\<lparr>parent_card_id := map_option c_str parent,
     sort_key := key, updated_at := now\<rparr>) d"

lemma browsable_after_move:
  assumes wf: "wf_db d" and cid: "nul_free cid" "cards_get cid d = Some c" "is_live c" "project_id c = pid"
    and target: "\<And>p. parent = Some p \<Longrightarrow> nul_free p \<and> (\<exists>path. live_path d pid p path \<and> cid \<notin> set path)"
    and q: "live_path d pid q path"
  shows "browsable (moved_to cid parent key now d) pid q"
proof -
  let ?d = "moved_to cid parent key now d"
  have same: "cards_get x ?d = cards_get x d" if "c_str x \<noteq> cid" for x
    using that cid(1) by (simp add: cards_get_update)
  have moved: "browsable ?d pid x" if x: "c_str x = cid" for x
  proof -
    have "cards_get x ?d = map_option (\<lambda>r. r\<lparr>parent_card_id := map_option c_str parent, sort_key := key,
        updated_at := now\<rparr>) (cards_get x d)"
      using x cid(1) by (simp add: cards_get_update)
    moreover have "cards_get x d = Some c" using cid(1,2) x by (simp add: cards_get_def)
    ultimately have row: "cards_get x ?d = Some (c\<lparr>parent_card_id := map_option c_str parent, sort_key := key,
        updated_at := now\<rparr>)" by simp
    show ?thesis
    proof (cases parent)
      case None
      have "live_path ?d pid x [x]" by (rule live_path.root [OF row]) (use cid None in simp_all)
      then show ?thesis by (auto simp: browsable_def)
    next
      case (Some p)
      from target [OF this] obtain pp where p: "nul_free p" "live_path d pid p pp" "cid \<notin> set pp" by blast
      have "live_path ?d pid p pp"
      proof (rule live_path_update_other [OF p(2)])
        fix y assume y: "y \<in> set pp"
        then have "nul_free y" using live_path_label [OF p(2) wf p(1)] by blast
        with y p(3) cid(1) show "c_str y \<noteq> c_str cid" by auto
      qed simp
      from live_path.child [OF row _ _ _ this] have "live_path ?d pid x (x # pp)" using cid Some p(1) by simp
      then show ?thesis by (auto simp: browsable_def)
    qed
  qed
  from q show ?thesis
  proof (induction rule: live_path.induct)
    case (root q r)
    with same [of q] moved [of q] show ?case
      by (cases "c_str q = cid") (auto simp: browsable_def intro: live_path.root)
  next
    case (child q r p path)
    with same [of q] moved [of q] show ?case
      by (cases "c_str q = cid") (auto simp: browsable_def intro: live_path.child)
  qed
qed

text \<open>
  C27: a move that \<open>validate_card_parent\<close> accepts keeps every live card of the project reachable from
  the roots; in particular it never closes a cycle and never hides a branch.
\<close>

theorem validated_move_keeps_tree:
  assumes wf: "wf_db d" and c: "c \<in> set (cards d)" "is_live c"
    and nul: "\<forall>q. parent = Some q \<longrightarrow> nul_free q"
    and valid: "validate_card_parent (c\<lparr>parent_card_id := parent\<rparr>) d = Inr ()"
    and move: "cards_move (card_id c) parent key now d = Inr d'"
    and before: "all_browsable d (project_id c)"
  shows "all_browsable d' (project_id c)"
proof -
  have d': "d' = moved_to (card_id c) parent key now d" by (rule cards_move_update [OF move])
  have nc: "nul_free (card_id c)" using row_okD(1) [OF cards_row_ok [OF wf c(1)]] .
  have get: "cards_get (card_id c) d = Some c" using cards_get_iff [OF wf] c(1) nc by simp
  have target: "nul_free p \<and> (\<exists>path. live_path d (project_id c) p path \<and> card_id c \<notin> set path)"
    if "parent = Some p" for p
    using reachable_walk_sound [OF wf, of "project_id c" "[card_id c]" parent None p] nul valid that
    by (auto simp: validate_card_parent_def reachable_card_parent_def rbind_eq_Inr)
  show ?thesis unfolding all_browsable_def
  proof (intro ballI impI)
    fix r' assume "r' \<in> set (cards d')" and r': "project_id r' = project_id c \<and> is_live r'"
    then obtain r where "r \<in> set (cards d)" "card_id r = card_id r'" "project_id r = project_id c" "is_live r"
      unfolding d' by (auto simp: update_where_def split: if_splits)
    with before obtain path where "live_path d (project_id c) (card_id r') path"
      by (metis all_browsable_def browsable_def)
    then show "browsable d' (project_id c) (card_id r')"
      unfolding d' using browsable_after_move [OF wf nc get c(2) refl target] by blast
  qed
qed

definition demo_forest :: db where
  "demo_forest = demo_db\<lparr>cards := [demo_card ''aa01'' 0, demo_card ''bb02'' 1\<lparr>parent_card_id := Some ''aa01''\<rparr>,
     demo_card ''cc03'' 1\<lparr>parent_card_id := Some ''bb02''\<rparr>]\<rparr>"

lemma wf_demo_forest [simp]: "wf_db demo_forest"
  by (simp add: wf_db_defs demo_forest_def demo_db_def demo_card_def demo_project_def row_ok_def nul_free_def
      parent_row_exists_def)

lemma demo_forest_browsable: "all_browsable demo_forest ''p''"
proof -
  have get: "cards_get ''aa01'' demo_forest = Some (demo_card ''aa01'' 0)"
    "cards_get ''bb02'' demo_forest = Some (demo_card ''bb02'' 1\<lparr>parent_card_id := Some ''aa01''\<rparr>)"
    "cards_get ''cc03'' demo_forest = Some (demo_card ''cc03'' 1\<lparr>parent_card_id := Some ''bb02''\<rparr>)"
    by code_simp+
  have a: "live_path demo_forest ''p'' ''aa01'' [''aa01'']"
    by (rule live_path.root [OF get(1)]) (simp_all add: demo_card_def)
  have b: "live_path demo_forest ''p'' ''bb02'' [''bb02'', ''aa01'']"
    by (rule live_path.child [OF get(2) _ _ _ a]) (simp_all add: demo_card_def)
  have "live_path demo_forest ''p'' ''cc03'' [''cc03'', ''bb02'', ''aa01'']"
    by (rule live_path.child [OF get(3) _ _ _ b]) (simp_all add: demo_card_def)
  with a b show ?thesis
    by (auto simp: all_browsable_def browsable_def demo_forest_def demo_card_def)
qed

theorem validated_move_keeps_tree_witness:
  "\<exists>d'. cards_move ''cc03'' (Some ''aa01'') (DFin 4) 9 demo_forest = Inr d' \<and> all_browsable d' ''p''"
proof -
  let ?c = "demo_card ''cc03'' 1\<lparr>parent_card_id := Some ''bb02''\<rparr>"
  have "validate_card_parent (?c\<lparr>parent_card_id := Some ''aa01''\<rparr>) demo_forest = Inr ()" by code_simp
  moreover obtain d' where "cards_move ''cc03'' (Some ''aa01'') (DFin 4) 9 demo_forest = Inr d'"
    by (auto simp: cards_move_def demo_forest_def demo_card_def nul_free_def)
  ultimately show ?thesis
    using validated_move_keeps_tree [OF wf_demo_forest, of ?c "Some ''aa01''" "DFin 4" 9 d'] demo_forest_browsable
    by (auto simp: demo_card_def nul_free_def) (simp add: demo_forest_def demo_card_def)
qed

end
