(* ===== verification/Hierarchy_Repair.thy ===== *)
theory Hierarchy_Repair
  imports Card_Tree
begin

text \<open>
  What \<open>plan_hierarchy_repair\<close> of \<open>src/src/card/CardHierarchy.cpp\<close> finds: its walk over the
  in-memory rows agrees with the walk over the repository, and the plan is empty exactly when every
  live card can be reached from the roots.
\<close>

section \<open>The in-memory walk\<close>

lemma set_by_id: "nul_free pid \<Longrightarrow> set (by_id pid d) = {r \<in> set (cards d). project_id r = pid}"
  by (auto simp: by_id_def list_all_cards_def)

lemma find_row_get:
  assumes wf: "wf_db d" and "nul_free pid" and "nul_free p"
  shows "find_row (by_id pid d) (Some p)
    = (case cards_get p d of None \<Rightarrow> None | Some a \<Rightarrow> if project_id a = pid then Some a else None)"
proof (cases "find_row (by_id pid d) (Some p)")
  case None
  then have "\<not> (\<exists>r. r \<in> set (cards d) \<and> project_id r = pid \<and> card_id r = p)"
    by (auto simp: find_row_def find_None_iff set_by_id [OF assms(2)])
  then show ?thesis using None assms cards_get_iff [OF wf, of p] by (auto split: option.splits)
next
  case (Some r)
  then have "r \<in> set (cards d)" "project_id r = pid" "card_id r = p"
    by (auto simp: find_row_def set_by_id [OF assms(2)] dest: find_SomeD)
  then have "cards_get p d = Some r" using cards_get_iff [OF wf] assms(3) by simp
  with Some \<open>project_id r = pid\<close> show ?thesis by simp
qed

lemma repair_walk_agrees:
  assumes "wf_db d" and "nul_free pid" and "\<And>q. n = Some q \<Longrightarrow> nul_free q"
  shows "repair_walk (by_id pid d) visited n cand
    = (case reachable_walk d pid visited n cand of Inl _ \<Rightarrow> None | Inr p \<Rightarrow> Some p)"
  using assms
proof (induction d pid visited n cand rule: reachable_walk.induct)
  case (1 d pid visited n cand)
  show ?case
  proof (cases n)
    case None
    then show ?thesis by (simp add: repair_walk.simps)
  next
    case (Some p)
    note row = find_row_get [OF 1(2,3) 1(4) [OF Some]]
    show ?thesis
    proof (cases "p \<in> set visited")
      case True
      then show ?thesis using Some by (simp add: repair_walk.simps)
    next
      case False
      show ?thesis
      proof (cases "cards_get p d")
        case None
        then show ?thesis using Some False row by (simp add: repair_walk.simps [of _ _ "Some p"])
      next
        case (Some a)
        show ?thesis
        proof (cases "project_id a = pid")
          case True
          have "\<And>q. parent_card_id a = Some q \<Longrightarrow> nul_free q"
            using parent_nul_free [OF 1(2) Some] by blast
          from 1(1) [OF \<open>n = Some p\<close> False Some _ 1(2,3) this] True
          have "repair_walk (by_id pid d) (p # visited) (parent_card_id a) (step_candidate cand a)
              = (case reachable_walk d pid (p # visited) (parent_card_id a) (step_candidate cand a) of
                   Inl _ \<Rightarrow> None | Inr p \<Rightarrow> Some p)" by simp
          then show ?thesis
            using \<open>n = Some p\<close> Some False True row by (simp add: repair_walk.simps [of _ _ "Some p"])
        next
          case other: False
          then show ?thesis
            using \<open>n = Some p\<close> Some False row by (simp add: repair_walk.simps [of _ _ "Some p"])
        qed
      qed
    qed
  qed
qed

lemma repair_walk_reachable:
  assumes wf: "wf_db d" and c: "c \<in> set (cards d)"
  shows "repair_walk (by_id (project_id c) d) [card_id c] (parent_card_id c) None
    = (case reachable_card_parent c d of Inl _ \<Rightarrow> None | Inr p \<Rightarrow> Some p)"
  unfolding reachable_card_parent_def
  using row_okD [OF cards_row_ok [OF wf c]] by (intro repair_walk_agrees [OF wf]) auto

section \<open>Heads and cycles\<close>

definition live_parent :: "db \<Rightarrow> card \<Rightarrow> bool" where
  "live_parent d c \<longleftrightarrow> (\<exists>p q. parent_card_id c = Some p \<and> cards_get p d = Some q
     \<and> project_id q = project_id c \<and> is_live q)"

definition hidden_head :: "db \<Rightarrow> card \<Rightarrow> bool" where
  "hidden_head d c \<longleftrightarrow> is_live c \<and> parent_card_id c \<noteq> None \<and> \<not> live_parent d c
     \<and> (\<exists>dest. reachable_card_parent c d = Inr dest)"

definition in_cycle :: "db \<Rightarrow> card \<Rightarrow> bool" where
  "in_cycle d c \<longleftrightarrow> is_live c \<and> (\<exists>e. reachable_card_parent c d = Inl e)"

lemma inspect_cases:
  assumes wf: "wf_db d" and c: "c \<in> set (cards d)" and pid: "project_id c = pid"
  shows "(\<exists>h. inspect (by_id pid d) c = HiddenHead h \<and> head_card h = c) \<longleftrightarrow> hidden_head d c"
    and "inspect (by_id pid d) c = HiddenHead h \<Longrightarrow> head_card h = c
      \<and> reachable_card_parent c d = Inr (head_destination h)"
    and "inspect (by_id pid d) c = InCycle i \<longleftrightarrow> in_cycle d c \<and> i = card_id c"
proof -
  note ok = row_okD [OF cards_row_ok [OF wf c]]
  have walk: "repair_walk (by_id pid d) [card_id c] (parent_card_id c) None
      = (case reachable_card_parent c d of Inl _ \<Rightarrow> None | Inr p \<Rightarrow> Some p)"
    using repair_walk_reachable [OF wf c] pid by simp
  have par: "(case find_row (by_id pid d) (parent_card_id c) of None \<Rightarrow> False | Some q \<Rightarrow> is_live q) \<longleftrightarrow> live_parent d c"
  proof (cases "parent_card_id c")
    case None
    then show ?thesis by (simp add: find_row_def live_parent_def)
  next
    case (Some p)
    with find_row_get [OF wf, of pid p] ok(2,8) pid show ?thesis
      by (auto simp: live_parent_def split: option.splits)
  qed
  have root: "parent_card_id c = None \<Longrightarrow> reachable_card_parent c d = Inr None"
    by (simp add: reachable_card_parent_def)
  show "(\<exists>h. inspect (by_id pid d) c = HiddenHead h \<and> head_card h = c) \<longleftrightarrow> hidden_head d c"
    using walk par by (auto simp: inspect_def hidden_head_def Let_def split: option.splits sum.splits)
  show "inspect (by_id pid d) c = HiddenHead h \<Longrightarrow> head_card h = c
      \<and> reachable_card_parent c d = Inr (head_destination h)"
    using walk by (auto simp: inspect_def Let_def split: option.splits sum.splits if_splits)
  show "inspect (by_id pid d) c = InCycle i \<longleftrightarrow> in_cycle d c \<and> i = card_id c"
    using walk root by (auto simp: inspect_def in_cycle_def Let_def split: option.splits sum.splits if_splits)
qed

section \<open>An empty plan\<close>

lemma walk_ends_at_root:
  assumes "wf_db d" and "reachable_walk d pid visited n cand = Inr res"
    and "\<And>r. r \<in> set (cards d) \<Longrightarrow> project_id r = pid \<Longrightarrow> is_live r \<Longrightarrow> parent_card_id r \<noteq> None \<Longrightarrow> live_parent d r"
    and "n = Some q" and "cards_get q d = Some r" "project_id r = pid" "is_live r"
  shows "browsable d pid q"
  using assms
proof (induction d pid visited n cand arbitrary: q r rule: reachable_walk.induct)
  case (1 d pid visited n cand)
  have nq: "q \<notin> set visited" using 1(3,5) by auto
  have r: "r \<in> set (cards d)" using 1(6) cards_get_iff [OF 1(2)] by simp
  have rest: "reachable_walk d pid (q # visited) (parent_card_id r) (step_candidate cand r) = Inr res"
    using 1(3,5,6,7) nq by simp
  show ?case
  proof (cases "parent_card_id r")
    case None
    then show ?thesis using 1(6-8) by (auto simp: browsable_def intro: live_path.root)
  next
    case (Some p)
    then have "live_parent d r" using 1(4) r 1(7,8) by blast
    then obtain s where s: "cards_get p d = Some s" "project_id s = pid" "is_live s"
      using Some 1(7) by (auto simp: live_parent_def)
    have "browsable d pid p"
      by (rule 1(1) [OF 1(5) nq 1(6) _ 1(2) rest 1(4) Some s]) (use 1(7) in auto)
    then show ?thesis using Some 1(6-8) by (auto simp: browsable_def intro: live_path.child)
  qed
qed

lemma browsable_not_hidden:
  assumes wf: "wf_db d" and c: "c \<in> set (cards d)" and b: "browsable d (project_id c) (card_id c)"
  shows "\<not> hidden_head d c \<and> \<not> in_cycle d c"
proof -
  note ok = row_okD [OF cards_row_ok [OF wf c]]
  have get: "cards_get (card_id c) d = Some c" using cards_get_iff [OF wf] c ok(1) by simp
  from b obtain path where path: "live_path d (project_id c) (card_id c) path" by (auto simp: browsable_def)
  show ?thesis
  proof (cases "parent_card_id c")
    case None
    then show ?thesis by (simp add: hidden_head_def in_cycle_def reachable_card_parent_def)
  next
    case (Some p)
    with path get obtain rest where rest: "path = card_id c # rest" "live_path d (project_id c) p rest"
      by (auto elim: live_path.cases)
    have "card_id c \<notin> set rest" using live_path_distinct [OF path] rest(1) by simp
    then have "reachable_card_parent c d = Inr (Some p)"
      using reachable_walk_complete [OF rest(2) wf ok(8) [OF Some]] Some by (simp add: reachable_card_parent_def)
    moreover have "live_parent d c"
      using live_path_rows [OF rest(2), of p] live_path_hd [OF rest(2)] Some by (auto simp: live_parent_def)
    ultimately show ?thesis by (simp add: hidden_head_def in_cycle_def)
  qed
qed

lemma all_browsable_iff:
  assumes wf: "wf_db d"
  shows "all_browsable d pid \<longleftrightarrow>
    (\<forall>c \<in> set (cards d). project_id c = pid \<longrightarrow> \<not> hidden_head d c \<and> \<not> in_cycle d c)"
proof
  assume "all_browsable d pid"
  then show "\<forall>c \<in> set (cards d). project_id c = pid \<longrightarrow> \<not> hidden_head d c \<and> \<not> in_cycle d c"
    using browsable_not_hidden [OF wf] unfolding all_browsable_def hidden_head_def in_cycle_def by blast
next
  assume none: "\<forall>c \<in> set (cards d). project_id c = pid \<longrightarrow> \<not> hidden_head d c \<and> \<not> in_cycle d c"
  have acyclic: "\<exists>dest. reachable_card_parent c d = Inr dest"
    if "c \<in> set (cards d)" "project_id c = pid" "is_live c" for c
    using none that by (cases "reachable_card_parent c d") (auto simp: in_cycle_def)
  then have lp: "live_parent d c"
    if "c \<in> set (cards d)" "project_id c = pid" "is_live c" "parent_card_id c \<noteq> None" for c
    using none that unfolding hidden_head_def by blast
  show "all_browsable d pid"
    unfolding all_browsable_def
  proof (intro ballI impI)
    fix c assume c: "c \<in> set (cards d)" "project_id c = pid \<and> is_live c"
    then have get: "cards_get (card_id c) d = Some c"
      using cards_get_iff [OF wf] row_okD(1) [OF cards_row_ok [OF wf c(1)]] by simp
    show "browsable d pid (card_id c)"
    proof (cases "parent_card_id c")
      case None
      then show ?thesis using get c by (auto simp: browsable_def intro: live_path.root)
    next
      case (Some p)
      then obtain q where q: "cards_get p d = Some q" "project_id q = pid" "is_live q"
        using lp [OF c(1)] c(2) by (auto simp: live_parent_def)
      obtain dest where "reachable_walk d pid [card_id c] (Some p) None = Inr dest"
        using acyclic [OF c(1)] c(2) Some by (auto simp: reachable_card_parent_def)
      from walk_ends_at_root [OF wf this lp refl q] have "browsable d pid p" by blast
      then show ?thesis using Some get c(2) by (auto simp: browsable_def intro: live_path.child)
    qed
  qed
qed

lemma in_cycles_of: "i \<in> set (cycles_of rows) \<longleftrightarrow> (\<exists>c \<in> set rows. inspect rows c = InCycle i)"
proof -
  have "i \<in> set (case inspect rows c of InCycle j \<Rightarrow> [j] | _ \<Rightarrow> []) \<longleftrightarrow> inspect rows c = InCycle i" for c
    by (auto split: verdict.splits)
  then show ?thesis by (simp add: cycles_of_def)
qed

lemma in_heads_of: "h \<in> set (heads_of rows) \<longleftrightarrow> (\<exists>c \<in> set rows. inspect rows c = HiddenHead h)"
proof -
  have "h \<in> set (case inspect rows c of HiddenHead k \<Rightarrow> [k] | _ \<Rightarrow> []) \<longleftrightarrow> inspect rows c = HiddenHead h" for c
    by (auto split: verdict.splits)
  then show ?thesis by (simp add: heads_of_def)
qed

lemma set_cycles_heads:
  assumes wf: "wf_db d" and pid: "nul_free pid"
  shows "set (cycles_of (by_id pid d)) = {card_id c | c. c \<in> set (cards d) \<and> project_id c = pid \<and> in_cycle d c}"
    and "(\<lambda>h. card_id (head_card h)) ` set (heads_of (by_id pid d))
      = {card_id c | c. c \<in> set (cards d) \<and> project_id c = pid \<and> hidden_head d c}"
proof -
  show "set (cycles_of (by_id pid d)) = {card_id c | c. c \<in> set (cards d) \<and> project_id c = pid \<and> in_cycle d c}"
    (is "?C = ?R")
  proof (intro equalityI subsetI)
    fix i assume "i \<in> ?C"
    then obtain c where "c \<in> set (cards d)" "project_id c = pid" "inspect (by_id pid d) c = InCycle i"
      by (auto simp: in_cycles_of set_by_id [OF pid])
    with inspect_cases(3) [OF wf this(1,2)] show "i \<in> ?R" by blast
  next
    fix i assume "i \<in> ?R"
    then obtain c where c: "c \<in> set (cards d)" "project_id c = pid" "in_cycle d c" "i = card_id c" by blast
    with inspect_cases(3) [OF wf c(1,2)] have "inspect (by_id pid d) c = InCycle i" by blast
    with c show "i \<in> ?C" by (auto simp: in_cycles_of set_by_id [OF pid])
  qed
  show "(\<lambda>h. card_id (head_card h)) ` set (heads_of (by_id pid d))
      = {card_id c | c. c \<in> set (cards d) \<and> project_id c = pid \<and> hidden_head d c}" (is "?L = ?R")
  proof (intro equalityI subsetI)
    fix i assume "i \<in> ?L"
    then obtain c h where c: "c \<in> set (cards d)" "project_id c = pid" "inspect (by_id pid d) c = HiddenHead h"
      and i: "i = card_id (head_card h)"
      by (auto simp: in_heads_of set_by_id [OF pid])
    have "head_card h = c" using inspect_cases(2) [OF wf c] by simp
    moreover from this have "hidden_head d c" using inspect_cases(1) [OF wf c(1,2)] c(3) by auto
    ultimately show "i \<in> ?R" using c i by auto
  next
    fix i assume "i \<in> ?R"
    then obtain c where c: "c \<in> set (cards d)" "project_id c = pid" "hidden_head d c" "i = card_id c" by blast
    then have "\<exists>h. inspect (by_id pid d) c = HiddenHead h \<and> head_card h = c"
      using inspect_cases(1) [OF wf c(1,2)] by simp
    then obtain h where "inspect (by_id pid d) c = HiddenHead h" "head_card h = c" by (elim exE conjE)
    then have "h \<in> set (heads_of (by_id pid d))" using c by (auto simp: in_heads_of set_by_id [OF pid])
    then show "i \<in> ?L" using c(4) \<open>head_card h = c\<close> by (auto intro: image_eqI [of _ _ h])
  qed
qed

text \<open>
  C28: the repair plan lists exactly what is wrong with the tree. The moved cards are the live cards
  whose parent is no live card of the project and whose ancestors do not loop, the cycle cards are
  the live cards whose ancestors do loop, and both lists are empty exactly when every live card of
  the project can be reached from the roots.
\<close>

theorem repair_plan_complete:
  assumes wf: "wf_db d" and pid: "nul_free pid" and plan: "plan_hierarchy_repair pid now d = Inr plan"
  shows "set (moved_card_ids plan) = {card_id c | c. c \<in> set (cards d) \<and> project_id c = pid \<and> hidden_head d c}
    \<and> set (cycle_card_ids plan) = {card_id c | c. c \<in> set (cards d) \<and> project_id c = pid \<and> in_cycle d c}
    \<and> (moved_card_ids plan = [] \<and> cycle_card_ids plan = [] \<longleftrightarrow> all_browsable d pid)"
proof -
  have m: "set (moved_card_ids plan) = {card_id c | c. c \<in> set (cards d) \<and> project_id c = pid \<and> hidden_head d c}"
    and c: "set (cycle_card_ids plan) = {card_id c | c. c \<in> set (cards d) \<and> project_id c = pid \<and> in_cycle d c}"
    using plan set_cycles_heads [OF wf pid]
    by (auto simp: plan_hierarchy_repair_def Let_def rbind_eq_Inr)
  have "moved_card_ids plan = [] \<and> cycle_card_ids plan = [] \<longleftrightarrow> all_browsable d pid"
    unfolding all_browsable_iff [OF wf] using m c set_empty [of "moved_card_ids plan"] set_empty [of "cycle_card_ids plan"]
    by auto
  with m c show ?thesis by blast
qed

definition demo_hidden :: db where
  "demo_hidden = demo_db\<lparr>cards := [demo_card ''aa01'' 0\<lparr>deleted_at := Some 5\<rparr>,
     demo_card ''bb02'' 1\<lparr>parent_card_id := Some ''aa01''\<rparr>]\<rparr>"

lemma wf_demo_hidden [simp]: "wf_db demo_hidden"
  by (simp add: wf_db_defs demo_hidden_def demo_db_def demo_card_def demo_project_def row_ok_def nul_free_def
      parent_row_exists_def)

section \<open>The plan is always found\<close>

lemma widen_length: "widen dest pos be now radius = Inr (dest', chg) \<Longrightarrow> length dest' = length dest"
proof (induction dest pos be now radius rule: widen.induct)
  case (1 dest pos be now radius)
  let ?low = "if pos > radius then pos - radius else 0"
  let ?high = "min (length dest) (be + radius)"
  let ?keys = "spaced_keys (if ?low \<noteq> 0 then Some (sort_key (dest ! (?low - 1))) else None)
        (if ?high < length dest then Some (sort_key (dest ! ?high)) else None) (?high - ?low)"
  show ?case
  proof (cases ?keys)
    case None
    with 1(2) have not_all: "\<not> (?low = 0 \<and> ?high = length dest)"
      and next_try: "widen dest pos be now (if radius \<noteq> 0 then radius * 2 else 1) = Inr (dest', chg)"
      by (subst (asm) widen.simps, simp only: Let_def option.case split: if_splits; simp)+
    show ?thesis by (rule 1(1) [OF refl refl refl refl None not_all next_try])
  next
    case (Some keys)
    with 1(2) have "respace dest pos be ?low ?high keys now = (dest', chg)"
      by (subst (asm) widen.simps) (simp only: Let_def option.case sum.inject)
    then show ?thesis by (auto simp: respace_def Let_def)
  qed
qed

lemma insert_block_into_length:
  assumes "insert_block_into dest pos block parent now = Inr (dest', chg)"
  shows "length dest' = length dest + length block"
  using assms by (auto simp: insert_block_into_def Let_def split: if_splits dest: widen_length)

lemma place_total:
  assumes "length (fst st) + length block < 2 ^ 48"
  shows "\<exists>st'. place dest now block pos st = Inr st' \<and> length (fst st') = length (fst st) + length block"
proof -
  from insert_block_into_succeeds [of "fst st" "sort_by card_tree_less block" pos dest now] assms
  obtain sibs chg where r: "insert_block_into (fst st) pos (sort_by card_tree_less block) dest now = Inr (sibs, chg)"
    by auto
  with insert_block_into_length [OF r] show ?thesis by (simp add: place_def)
qed

lemma sum_filter_le:
  assumes "distinct ks"
  shows "(\<Sum>k \<leftarrow> ks. length (filter (\<lambda>x. f x = k) xs)) \<le> length xs"
proof (induction xs)
  case (Cons x xs)
  have "(\<Sum>k \<leftarrow> ks. length (filter (\<lambda>y. f y = k) (x # xs)))
      = (\<Sum>k \<leftarrow> ks. length (filter (\<lambda>y. f y = k) xs)) + (\<Sum>k \<leftarrow> ks. if f x = k then 1 else 0)"
    by (induction ks) auto
  moreover have "(\<Sum>k \<leftarrow> ks. if f x = k then 1 else 0 :: nat) \<le> 1"
    using assms by (induction ks) (auto simp: sum_list_eq_0_iff)
  ultimately show ?case using Cons by simp
qed (simp add: sum_list_eq_0_iff)

lemma place_anchored_total:
  assumes "length (fst st) + (\<Sum>a \<leftarrow> aids. length (filter (\<lambda>h. map_option card_id (head_anchor h) = Some a) grp)) < 2 ^ 48"
  shows "\<exists>st'. rfold (place_anchored dest now grp) aids st = Inr st' \<and> length (fst st') \<le> length (fst st)
    + (\<Sum>a \<leftarrow> aids. length (filter (\<lambda>h. map_option card_id (head_anchor h) = Some a) grp))"
  using assms
proof (induction aids arbitrary: st)
  case (Cons a aids)
  let ?n = "length (filter (\<lambda>h. map_option card_id (head_anchor h) = Some a) grp)"
  obtain st1 where st1: "place_anchored dest now grp a st = Inr st1" "length (fst st1) \<le> length (fst st) + ?n"
  proof (cases "find (\<lambda>h. map_option card_id (head_anchor h) = Some a) grp")
    case None
    then show ?thesis using that [of st] by (simp add: place_anchored_def)
  next
    case (Some h)
    from place_total [of st "map head_card (filter (\<lambda>h. map_option card_id (head_anchor h) = Some a) grp)"] Cons.prems
    obtain st1 where "place dest now (map head_card (filter (\<lambda>h. map_option card_id (head_anchor h) = Some a) grp))
        (lower_bound card_tree_less (fst st) (the (head_anchor h))) st = Inr st1"
      "length (fst st1) = length (fst st) + ?n" by fastforce
    with Some show ?thesis using that [of st1] by (simp add: place_anchored_def)
  qed
  with Cons.IH [of st1] Cons.prems show ?case by fastforce
qed simp

lemma place_group_total:
  assumes "length rows + length heads < 2 ^ 48"
  shows "\<exists>chg'. place_group rows heads now dest chg = Inr chg'"
proof -
  let ?grp = "filter (\<lambda>h. head_destination h = dest) heads"
  let ?sibs = "sort_by card_tree_less (filter (\<lambda>c. deleted_at c = None \<and> parent_card_id c = dest) rows)"
  let ?aids = "sort_by (<) (remdups (concat (map (\<lambda>h. case head_anchor h of None \<Rightarrow> [] | Some a \<Rightarrow> [card_id a]) ?grp)))"
  let ?un = "map head_card (filter (\<lambda>h. head_anchor h = None) ?grp)"
  let ?sum = "\<Sum>a \<leftarrow> ?aids. length (filter (\<lambda>h. map_option card_id (head_anchor h) = Some a) ?grp)"
  have "distinct ?aids" by simp
  then have "distinct (None # map Some ?aids)" by (auto simp: distinct_map)
  from sum_filter_le [OF this, of "\<lambda>h. map_option card_id (head_anchor h)" ?grp]
  have sum: "length ?un + ?sum \<le> length heads"
    by (simp add: o_def) (meson le_trans length_filter_le)
  have sibs: "length ?sibs \<le> length rows" unfolding length_sort_by by (rule length_filter_le)
  have "length (fst (?sibs, chg)) + ?sum < 2 ^ 48" using sum sibs assms unfolding fst_conv by linarith
  from place_anchored_total [OF this, of dest now] obtain st' where
    st': "rfold (place_anchored dest now ?grp) ?aids (?sibs, chg) = Inr st'"
      "length (fst st') \<le> length ?sibs + ?sum" by auto
  then have "length (fst st') + length ?un < 2 ^ 48" using sum sibs assms by linarith
  from place_total [OF this, of dest now "length (fst st')"] st'(1) show ?thesis
    by (auto simp: place_group_def Let_def)
qed

lemma rfold_total:
  assumes "\<And>x s. x \<in> set xs \<Longrightarrow> \<exists>t. f x s = Inr t"
  shows "\<exists>t. rfold f xs s = Inr t"
  using assms
proof (induction xs arbitrary: s)
  case (Cons x xs)
  then obtain u where "f x s = Inr u" by (meson list.set_intros(1))
  with Cons show ?case by simp
qed simp

lemma plan_succeeds:
  assumes "length (cards d) < 2 ^ 47"
  shows "\<exists>plan. plan_hierarchy_repair pid now d = Inr plan"
proof -
  have rows: "length (by_id pid d) \<le> length (cards d)" by (simp add: by_id_def list_all_cards_def)
  have heads: "length (heads_of rows) \<le> length rows" for rows
  proof -
    have "length (concat (map (\<lambda>c. case inspect rows c of HiddenHead h \<Rightarrow> [h] | _ \<Rightarrow> []) xs)) \<le> length xs" for xs
      by (induction xs) (auto split: verdict.splits)
    then show ?thesis by (simp add: heads_of_def)
  qed
  then have "length (by_id pid d) + length (heads_of (by_id pid d)) < 2 ^ 48"
  proof -
    have "(2 :: nat) ^ 48 = 2 ^ 47 + 2 ^ 47" by simp
    then show ?thesis using rows assms heads [of "by_id pid d"] by linarith
  qed
  then have "\<exists>chg. rfold (place_group (by_id pid d) (heads_of (by_id pid d)) now)
      (sort_by opt_less (remdups (map head_destination (heads_of (by_id pid d))))) [] = Inr chg"
    by (intro rfold_total place_group_total)
  then show ?thesis by (auto simp: plan_hierarchy_repair_def Let_def)
qed

theorem repair_plan_complete_witness:
  "\<exists>plan. plan_hierarchy_repair ''p'' 9 demo_hidden = Inr plan \<and> set (moved_card_ids plan) = {''bb02''}"
proof -
  obtain plan where plan: "plan_hierarchy_repair ''p'' 9 demo_hidden = Inr plan"
    using plan_succeeds [of demo_hidden] by (auto simp: demo_hidden_def)
  have "nul_free ''p''" by (simp add: nul_free_def)
  from repair_plan_complete [OF wf_demo_hidden this plan]
  have moved: "set (moved_card_ids plan)
      = {card_id c | c. c \<in> set (cards demo_hidden) \<and> project_id c = ''p'' \<and> hidden_head demo_hidden c}" by blast
  let ?b = "demo_card ''bb02'' 1\<lparr>parent_card_id := Some ''aa01''\<rparr>"
  have "reachable_card_parent ?b demo_hidden = Inr None"
    and "cards_get ''aa01'' demo_hidden = Some (demo_card ''aa01'' 0\<lparr>deleted_at := Some 5\<rparr>)" by code_simp+
  then have b: "hidden_head demo_hidden ?b" by (auto simp: hidden_head_def live_parent_def demo_card_def)
  have rows: "cards demo_hidden = [demo_card ''aa01'' 0\<lparr>deleted_at := Some 5\<rparr>, ?b]" by (simp add: demo_hidden_def)
  have a: "\<not> hidden_head demo_hidden (demo_card ''aa01'' 0\<lparr>deleted_at := Some 5\<rparr>)" by (simp add: hidden_head_def)
  have "project_id ?b = ''p''" "card_id ?b = ''bb02''" by (simp_all add: demo_card_def)
  with a b have "{card_id c | c. c \<in> set (cards demo_hidden) \<and> project_id c = ''p'' \<and> hidden_head demo_hidden c} = {''bb02''}"
    unfolding rows by (auto intro!: exI [of _ ?b])
  with plan moved show ?thesis by auto
qed

end
