(* ===== verification/Card_Placement.thy ===== *)
theory Card_Placement
  imports Card_Tree
begin

text \<open>
  Where a moved card lands: \<open>src/src/card/CardPlacementResolver.cpp\<close>. A request names one of eight
  relative intents; the resolver works out the new parent, the new key and the siblings that have to
  be re-keyed with it.
\<close>

section \<open>Requests and results\<close>

datatype placement_intent = Into | Before | After | ToStart | ToEnd | MoveLeft | MoveRight | UpLevel

record placement_request =
  intent :: placement_intent
  target_card_id :: "string option"
  has_parent_card_id :: bool
  request_parent :: "string option"

record placement_result =
  res_parent :: "string option"
  res_sort_key :: double
  moved_into_title :: "string option"
  sibling_changes :: "card list"

section \<open>Helpers\<close>

definition is_trim_space :: "char \<Rightarrow> bool" where
  "is_trim_space c \<longleftrightarrow> c = CHR 0x20 \<or> c = CHR 0x09 \<or> c = CHR 0x0D \<or> c = CHR 0x0A"

definition normalize_parent_id :: "string option \<Rightarrow> string option" where
  "normalize_parent_id p =
     (case p of
        None \<Rightarrow> None
      | Some raw \<Rightarrow>
          let trimmed = rev (dropWhile is_trim_space (rev (dropWhile is_trim_space raw)))
          in if trimmed = [] then None else Some trimmed)"

fun is_descendant_of :: "nat \<Rightarrow> card list \<Rightarrow> string option \<Rightarrow> string \<Rightarrow> bool" where
  "is_descendant_of 0 rows candidate cid = False"
| "is_descendant_of (Suc budget) rows candidate cid =
     (case candidate of
        None \<Rightarrow> False
      | Some p \<Rightarrow>
          if p = cid then True
          else case find_row rows candidate of
                 None \<Rightarrow> False
               | Some r \<Rightarrow> is_descendant_of budget rows (normalize_parent_id (parent_card_id r)) cid)"

text \<open>The walk stops after this many ancestors.\<close>

definition descendant_guard :: nat where
  "descendant_guard = 1024"

definition siblings_for_parent :: "card list \<Rightarrow> string option \<Rightarrow> string \<Rightarrow> card list" where
  "siblings_for_parent rows parent exclude =
     sort_by card_tree_less
       (filter (\<lambda>c. deleted_at c = None \<and> card_id c \<noteq> exclude
          \<and> normalize_parent_id (parent_card_id c) = normalize_parent_id parent) rows)"

fun index_of :: "string \<Rightarrow> card list \<Rightarrow> nat option" where
  "index_of cid [] = None"
| "index_of cid (c # cs) = (if card_id c = cid then Some 0 else map_option Suc (index_of cid cs))"

definition live_in :: "card list \<Rightarrow> string \<Rightarrow> card option" where
  "live_in rows cid =
     (case find_row rows (Some cid) of
        None \<Rightarrow> None
      | Some c \<Rightarrow> if deleted_at c = None then Some c else None)"

section \<open>The switch over the intent\<close>

text \<open>
  The new parent, the siblings there, the insertion point (none when nothing moves) and the title
  reported for a move into a card.
\<close>

record placement_plan =
  plan_parent :: "string option"
  plan_destination :: "card list"
  plan_at :: "nat option"
  plan_title :: "string option"

definition plan_into :: "card list \<Rightarrow> card \<Rightarrow> card \<Rightarrow> placement_plan result" where
  "plan_into rows source target =
     (if is_descendant_of descendant_guard rows (Some (card_id target)) (card_id source)
      then Inl (RuntimeError ''move_would_create_cycle'')
      else let dest = siblings_for_parent rows (Some (card_id target)) (card_id source)
           in Inr \<lparr>plan_parent = Some (card_id target), plan_destination = dest,
                   plan_at = Some (length dest), plan_title = Some (title target)\<rparr>)"

definition plan_beside :: "card list \<Rightarrow> card \<Rightarrow> card \<Rightarrow> bool \<Rightarrow> placement_plan result" where
  "plan_beside rows source target behind_target =
     (let next_parent = normalize_parent_id (parent_card_id target);
          dest = siblings_for_parent rows next_parent (card_id source)
      in case index_of (card_id target) dest of
           None \<Rightarrow> Inl (RuntimeError ''invalid_target'')
         | Some i \<Rightarrow> Inr \<lparr>plan_parent = next_parent, plan_destination = dest,
                          plan_at = Some (i + (if behind_target then 1 else 0)), plan_title = None\<rparr>)"

definition plan_within :: "card list \<Rightarrow> card \<Rightarrow> placement_request \<Rightarrow> placement_plan result" where
  "plan_within rows source req =
     (let original = normalize_parent_id (parent_card_id source);
          next_parent = (if has_parent_card_id req \<or> request_parent req \<noteq> None
                         then normalize_parent_id (request_parent req) else original)
      in if (case next_parent of None \<Rightarrow> False | Some p \<Rightarrow> live_in rows p = None)
         then Inl (RuntimeError ''target_not_found'')
         else let dest = siblings_for_parent rows next_parent (card_id source);
                  plan = (\<lambda>i. \<lparr>plan_parent = next_parent, plan_destination = dest, plan_at = i, plan_title = None\<rparr>)
              in if intent req = ToStart \<or> intent req = ToEnd
                 then if dest = [] \<and> next_parent = original then Inr (plan None)
                      else Inr (plan (Some (if intent req = ToStart then 0 else length dest)))
                 else let with_source = siblings_for_parent rows next_parent []
                      in case index_of (card_id source) with_source of
                           None \<Rightarrow> Inr (plan None)
                         | Some i \<Rightarrow>
                             if intent req = MoveLeft
                             then Inr (plan (if 0 < i then Some (i - 1) else None))
                             else Inr (plan (if i + 1 < length with_source then Some (i + 1) else None)))"

definition plan_up_level :: "card list \<Rightarrow> card \<Rightarrow> placement_plan result" where
  "plan_up_level rows source =
     (case normalize_parent_id (parent_card_id source) of
        None \<Rightarrow> Inl (RuntimeError ''already_at_project_root'')
      | Some current \<Rightarrow>
          let next_parent = (case live_in rows current of
                               None \<Rightarrow> None
                             | Some p \<Rightarrow> normalize_parent_id (parent_card_id p));
              into_title = (case next_parent of None \<Rightarrow> None | Some p \<Rightarrow> map_option title (live_in rows p));
              dest = siblings_for_parent rows next_parent (card_id source)
          in Inr \<lparr>plan_parent = next_parent, plan_destination = dest, plan_at = Some (length dest),
                  plan_title = into_title\<rparr>)"

definition plan_placement :: "card list \<Rightarrow> card \<Rightarrow> placement_request \<Rightarrow> placement_plan result" where
  "plan_placement rows source req =
     (if intent req = UpLevel then plan_up_level rows source
      else if intent req = Into \<or> intent req = Before \<or> intent req = After
      then case target_card_id req of
             None \<Rightarrow> Inl (RuntimeError ''missing_target_card_id'')
           | Some t \<Rightarrow>
               (case live_in rows t of
                  None \<Rightarrow> Inl (RuntimeError ''target_not_found'')
                | Some target \<Rightarrow>
                    if intent req = Into then plan_into rows source target
                    else plan_beside rows source target (intent req = After))
      else plan_within rows source req)"

definition resolve_placement ::
  "string \<Rightarrow> string \<Rightarrow> placement_request \<Rightarrow> i64 \<Rightarrow> db \<Rightarrow> placement_result result"
where
  "resolve_placement pid cid req now d =
     (case cards_get cid d of
        None \<Rightarrow> Inl (RuntimeError ''card_not_found'')
      | Some source \<Rightarrow>
          if deleted_at source \<noteq> None then Inl (RuntimeError ''card_not_found'')
          else if project_id source \<noteq> pid then Inl (RuntimeError ''cross_project_move_forbidden'')
          else rbind (plan_placement (list_all_cards pid d) source req)
            (\<lambda>plan.
               case plan_at plan of
                 None \<Rightarrow> Inr \<lparr>res_parent = normalize_parent_id (parent_card_id source),
                   res_sort_key = sort_key source, moved_into_title = plan_title plan, sibling_changes = []\<rparr>
               | Some i \<Rightarrow>
                   rbind (placed_card_changes (plan_destination plan) i source (plan_parent plan) now)
                     (\<lambda>chg. let own = filter (\<lambda>c. card_id c = card_id source) chg
                            in Inr \<lparr>res_parent = plan_parent plan,
                                 res_sort_key = (if own = [] then DFin 0 else sort_key (last own)),
                                 moved_into_title = plan_title plan,
                                 sibling_changes = filter (\<lambda>c. card_id c \<noteq> card_id source) chg\<rparr>)))"

section \<open>Landing\<close>

text \<open>The rows after the changed cards were written over them.\<close>

definition apply_changes :: "card list \<Rightarrow> card list \<Rightarrow> card list" where
  "apply_changes chg xs =
     map (\<lambda>x. case find (\<lambda>y. card_id y = card_id x) chg of Some y \<Rightarrow> y | None \<Rightarrow> x) xs"

lemma apply_changes_ids [simp]: "map card_id (apply_changes chg xs) = map card_id xs"
  by (auto simp: apply_changes_def split: option.splits dest: find_SomeD)

lemma apply_changes_eq_sorted:
  assumes new: "sorted_wrt card_tree_less new" "list_all keyed new" "distinct (map card_id new)"
    and ids: "set (map card_id new) = set (map card_id old)" and old: "distinct (map card_id old)"
    and chg: "set chg \<subseteq> set new" "set new \<subseteq> set chg \<union> set old"
  shows "sort_by card_tree_less (apply_changes chg old) = new"
proof -
  have same: "x = y" if "x \<in> set new" "y \<in> set new" "card_id x = card_id y" for x y
    using that new(3) by (auto simp: distinct_map inj_on_def)
  have same_old: "x = y" if "x \<in> set old" "y \<in> set old" "card_id x = card_id y" for x y
    using that old by (auto simp: distinct_map inj_on_def)
  have "set (apply_changes chg old) = set new"
  proof (intro equalityI subsetI)
    fix x assume "x \<in> set (apply_changes chg old)"
    then obtain y where y: "y \<in> set old" "x = (case find (\<lambda>z. card_id z = card_id y) chg of Some z \<Rightarrow> z | None \<Rightarrow> y)"
      by (auto simp: apply_changes_def)
    show "x \<in> set new"
    proof (cases "find (\<lambda>z. card_id z = card_id y) chg")
      case (Some z)
      then show ?thesis using y(2) chg(1) by (auto dest: find_SomeD)
    next
      case None
      from y(1) ids obtain z where z: "z \<in> set new" "card_id z = card_id y" by (metis image_iff set_map)
      with None chg(2) have "z \<in> set old" by (auto simp: find_None_iff)
      with same_old y(1) z have "z = y" by blast
      then show ?thesis using None y(2) z(1) by simp
    qed
  next
    fix x assume x: "x \<in> set new"
    with ids obtain y where y: "y \<in> set old" "card_id y = card_id x" by (metis image_iff set_map)
    have "(case find (\<lambda>z. card_id z = card_id y) chg of Some z \<Rightarrow> z | None \<Rightarrow> y) = x"
    proof (cases "find (\<lambda>z. card_id z = card_id y) chg")
      case (Some z)
      then have "z \<in> set new" "card_id z = card_id x" using chg(1) y(2) by (auto dest: find_SomeD)
      then show ?thesis using Some same x by simp
    next
      case None
      then have "x \<in> set old" using x chg(2) y(2) by (auto simp: find_None_iff)
      then show ?thesis using None same_old [of x y] y by simp
    qed
    with y(1) show "x \<in> set (apply_changes chg old)" by (auto simp: apply_changes_def intro: image_eqI [of _ _ y])
  qed
  moreover have d: "distinct (map card_id (apply_changes chg old))" using old by simp
  moreover from this have "list_all keyed (apply_changes chg old)"
    using new(2) calculation(1) by (simp add: list_all_iff)
  ultimately show ?thesis
    by (intro tree_order.sorted_unique tree_order.sort_by_sorted new) (auto simp: list_all_iff)
qed

lemma placed_card_lands:
  assumes dest: "sorted_wrt card_tree_less dest" "list_all keyed dest" "distinct (map card_id dest)"
    and c: "card_id c \<notin> card_id ` set dest" and i: "i \<le> length dest"
    and r: "placed_card_changes dest i c parent now = Inr chg"
  shows "map card_id (sort_by card_tree_less (apply_changes chg (dest @ [c]))) = map card_id (take i dest @ c # drop i dest)"
    and "\<exists>k. isfinite k \<and> filter (\<lambda>x. card_id x = card_id c) chg \<noteq> []
      \<and> (\<forall>x \<in> set chg. card_id x = card_id c \<longrightarrow> x = c\<lparr>parent_card_id := parent, sort_key := k, updated_at := now\<rparr>)"
    and "list_all keyed (apply_changes chg (dest @ [c]))"
proof -
  from r obtain dest' where ins: "insert_block_into dest i [c] parent now = Inr (dest', chg)"
    by (auto simp: placed_card_changes_def insert_block_def rbind_eq_Inr)
  note p = insert_block_into_props [OF ins i dest(1,2)]
  have ids: "map card_id dest' = map card_id (take i dest @ c # drop i dest)" using p by simp
  have "mset (take i dest) + mset (drop i dest) = mset dest" by (simp only: mset_append [symmetric] append_take_drop_id)
  then have "mset (take i dest @ c # drop i dest) = mset (c # dest)" by simp
  then have ms: "mset (map card_id dest') = mset (map card_id (c # dest))" unfolding ids by (simp only: mset_map)
  have d': "distinct (map card_id dest')"
    using dest(3) c mset_eq_imp_distinct_iff [OF ms] by simp
  have "set (map card_id dest') = set (map card_id (dest @ [c]))"
    using mset_eq_setD [OF ms] by simp
  moreover have "set dest' \<subseteq> set chg \<union> set (dest @ [c])" using p by auto
  ultimately have sorted: "sort_by card_tree_less (apply_changes chg (dest @ [c])) = dest'"
    using p d' dest(3) c by (intro apply_changes_eq_sorted) auto
  then have "set (apply_changes chg (dest @ [c])) = set dest'" by (metis set_sort_by)
  then show "list_all keyed (apply_changes chg (dest @ [c]))" using p by (simp add: list_all_iff)
  from sorted show "map card_id (sort_by card_tree_less (apply_changes chg (dest @ [c]))) = map card_id (take i dest @ c # drop i dest)"
    using ids by simp
  from p obtain k where k: "c\<lparr>parent_card_id := parent, sort_key := k, updated_at := now\<rparr> \<in> set chg" by auto
  have "x = c\<lparr>parent_card_id := parent, sort_key := k, updated_at := now\<rparr>"
    if "x \<in> set chg" "card_id x = card_id c" for x
  proof -
    have "x \<in> set dest'" "c\<lparr>parent_card_id := parent, sort_key := k, updated_at := now\<rparr> \<in> set dest'" using p that(1) k by auto
    then show ?thesis using that(2) d' by (auto simp: distinct_map inj_on_def)
  qed
  moreover have "isfinite k" using p k by fastforce
  moreover have "filter (\<lambda>x. card_id x = card_id c) chg \<noteq> []" using k by (auto simp: filter_empty_conv intro!: bexI [OF _ k])
  ultimately show "\<exists>k. isfinite k \<and> filter (\<lambda>x. card_id x = card_id c) chg \<noteq> []
      \<and> (\<forall>x \<in> set chg. card_id x = card_id c \<longrightarrow> x = c\<lparr>parent_card_id := parent, sort_key := k, updated_at := now\<rparr>)"
    by blast
qed

lemma list_all_props:
  assumes "wf_db d" and "nul_free pid"
  shows "set (list_all_cards pid d) = {r \<in> set (cards d). project_id r = pid}"
    and "distinct (map card_id (list_all_cards pid d))" and "list_all keyed (list_all_cards pid d)"
proof -
  show s: "set (list_all_cards pid d) = {r \<in> set (cards d). project_id r = pid}"
    using assms(2) by (auto simp: list_all_cards_def)
  show "distinct (map card_id (list_all_cards pid d))"
    using cards_distinct [OF assms(1)] by (simp add: list_all_cards_def distinct_map_filter)
  show "list_all keyed (list_all_cards pid d)"
    using s cards_row_ok [OF assms(1)] row_okD(5) by (auto simp: list_all_iff)
qed

lemma siblings_for_parent_props:
  assumes "distinct (map card_id rows)" and "list_all keyed rows"
  shows "sorted_wrt card_tree_less (siblings_for_parent rows p x)" "list_all keyed (siblings_for_parent rows p x)"
    "distinct (map card_id (siblings_for_parent rows p x))" "x \<notin> card_id ` set (siblings_for_parent rows p x)"
  using assms unfolding siblings_for_parent_def
  by (auto intro!: tree_order.sort_by_sorted simp: distinct_map_filter list_all_iff)

lemma index_of_Some: "index_of cid xs = Some i \<Longrightarrow> i < length xs \<and> card_id (xs ! i) = cid"
  by (induction xs arbitrary: i) (auto split: if_splits simp: nth_Cons')

lemma length_filter_distinct_key:
  assumes "distinct (map k rows)"
  shows "length (filter (\<lambda>r. k r = a) rows) \<le> 1"
  using assms by (induction rows) (auto simp: filter_empty_conv image_iff)

lemma siblings_for_parent_length:
  assumes "distinct (map card_id rows)"
  shows "length (siblings_for_parent rows p y) \<le> Suc (length (siblings_for_parent rows p x))"
proof -
  have "length (filter (\<lambda>c. deleted_at c = None \<and> card_id c \<noteq> y \<and> q c) rows)
      \<le> length (filter (\<lambda>c. deleted_at c = None \<and> card_id c \<noteq> x \<and> q c) rows) + length (filter (\<lambda>c. card_id c = x) rows)" for q
    by (induction rows) auto
  from this [of "\<lambda>c. normalize_parent_id (parent_card_id c) = normalize_parent_id p"]
    length_filter_distinct_key [OF assms, of x]
  show ?thesis by (simp add: siblings_for_parent_def)
qed

lemma within_cases:
  assumes "(if b then Inl e
     else if s then if z then Inr (f None) else Inr (f (Some (if t then 0 else n)))
     else case ix of
            None \<Rightarrow> Inr (f None)
          | Some i \<Rightarrow> if l then Inr (f (if 0 < i then Some (i - 1) else None))
                      else Inr (f (if i + 1 < m then Some (i + 1) else None))) = Inr plan"
  shows "\<exists>j. plan = f j \<and> (j = None \<or> j = Some 0 \<or> j = Some n
    \<or> (\<exists>k. ix = Some k \<and> (j = Some (k - 1) \<or> j = Some (k + 1) \<and> k + 1 < (m :: nat))))"
  using assms by (auto split: if_splits option.splits)

lemma plan_placement_shape:
  assumes "plan_placement rows source req = Inr plan" and "plan_at plan = Some i" and ids: "distinct (map card_id rows)"
  shows "plan_destination plan = siblings_for_parent rows (plan_parent plan) (card_id source)
    \<and> i \<le> length (plan_destination plan)"
proof -
  have within: ?thesis if w: "plan_within rows source req = Inr plan"
  proof -
    define np where "np = (if has_parent_card_id req \<or> request_parent req \<noteq> None
        then normalize_parent_id (request_parent req) else normalize_parent_id (parent_card_id source))"
    from within_cases [where f = "\<lambda>j. \<lparr>plan_parent = np, plan_destination = siblings_for_parent rows np (card_id source),
        plan_at = j, plan_title = None\<rparr>", OF w [unfolded plan_within_def Let_def np_def [symmetric]]] assms(2)
    have dest: "plan_destination plan = siblings_for_parent rows np (card_id source)" "plan_parent plan = np"
      and at: "i = 0 \<or> i = length (siblings_for_parent rows np (card_id source))
        \<or> (\<exists>k. index_of (card_id source) (siblings_for_parent rows np []) = Some k \<and>
             (i = k - 1 \<or> i = k + 1 \<and> k + 1 < length (siblings_for_parent rows np [])))"
      by auto
    let ?m = "length (siblings_for_parent rows np (card_id source))" and ?w = "length (siblings_for_parent rows np [])"
    have len: "?w \<le> Suc ?m" by (rule siblings_for_parent_length [OF ids])
    from at have "i \<le> ?m"
    proof (elim disjE exE conjE)
      fix k assume "index_of (card_id source) (siblings_for_parent rows np []) = Some k" and "i = k - 1"
      with index_of_Some len show "i \<le> ?m" by fastforce
    next
      fix k assume "i = k + 1" and "k + 1 < ?w"
      with len show "i \<le> ?m" by linarith
    qed simp_all
    with dest show ?thesis by simp
  qed
  have beside: ?thesis if "plan_beside rows source t b = Inr plan" for t b
    using that assms(2) by (auto simp: plan_beside_def Let_def split: option.splits dest!: index_of_Some)
  have into: ?thesis if "plan_into rows source t = Inr plan" for t
    using that assms(2) by (auto simp: plan_into_def Let_def split: if_splits)
  have up: ?thesis if "plan_up_level rows source = Inr plan"
    using that assms(2) by (auto simp: plan_up_level_def Let_def split: option.splits)
  consider "plan_up_level rows source = Inr plan" | t where "plan_into rows source t = Inr plan"
    | t b where "plan_beside rows source t b = Inr plan" | "plan_within rows source req = Inr plan"
    using assms(1) by (auto simp: plan_placement_def split: if_splits option.splits)
  then show ?thesis by cases (rule up into beside within, assumption)+
qed

text \<open>
  C29: a resolved move puts the card exactly at the planned position. When the plan has an insertion
  point, writing the new parent and key of the card together with the reported siblings makes the
  children of the destination, in tree order, the old ones with the card inserted at that position;
  the card's key is finite. When the plan has none, parent and key stay as they are.
\<close>

theorem resolve_placement_lands:
  assumes wf: "wf_db d" and pid: "nul_free pid" and res: "resolve_placement pid cid req now d = Inr res"
  shows "\<exists>source plan. cards_get cid d = Some source \<and> is_live source \<and> project_id source = pid
    \<and> plan_placement (list_all_cards pid d) source req = Inr plan
    \<and> (case plan_at plan of
         None \<Rightarrow> res_parent res = normalize_parent_id (parent_card_id source)
           \<and> res_sort_key res = sort_key source \<and> sibling_changes res = []
       | Some i \<Rightarrow>
           let moved = source\<lparr>parent_card_id := res_parent res, sort_key := res_sort_key res, updated_at := now\<rparr>;
               dest = siblings_for_parent (list_all_cards pid d) (res_parent res) (card_id source)
           in isfinite (res_sort_key res) \<and> i \<le> length dest
              \<and> map card_id (sort_by card_tree_less (moved # apply_changes (sibling_changes res) dest))
                  = map card_id (take i dest @ source # drop i dest))"
proof -
  let ?rows = "list_all_cards pid d"
  from res obtain source plan where s: "cards_get cid d = Some source" "is_live source" "project_id source = pid"
    and plan: "plan_placement ?rows source req = Inr plan"
    by (auto simp: resolve_placement_def rbind_eq_Inr split: option.splits if_splits)
  note rows = list_all_props [OF wf pid]
  show ?thesis
  proof (cases "plan_at plan")
    case None
    with res s plan show ?thesis by (auto simp: resolve_placement_def)
  next
    case (Some i)
    let ?dest = "siblings_for_parent ?rows (plan_parent plan) (card_id source)"
    have dest: "plan_destination plan = ?dest" and i: "i \<le> length ?dest"
      using plan_placement_shape [OF plan Some rows(2)] by auto
    note sib = siblings_for_parent_props [OF rows(2,3), where p = "plan_parent plan" and x = "card_id source"]
    from res s plan Some dest obtain chg where chg: "placed_card_changes ?dest i source (plan_parent plan) now = Inr chg"
      and r: "res_parent res = plan_parent plan"
        "res_sort_key res = (if filter (\<lambda>c. card_id c = card_id source) chg = [] then DFin 0
           else sort_key (last (filter (\<lambda>c. card_id c = card_id source) chg)))"
        "sibling_changes res = filter (\<lambda>c. card_id c \<noteq> card_id source) chg"
      by (auto simp: resolve_placement_def rbind_eq_Inr Let_def)
    note lands = placed_card_lands [OF sib i chg]
    from lands(2) obtain k where k: "isfinite k" "filter (\<lambda>x. card_id x = card_id source) chg \<noteq> []"
      "\<forall>x \<in> set chg. card_id x = card_id source \<longrightarrow>
         x = source\<lparr>parent_card_id := plan_parent plan, sort_key := k, updated_at := now\<rparr>" by blast
    let ?own = "filter (\<lambda>x. card_id x = card_id source) chg"
    let ?moved = "source\<lparr>parent_card_id := res_parent res, sort_key := res_sort_key res, updated_at := now\<rparr>"
    have "last ?own \<in> set ?own" using k(2) by (rule last_in_set)
    with k(3) have last_own: "last ?own = source\<lparr>parent_card_id := plan_parent plan, sort_key := k, updated_at := now\<rparr>" by auto
    then have key: "res_sort_key res = k" using r(2) k(2) by simp
    have "find (\<lambda>y. card_id y = card_id source) chg = Some ?moved"
      using k(2,3) key r(1) by (cases "find (\<lambda>y. card_id y = card_id source) chg") (auto simp: find_None_iff filter_empty_conv dest: find_SomeD)
    moreover have "find (\<lambda>y. card_id y = card_id x) chg = find (\<lambda>y. card_id y = card_id x) (sibling_changes res)"
      if "x \<in> set ?dest" for x
    proof -
      have "card_id x \<noteq> card_id source" using that sib(4) by (metis imageI)
      then show ?thesis unfolding r(3) by (induction chg) auto
    qed
    ultimately have app: "apply_changes chg (?dest @ [source]) = apply_changes (sibling_changes res) ?dest @ [?moved]"
      by (simp add: apply_changes_def)
    have "distinct (map card_id (?moved # apply_changes (sibling_changes res) ?dest))"
      using sib(3,4) by simp
    moreover have "list_all keyed (?moved # apply_changes (sibling_changes res) ?dest)"
      using lands(3) unfolding app by simp
    ultimately have "sort_by card_tree_less (?moved # apply_changes (sibling_changes res) ?dest)
        = sort_by card_tree_less (apply_changes (sibling_changes res) ?dest @ [?moved])"
      by (intro tree_order.sort_by_mset_cong) simp_all
    with lands(1) app have "map card_id (sort_by card_tree_less (?moved # apply_changes (sibling_changes res) ?dest))
        = map card_id (take i ?dest @ source # drop i ?dest)" by simp
    with s plan Some i k(1) key r(1) show ?thesis by (auto simp: Let_def)
  qed
qed

theorem resolve_placement_lands_witness:
  "\<exists>res. resolve_placement ''p'' ''aa01'' \<lparr>intent = After, target_card_id = Some ''bb02'',
       has_parent_card_id = False, request_parent = None\<rparr> 7 demo_db = Inr res \<and> isfinite (res_sort_key res)"
proof -
  let ?req = "\<lparr>intent = After, target_card_id = Some ''bb02'', has_parent_card_id = False, request_parent = None\<rparr>"
  let ?a = "demo_card ''aa01'' 0" and ?b = "demo_card ''bb02'' 1"
  let ?plan = "\<lparr>plan_parent = None, plan_destination = [?b], plan_at = Some 1, plan_title = None\<rparr>"
  have get: "cards_get ''aa01'' demo_db = Some ?a" by code_simp
  have plan: "plan_placement (list_all_cards ''p'' demo_db) ?a ?req = Inr ?plan" by code_simp
  obtain chg where "placed_card_changes [?b] 1 ?a None 7 = Inr chg"
    using insert_block_into_succeeds [of "[?b]" "[?a]" 1 None 7] by (auto simp: placed_card_changes_def insert_block_def)
  then obtain res where res: "resolve_placement ''p'' ''aa01'' ?req 7 demo_db = Inr res"
    using get plan by (auto simp: resolve_placement_def demo_card_def Let_def)
  have "nul_free ''p''" by (simp add: nul_free_def)
  from resolve_placement_lands [OF wf_demo_db this res] get plan res show ?thesis by (auto simp: Let_def)
qed

end
