(* ===== verification/Identity.thy ===== *)
theory Identity
  imports Card_Model "HOL-Library.Word"
begin

text \<open>
  Card identifiers: \<open>src/src/identity/Uuid.cpp\<close> and \<open>src/src/model/IdScheme.cpp\<close>. The sixteen random
  bytes of \<open>randombytes_buf\<close> and the clock reading in milliseconds are arguments.
\<close>

unbundle bit_operations_syntax

type_synonym byte = "8 word"

section \<open>Names of the schemes\<close>

definition to_string_scheme :: "id_scheme \<Rightarrow> string" where
  "to_string_scheme s = (case s of Uuid4 \<Rightarrow> ''uuid4'' | Uuid7 \<Rightarrow> ''uuid7'')"

definition id_scheme_from_string :: "string \<Rightarrow> id_scheme option" where
  "id_scheme_from_string v =
     (if v = ''uuid4'' then Some Uuid4 else if v = ''uuid7'' then Some Uuid7 else None)"

section \<open>Formatting and validating\<close>

definition kHex :: "nat \<Rightarrow> char" where
  "kHex n = ''0123456789abcdef'' ! n"

definition format_uuid :: "byte list \<Rightarrow> string" where
  "format_uuid bytes =
     concat (map (\<lambda>i. [kHex (unat (drop_bit 4 (bytes ! i))), kHex (unat (bytes ! i AND 0x0F))]
        @ (if i = 3 \<or> i = 5 \<or> i = 7 \<or> i = 9 then ''-'' else [])) [0..<16])"

definition uuid_hyphen_position :: "nat \<Rightarrow> bool" where
  "uuid_hyphen_position i \<longleftrightarrow> i = 8 \<or> i = 13 \<or> i = 18 \<or> i = 23"

definition is_valid_uuid :: "string \<Rightarrow> bool" where
  "is_valid_uuid v \<longleftrightarrow>
     length v = 36
     \<and> list_all (\<lambda>i. if uuid_hyphen_position i then v ! i = CHR ''-'' else is_hex_digit (v ! i)) [0..<36]
     \<and> (v ! 14 = CHR ''4'' \<or> v ! 14 = CHR ''7'')
     \<and> v ! 19 \<in> set ''89aAbB''"

lemma uuid_char_cases:
  assumes "is_valid_uuid v" and "c \<in> set v"
  shows "c = CHR ''-'' \<or> is_hex_digit c"
proof -
  obtain i where "i < 36" "c = v ! i" using assms by (auto simp: in_set_conv_nth is_valid_uuid_def)
  then show ?thesis using assms(1) by (auto simp: is_valid_uuid_def list_all_iff split: if_splits)
qed

section \<open>Generating\<close>

definition set_version :: "byte \<Rightarrow> byte list \<Rightarrow> byte list" where
  "set_version v bytes =
     bytes[6 := (bytes ! 6 AND 0x0F) OR v, 8 := (bytes ! 8 AND 0x3F) OR 0x80]"

definition uuid_v4 :: "byte list \<Rightarrow> string" where
  "uuid_v4 random = format_uuid (set_version 0x40 random)"

definition ts_byte :: "nat \<Rightarrow> nat \<Rightarrow> byte" where
  "ts_byte t s = word_of_nat (drop_bit s t AND 0xFF)"

definition uuid_v7 :: "int \<Rightarrow> byte list \<Rightarrow> string result" where
  "uuid_v7 now_ms random =
     (if now_ms < 0 \<or> 0xFFFFFFFFFFFF < now_ms
      then Inl (RuntimeError ''system clock outside UUIDv7 range'')
      else let t = nat now_ms;
               bytes = random[0 := ts_byte t 40, 1 := ts_byte t 32, 2 := ts_byte t 24, 3 := ts_byte t 16,
                              4 := ts_byte t 8, 5 := ts_byte t 0]
           in Inr (format_uuid (set_version 0x70 bytes)))"

definition generate_id :: "id_scheme \<Rightarrow> int \<Rightarrow> byte list \<Rightarrow> string result" where
  "generate_id s now_ms random =
     (case s of Uuid4 \<Rightarrow> Inr (uuid_v4 random) | Uuid7 \<Rightarrow> uuid_v7 now_ms random)"

section \<open>Generated identifiers are valid\<close>

lemma kHex_table:
  "list_all (\<lambda>n. is_hex_digit (kHex n) \<and> list_all (\<lambda>m. n < m \<longrightarrow> kHex n < kHex m) [0..<16]) [0..<16]"
  by code_simp

lemma kHex_hex: "n < 16 \<Longrightarrow> is_hex_digit (kHex n)"
  using kHex_table by (simp add: list_all_iff del: upt_rec_numeral)

lemma kHex_mono: "n < m \<Longrightarrow> m < 16 \<Longrightarrow> kHex n < kHex m"
  using kHex_table by (simp add: list_all_iff del: upt_rec_numeral)

lemma byte_less_256: "unat (b :: byte) < 256"
  using unsigned_less [of b] by simp

lemma unat_drop_bit: "unat (drop_bit 4 (b :: byte)) = unat b div 16"
  by (simp add: drop_bit_eq_div unat_div)

lemma nibble_hi: "unat (drop_bit 4 (b :: byte)) < 16"
proof -
  have "unat b div 16 < 16" using byte_less_256 [of b] by presburger
  then show ?thesis by (simp add: unat_drop_bit)
qed

lemma unat_low_nibble: "unat ((b :: byte) AND 0x0F) = unat b mod 16"
proof -
  have "b AND 0x0F = take_bit 4 b" by (simp add: take_bit_eq_mask mask_eq_exp_minus_1)
  then show ?thesis by (simp add: take_bit_eq_mod unat_mod)
qed

lemma version_nibble: "drop_bit 4 ((b :: byte) AND 0x0F OR 0x40) = 4" "drop_bit 4 ((b :: byte) AND 0x0F OR 0x70) = 7"
  by (auto intro!: bit_word_eqI simp: bit_simps)

lemma variant_nibble: "unat (drop_bit 4 ((b :: byte) AND 0x3F OR 0x80)) \<in> {8, 9, 10, 11}"
proof -
  have "drop_bit 4 (b AND 0x3F OR 0x80) = (drop_bit 4 b AND 3) OR 8"
    by (auto intro!: bit_word_eqI simp: bit_simps)
  moreover have "drop_bit 4 b AND 3 = take_bit 2 (drop_bit 4 b)" by (simp add: take_bit_eq_mask mask_eq_exp_minus_1)
  moreover have "unat (take_bit 2 (drop_bit 4 b)) \<in> {0, 1, 2, 3}"
  proof -
    have "unat (take_bit 2 (drop_bit 4 b)) < 4" by (simp add: take_bit_eq_mod unat_mod)
    then show ?thesis by auto
  qed
  ultimately show ?thesis
    by (auto simp: unsigned_or_eq)
qed

lemma upt_16_36:
  "[0..<16] = [0, 1, 2, 3, 4, 5, 6, 7, 8, 9, 10, 11, 12, 13, 14, 15]"
  "[0..<36] = [0, 1, 2, 3, 4, 5, 6, 7, 8, 9, 10, 11, 12, 13, 14, 15, 16, 17, 18, 19, 20, 21, 22, 23, 24, 25, 26, 27, 28, 29, 30, 31, 32, 33, 34, 35]"
  by code_simp+

lemma format_uuid_bytes:
  "format_uuid [b0, b1, b2, b3, b4, b5, b6, b7, b8, b9, b10, b11, b12, b13, b14, b15] =
    (let hi = (\<lambda>b. kHex (unat (drop_bit 4 b))); lo = (\<lambda>b. kHex (unat (b AND 0x0F))) in
     [hi b0, lo b0, hi b1, lo b1, hi b2, lo b2, hi b3, lo b3, CHR ''-'', hi b4, lo b4, hi b5, lo b5, CHR ''-'',
      hi b6, lo b6, hi b7, lo b7, CHR ''-'', hi b8, lo b8, hi b9, lo b9, CHR ''-'', hi b10, lo b10, hi b11, lo b11,
      hi b12, lo b12, hi b13, lo b13, hi b14, lo b14, hi b15, lo b15])"
  by (simp add: format_uuid_def Let_def upt_16_36)

lemma sixteen:
  assumes "length xs = 16"
  obtains b0 b1 b2 b3 b4 b5 b6 b7 b8 b9 b10 b11 b12 b13 b14 b15
  where "xs = [b0, b1, b2, b3, b4, b5, b6, b7, b8, b9, b10, b11, b12, b13, b14, b15]"
  using assms by (auto simp: numeral_eq_Suc length_Suc_conv)

lemma format_uuid_valid:
  assumes "length bytes = 16" and v: "v \<in> {0x40, 0x70}"
  shows "is_valid_uuid (format_uuid (set_version v bytes))"
proof -
  obtain b0 b1 b2 b3 b4 b5 b6 b7 b8 b9 b10 b11 b12 b13 b14 b15
    where b: "bytes = [b0, b1, b2, b3, b4, b5, b6, b7, b8, b9, b10, b11, b12, b13, b14, b15]"
    using sixteen [OF assms(1)] .
  let ?b6 = "b6 AND 0x0F OR v" and ?b8 = "b8 AND 0x3F OR 0x80"
  have f: "format_uuid (set_version v bytes) = format_uuid [b0, b1, b2, b3, b4, b5, ?b6, b7, ?b8, b9, b10, b11, b12, b13, b14, b15]"
    by (simp add: set_version_def b)
  have lo: "is_hex_digit (kHex (unat (x AND 0x0F)))" and hi: "is_hex_digit (kHex (unat (drop_bit 4 x)))" for x :: byte
    using nibble_hi [of x] by (auto intro!: kHex_hex simp: unat_low_nibble)
  have ver: "kHex (unat (drop_bit 4 ?b6)) = CHR ''4'' \<or> kHex (unat (drop_bit 4 ?b6)) = CHR ''7''"
    using v version_nibble by (auto simp: kHex_def)
  have var: "kHex (unat (drop_bit 4 ?b8)) \<in> set ''89aAbB''"
    using variant_nibble [of b8] by (auto simp: kHex_def)
  show ?thesis
    unfolding f format_uuid_bytes Let_def is_valid_uuid_def
    using lo hi lo [of ?b6] hi [of ?b6] lo [of ?b8] hi [of ?b8] ver var by (simp add: uuid_hyphen_position_def upt_16_36)
qed

text \<open>
  C35: whatever the random bytes and the clock, a generated identifier is a valid version 4 or
  version 7 UUID; the only failure is a clock before 1970 or beyond the 48-bit range.
\<close>

theorem generated_id_valid:
  assumes "length random = 16"
  shows "(\<forall>i. generate_id s now_ms random = Inr i \<longrightarrow> is_valid_uuid i)
    \<and> ((\<exists>e. generate_id s now_ms random = Inl e) \<longleftrightarrow>
         s = Uuid7 \<and> (now_ms < 0 \<or> 2 ^ 48 \<le> now_ms))"
proof -
  have "is_valid_uuid (uuid_v4 random)"
    unfolding uuid_v4_def by (rule format_uuid_valid [OF assms]) simp
  moreover have "is_valid_uuid i" if "uuid_v7 now_ms random = Inr i" for i
    using that assms by (auto simp: uuid_v7_def Let_def intro!: format_uuid_valid split: if_splits)
  ultimately show ?thesis
    by (auto simp: generate_id_def uuid_v7_def Let_def split: id_scheme.splits if_splits)
qed

theorem generated_id_valid_witness:
  "is_valid_uuid (uuid_v4 (replicate 16 0xFF))"
proof -
  have "length (replicate 16 (0xFF :: byte)) = 16" by simp
  from generated_id_valid [OF this, of Uuid4 0] show ?thesis by (simp add: generate_id_def)
qed

section \<open>Version 7 identifiers sort by time\<close>

definition nib :: "nat \<Rightarrow> nat \<Rightarrow> nat" where
  "nib t j = t div 16 ^ (11 - j) mod 16"

lemma first_difference:
  fixes t u :: nat
  assumes "t < u" and "u < 16 ^ n"
  shows "\<exists>j < n. (\<forall>i < j. t div 16 ^ (n - 1 - i) mod 16 = u div 16 ^ (n - 1 - i) mod 16)
    \<and> t div 16 ^ (n - 1 - j) mod 16 < u div 16 ^ (n - 1 - j) mod 16"
  using assms
proof (induction n arbitrary: t u)
  case (Suc n)
  show ?case
  proof (cases "t div 16 < u div 16")
    case True
    have "u div 16 < 16 ^ n" using Suc.prems(2) by (simp add: less_mult_imp_div_less)
    from Suc.IH [OF True this] obtain j where j: "j < n"
      "\<forall>i < j. t div 16 div 16 ^ (n - 1 - i) mod 16 = u div 16 div 16 ^ (n - 1 - i) mod 16"
      "t div 16 div 16 ^ (n - 1 - j) mod 16 < u div 16 div 16 ^ (n - 1 - j) mod 16" by blast
    have shift: "t div 16 div 16 ^ (n - 1 - i) = t div 16 ^ (Suc n - 1 - i)" if "i < n" for i and t :: nat
    proof -
      have "Suc n - 1 - i = Suc (n - 1 - i)" using that by simp
      then show ?thesis by (simp add: div_mult2_eq)
    qed
    show ?thesis using j shift by (intro exI [of _ j]) auto
  next
    case False
    then have "t div 16 = u div 16" using Suc.prems(1) by (simp add: div_le_mono less_imp_le le_antisym)
    then have eq: "t div 16 ^ (n - i) = u div 16 ^ (n - i)" if "i < n" for i
    proof -
      have "n - i = Suc (n - i - 1)" using that by simp
      then show ?thesis using \<open>t div 16 = u div 16\<close> by (metis div_mult2_eq power_Suc)
    qed
    have "t mod 16 < u mod 16"
      using Suc.prems(1) \<open>t div 16 = u div 16\<close> by (metis div_mult_mod_eq nat_add_left_cancel_less)
    then show ?thesis using eq by (intro exI [of _ n]) auto
  qed
qed simp

lemma ts_byte_nibbles:
  "unat (drop_bit 4 (ts_byte t s)) = t div 2 ^ (s + 4) mod 16"
  "unat (ts_byte t s AND 0x0F) = t div 2 ^ s mod 16"
proof -
  have "t div 2 ^ s AND 255 = t div 2 ^ s mod 256"
    using take_bit_eq_mask [of 8 "t div 2 ^ s"] by (simp add: take_bit_eq_mod mask_eq_exp_minus_1)
  then have b: "unat (ts_byte t s) = t div 2 ^ s mod 256"
    by (simp add: ts_byte_def drop_bit_eq_div unsigned_of_nat take_bit_eq_mod)
  have "x mod 256 div 16 = x div 16 mod 16" for x :: nat
    using mod_mult2_eq [of x 16 16] by simp
  then show "unat (drop_bit 4 (ts_byte t s)) = t div 2 ^ (s + 4) mod 16"
    by (simp add: unat_drop_bit b power_add div_mult2_eq)
  show "unat (ts_byte t s AND 0x0F) = t div 2 ^ s mod 16"
    by (simp add: unat_low_nibble b mod_mod_cancel)
qed

lemma string_less_at: "a < b \<Longrightarrow> u @ a # x < u @ b # (y :: string)"
  by (simp add: list_less_def lexord_append_left_rightI)

lemma map_split_at: "j \<in> {m..<n} \<Longrightarrow> map f [m..<n] = map f [m..<j] @ f j # map f [Suc j..<n]"
  using upt_add_eq_append [of m j "n - j"] by (simp add: upt_conv_Cons)

lemma uuid_v7_prefix:
  assumes "length random = 16" and "uuid_v7 now_ms random = Inr s"
  shows "\<exists>rest. s = map (\<lambda>j. kHex (nib (nat now_ms) j)) [0..<8]
    @ CHR ''-'' # map (\<lambda>j. kHex (nib (nat now_ms) j)) [8..<12] @ rest"
proof -
  obtain b0 b1 b2 b3 b4 b5 b6 b7 b8 b9 b10 b11 b12 b13 b14 b15
    where b: "random = [b0, b1, b2, b3, b4, b5, b6, b7, b8, b9, b10, b11, b12, b13, b14, b15]"
    using sixteen [OF assms(1)] .
  let ?t = "nat now_ms"
  have s: "s = format_uuid [ts_byte ?t 40, ts_byte ?t 32, ts_byte ?t 24, ts_byte ?t 16, ts_byte ?t 8, ts_byte ?t 0,
      b6 AND 0x0F OR 0x70, b7, b8 AND 0x3F OR 0x80, b9, b10, b11, b12, b13, b14, b15]"
    using assms(2) by (auto simp: uuid_v7_def set_version_def b Let_def split: if_splits)
  have "[0..<8] = [0, 1, 2, 3, 4, 5, 6, 7 :: nat]" "[8..<12] = [8, 9, 10, 11 :: nat]" by code_simp+
  then show ?thesis
    unfolding s format_uuid_bytes Let_def ts_byte_nibbles by (simp add: nib_def)
qed

text \<open>
  Version 7 identifiers made at a later millisecond are larger strings, whatever the random
  bytes: listing cards by identifier lists them by creation time.
\<close>

theorem uuid_v7_ordered:
  assumes "length r1 = 16" and "length r2 = 16" and "t1 < t2"
    and "uuid_v7 t1 r1 = Inr s1" and "uuid_v7 t2 r2 = Inr s2"
  shows "s1 < s2"
proof -
  let ?f = "\<lambda>t j. kHex (nib (nat t) j)"
  obtain x1 x2 where s: "s1 = map (?f t1) [0..<8] @ CHR ''-'' # map (?f t1) [8..<12] @ x1"
    "s2 = map (?f t2) [0..<8] @ CHR ''-'' # map (?f t2) [8..<12] @ x2"
    using uuid_v7_prefix [OF assms(1,4)] uuid_v7_prefix [OF assms(2,5)] by blast
  have range: "0 \<le> t1" "t2 \<le> 0xFFFFFFFFFFFF" using assms(4,5) by (auto simp: uuid_v7_def split: if_splits)
  then have "nat t1 < nat t2" "nat t2 < 16 ^ 12" using assms(3) by (auto simp: nat_less_iff)
  from first_difference [OF this] obtain j where
    j: "j < 12" "\<forall>i < j. nib (nat t1) i = nib (nat t2) i" "nib (nat t1) j < nib (nat t2) j"
    by (auto simp: nib_def)
  have less: "?f t1 j < ?f t2 j" using j(3) by (intro kHex_mono) (auto simp: nib_def)
  have same: "map (?f t1) [m..<n] = map (?f t2) [m..<n]" if "n \<le> j" for m n
    using j(2) that by auto
  show ?thesis
  proof (cases "j < 8")
    case True
    then have split: "map (?f t) [0..<8] = map (?f t) [0..<j] @ ?f t j # map (?f t) [Suc j..<8]" for t
      by (intro map_split_at) auto
    show ?thesis
      unfolding s split same [OF order_refl, of 0] append_assoc append_Cons by (rule string_less_at [OF less])
  next
    case False
    then have split: "map (?f t) [8..<12] = map (?f t) [8..<j] @ ?f t j # map (?f t) [Suc j..<12]" for t
      using j(1) by (intro map_split_at) auto
    have pre: "map (?f t1) [0..<8] = map (?f t2) [0..<8]" by (rule same) (use False in simp)
    show ?thesis
      unfolding s split pre same [OF order_refl, of 8]
      using string_less_at [OF less, of "map (?f t2) [0..<8] @ CHR ''-'' # map (?f t2) [8..<j]"] by simp
  qed
qed

theorem uuid_v7_ordered_witness:
  "\<exists>s1 s2. uuid_v7 1700000000000 (replicate 16 0xFF) = Inr s1 \<and> uuid_v7 1700000000001 (replicate 16 0) = Inr s2 \<and> s1 < s2"
proof -
  obtain s1 s2 where "uuid_v7 1700000000000 (replicate 16 0xFF) = Inr s1" "uuid_v7 1700000000001 (replicate 16 0) = Inr s2"
    by (simp add: uuid_v7_def Let_def)
  with uuid_v7_ordered [OF _ _ _ this] show ?thesis by auto
qed

end
