(* ===== verification/Card_Reference.thy ===== *)
theory Card_Reference
  imports Card_Repo Identity
begin

text \<open>
  Resolving what a user typed to a card: \<open>src/src/card/CardReferenceResolver.cpp\<close>. A reference is a
  full UUID, a UUID prefix of at least eight hex digits, or an exact title.
\<close>

datatype reference_status = RefResolved | RefAmbiguous | RefNotFound

datatype match_kind = FullId | IdPrefix | ExactTitle

record reference_result =
  ref_status :: reference_status
  ref_match_kind :: "match_kind option"
  ref_card :: "card option"
  ref_candidates :: "card list"

definition not_found :: reference_result where
  "not_found = \<lparr>ref_status = RefNotFound, ref_match_kind = None, ref_card = None, ref_candidates = []\<rparr>"

definition lowercase_hex :: "char \<Rightarrow> char" where
  "lowercase_hex c = (if CHR ''A'' \<le> c \<and> c \<le> CHR ''F'' then char_of (of_char c - 65 + 97 :: nat) else c)"

definition lowercase_uuid :: "string \<Rightarrow> string" where
  "lowercase_uuid v = map lowercase_hex v"

definition has_uuid_version :: "char \<Rightarrow> bool" where
  "has_uuid_version c \<longleftrightarrow> c = CHR ''4'' \<or> c = CHR ''7''"

definition has_uuid_variant :: "char \<Rightarrow> bool" where
  "has_uuid_variant c \<longleftrightarrow> lowercase_hex c \<in> set ''89ab''"

text \<open>The loop over the characters: the normalized characters and the number of hex digits so far.\<close>

fun prefix_scan :: "nat \<Rightarrow> string \<Rightarrow> (string \<times> nat) option" where
  "prefix_scan i [] = Some ([], 0)"
| "prefix_scan i (c # cs) =
     (if uuid_hyphen_position i
      then if c \<noteq> CHR ''-'' then None
           else map_option (\<lambda>(n, k). (c # n, k)) (prefix_scan (i + 1) cs)
      else if \<not> is_hex_digit c then None
           else map_option (\<lambda>(n, k). (lowercase_hex c # n, k + 1)) (prefix_scan (i + 1) cs))"

definition normalize_uuid_prefix :: "string \<Rightarrow> string option" where
  "normalize_uuid_prefix reference =
     (if 36 \<le> length reference then None
      else case prefix_scan 0 reference of
             None \<Rightarrow> None
           | Some (normalized, hex_digits) \<Rightarrow>
               if hex_digits < 8 then None
               else if 14 < length normalized \<and> \<not> has_uuid_version (normalized ! 14) then None
               else if 19 < length normalized \<and> \<not> has_uuid_variant (normalized ! 19) then None
               else Some normalized)"

definition ref_resolved :: "card \<Rightarrow> match_kind \<Rightarrow> reference_result" where
  "ref_resolved c k = \<lparr>ref_status = RefResolved, ref_match_kind = Some k, ref_card = Some c, ref_candidates = []\<rparr>"

definition ref_ambiguous :: "card list \<Rightarrow> match_kind \<Rightarrow> reference_result" where
  "ref_ambiguous cs k = \<lparr>ref_status = RefAmbiguous, ref_match_kind = Some k, ref_card = None, ref_candidates = cs\<rparr>"

definition from_candidates :: "card list \<Rightarrow> match_kind \<Rightarrow> reference_result" where
  "from_candidates cs k =
     (if length cs = 1 then ref_resolved (hd cs) k
      else if 2 \<le> length cs then ref_ambiguous cs k
      else not_found)"

definition resolve_reference :: "string \<Rightarrow> string \<Rightarrow> card_scope \<Rightarrow> db \<Rightarrow> reference_result" where
  "resolve_reference pid reference scope d =
     (if is_valid_uuid reference
      then case find_by_id pid (lowercase_uuid reference) scope d of
             Some c \<Rightarrow> ref_resolved c FullId
           | None \<Rightarrow> not_found
      else let by_title = from_candidates (find_by_exact_title pid reference scope 2 d) ExactTitle
           in case normalize_uuid_prefix reference of
                None \<Rightarrow> by_title
              | Some prefix \<Rightarrow>
                  let r = from_candidates (find_by_id_prefix pid prefix scope 2 d) IdPrefix
                  in if ref_status r \<noteq> RefNotFound then r else by_title)"

section \<open>Properties\<close>

lemma take2_single:
  assumes "take 2 xs = [c]"
  shows "xs = [c]"
  using assms by (cases xs; cases "tl xs") auto

lemma take2_hd: "length (take 2 xs) = 1 \<longleftrightarrow> (\<exists>c. xs = [c])"
  by (cases xs; cases "tl xs") auto

lemma from_candidates_resolved:
  assumes "ref_card (from_candidates (take 2 xs) k) = Some c"
  shows "xs = [c]"
  using assms by (cases xs; cases "tl xs") (auto simp: from_candidates_def ref_resolved_def ref_ambiguous_def not_found_def)

lemma from_candidates_sel:
  "ref_card (from_candidates cs k) = Some c \<Longrightarrow> ref_match_kind (from_candidates cs k) = Some k"
  by (auto simp: from_candidates_def ref_resolved_def ref_ambiguous_def not_found_def split: if_splits)

definition reference_result_ok :: "reference_result \<Rightarrow> bool" where
  "reference_result_ok r =
     (case ref_status r of
        RefResolved \<Rightarrow> ref_match_kind r \<noteq> None \<and> ref_card r \<noteq> None \<and> ref_candidates r = []
      | RefAmbiguous \<Rightarrow> ref_match_kind r \<noteq> None \<and> ref_card r = None \<and> length (ref_candidates r) = 2
      | RefNotFound \<Rightarrow> ref_match_kind r = None \<and> ref_card r = None \<and> ref_candidates r = [])"

lemma from_candidates_ok: "length cs \<le> 2 \<Longrightarrow> reference_result_ok (from_candidates cs k)"
  by (auto simp: from_candidates_def reference_result_ok_def ref_resolved_def ref_ambiguous_def not_found_def)

lemma result_ok_simps [simp]: "reference_result_ok not_found" "reference_result_ok (ref_resolved c k)"
  by (simp_all add: reference_result_ok_def not_found_def ref_resolved_def)

text \<open>
  C36: the result of a resolution has one of the three documented shapes: a card with its match
  kind and no candidates, exactly two candidates and no card, or nothing at all.
\<close>

theorem resolve_reference_shape: "reference_result_ok (resolve_reference pid reference scope d)"
proof -
  have "length (find_by_id_prefix pid p scope 2 d) \<le> 2" "length (find_by_exact_title pid reference scope 2 d) \<le> 2" for p
    by (auto simp: find_by_id_prefix_def find_by_exact_title_def Let_def)
  then show ?thesis
    using from_candidates_ok
    by (auto simp: resolve_reference_def Let_def split: option.splits)
qed

lemma append_le_string: "p \<le> p @ (x :: string)"
  by (induction p) auto

lemma append_less_string: "p @ x < p @ (y :: string) \<longleftrightarrow> x < y"
  by (induction p) auto

lemma uuid_chars:
  assumes "is_valid_uuid v" and "c \<in> set v"
  shows "c < CHR ''~''"
proof -
  from uuid_char_cases [OF assms] show ?thesis
    by (auto simp: is_hex_digit_def is_digit_def less_char_def char_le_iff)
qed

lemma uuid_prefix_range:
  assumes "is_valid_uuid v" and "starts_with v p"
  shows "p \<le> v" and "v < p @ ''~''"
proof -
  from assms(2) obtain r where r: "v = p @ r" by (auto simp: starts_with_iff)
  then show "p \<le> v" using append_le_string by simp
  have "r < ''~''" using uuid_chars [OF assms(1)] r by (cases r) auto
  then show "v < p @ ''~''" using append_less_string r by simp
qed

lemma lowercase_hex_nul:
  assumes "is_hex_digit c"
  shows "lowercase_hex c \<noteq> CHR 0x00" and "CHR 0x00 \<noteq> lowercase_hex c"
proof -
  have "(of_char (lowercase_hex c) :: nat) \<noteq> 0"
    using assms by (auto simp: lowercase_hex_def is_hex_digit_def is_digit_def char_le_iff)
  then show "lowercase_hex c \<noteq> CHR 0x00" by auto
  then show "CHR 0x00 \<noteq> lowercase_hex c" by simp
qed

lemma prefix_scan_nul: "prefix_scan i cs = Some (n, k) \<Longrightarrow> nul_free n"
  by (induction i cs arbitrary: n k rule: prefix_scan.induct)
    (auto simp: nul_free_def lowercase_hex_nul split: if_splits)

lemma normalize_uuid_prefix_nul: "normalize_uuid_prefix r = Some p \<Longrightarrow> nul_free p"
  by (auto simp: normalize_uuid_prefix_def dest: prefix_scan_nul split: if_splits option.splits)

lemma filter_singleton: "filter p xs = [c] \<Longrightarrow> c \<in> set xs \<and> p c \<and> (\<forall>x \<in> set xs. p x \<longrightarrow> x = c)"
proof -
  assume f: "filter p xs = [c]"
  then have "set (filter p xs) = {c}" by simp
  then show ?thesis by auto
qed

lemma sort_by_singleton: "sort_by lt xs = [c] \<Longrightarrow> xs = [c]"
  by (metis mset_sort_by mset_single_iff_right mset.simps mset_single_iff)

text \<open>
  C37: a resolved reference is the one card it can mean. The card is in the project and the scope; by
  full identifier it is the card with that identifier, by prefix no other card of the scope with a
  UUID has that prefix, by title no other card of the scope has that title.
\<close>

theorem resolved_reference_unique:
  assumes "ref_card (resolve_reference pid reference scope d) = Some c"
  shows "c \<in> set (cards d) \<and> project_id c = c_str pid \<and> deletion_scope scope c \<and>
    (case the (ref_match_kind (resolve_reference pid reference scope d)) of
       FullId \<Rightarrow> card_id c = c_str (lowercase_uuid reference)
     | IdPrefix \<Rightarrow> (\<exists>p. normalize_uuid_prefix reference = Some p \<and> starts_with (card_id c) p \<and>
         (\<forall>q \<in> set (cards d). project_id q = c_str pid \<and> deletion_scope scope q \<and> is_valid_uuid (card_id q)
            \<and> starts_with (card_id q) p \<longrightarrow> q = c))
     | ExactTitle \<Rightarrow> title c = c_str reference \<and>
         (\<forall>q \<in> set (cards d). project_id q = c_str pid \<and> deletion_scope scope q \<and> title q = c_str reference \<longrightarrow> q = c))"
proof -
  let ?r = "resolve_reference pid reference scope d"
  let ?title = "from_candidates (find_by_exact_title pid reference scope 2 d) ExactTitle"
  let ?pre = "\<lambda>p. from_candidates (find_by_id_prefix pid p scope 2 d) IdPrefix"
  consider (full) "is_valid_uuid reference" "find_by_id pid (lowercase_uuid reference) scope d = Some c" "?r = ref_resolved c FullId"
    | (prefix) p where "normalize_uuid_prefix reference = Some p" "?r = ?pre p" "ref_card (?pre p) = Some c"
    | (exact) "?r = ?title" "ref_card ?title = Some c"
    using assms by (auto simp: resolve_reference_def Let_def ref_resolved_def not_found_def split: option.splits if_splits)
  then show ?thesis
  proof cases
    case full
    then show ?thesis by (auto simp: find_by_id_def ref_resolved_def dest!: find_SomeD)
  next
    case (prefix p)
    note nul = c_str_nul_free [OF normalize_uuid_prefix_nul [OF prefix(1)]]
    from prefix(3) have "filter (\<lambda>r. project_id r = c_str pid \<and> p \<le> card_id r \<and> card_id r < p @ ''~''
        \<and> take (length p) (card_id r) = p \<and> deletion_scope scope r) (cards d) = [c]"
      by (auto simp: find_by_id_prefix_def Let_def nul dest!: from_candidates_resolved sort_by_singleton)
    note f = filter_singleton [OF this]
    have "\<forall>q \<in> set (cards d). project_id q = c_str pid \<and> deletion_scope scope q \<and> is_valid_uuid (card_id q)
        \<and> starts_with (card_id q) p \<longrightarrow> q = c"
    proof (intro ballI impI)
      fix q assume q: "q \<in> set (cards d)" "project_id q = c_str pid \<and> deletion_scope scope q \<and> is_valid_uuid (card_id q)
        \<and> starts_with (card_id q) p"
      with uuid_prefix_range [of "card_id q" p] f show "q = c" by (auto simp: starts_with_def)
    qed
    moreover have "the (ref_match_kind ?r) = IdPrefix" using from_candidates_sel [OF prefix(3)] prefix(2) by simp
    ultimately show ?thesis using f prefix(1) by (auto simp: starts_with_def)
  next
    case exact
    from exact(2) have "filter (\<lambda>r. project_id r = c_str pid \<and> title r = c_str reference \<and> deletion_scope scope r) (cards d) = [c]"
      by (auto simp: find_by_exact_title_def dest!: from_candidates_resolved)
    note f = filter_singleton [OF this]
    moreover have "the (ref_match_kind ?r) = ExactTitle" using from_candidates_sel [OF exact(2)] exact(1) by simp
    ultimately show ?thesis by auto
  qed
qed

theorem resolved_reference_unique_witness:
  "ref_card (resolve_reference ''p'' ''bb02'' Live demo_db) = Some (demo_card ''bb02'' 1)
   \<and> title (demo_card ''bb02'' 1) = c_str ''bb02''"
proof -
  have r: "ref_card (resolve_reference ''p'' ''bb02'' Live demo_db) = Some (demo_card ''bb02'' 1)" by code_simp
  have "the (ref_match_kind (resolve_reference ''p'' ''bb02'' Live demo_db)) = ExactTitle" by code_simp
  with r resolved_reference_unique [OF r] show ?thesis by simp
qed

end
