(* ===== verification/Git_Model.thy ===== *)
theory Git_Model
  imports Holder_Prelude
begin

text \<open>
  A project directory on disk: its working files, the mutation journal and the Git repository. The
  repository operations are those of \<open>src/src/git/GitRepo.cpp\<close>; what libgit2 computes (object ids,
  history walks) are the fields of a record of functions. HEAD names a branch. An I/O failure of an
  operation is an exception raised before its effect.
\<close>

section \<open>State\<close>

type_synonym oid = string
type_synonym tree = "path \<Rightarrow> oid option"

record git_commit =
  c_parents :: "oid list"
  c_tree :: tree
  c_message :: string
  c_time :: i64

record git_repo =
  r_head :: string
  r_refs :: "string \<Rightarrow> oid option"
  r_commits :: "oid \<Rightarrow> git_commit option"
  r_index :: "tree option"
  r_conflicts :: bool
  r_remotes :: "string \<Rightarrow> string option"

text \<open>
  What libgit2 provides: blob and commit ids, the blob stored under an id, the commits a walk from a
  tip lists, and the branch a new repository's HEAD names.
\<close>

record git_lib =
  blob_id :: "bytes \<Rightarrow> oid"
  blob_lookup :: "oid \<Rightarrow> bytes option"
  commit_id :: "git_commit \<Rightarrow> oid"
  revwalk :: "(oid \<Rightarrow> git_commit option) \<Rightarrow> oid \<Rightarrow> oid option \<Rightarrow> oid list"
  init_branch :: string

text \<open>The journal: per path its bytes before the operation and, if it changes, after it.\<close>

record journal_file =
  jf_key :: path
  jf_before :: "bytes option"
  jf_after :: "bytes option option"

record journal =
  j_version :: nat
  j_files :: "journal_file list"
  j_head :: "oid option"
  j_reference :: string
  j_index :: "tree option"

record disk =
  d_files :: "path \<Rightarrow> bytes option"
  d_journal :: "journal option"
  d_repo :: "git_repo option"

section \<open>Repository operations\<close>

definition index_of_repo :: "git_repo \<Rightarrow> tree" where
  "index_of_repo r = (case r_index r of None \<Rightarrow> \<lambda>_. None | Some t \<Rightarrow> t)"

definition branch_tip_of :: "git_repo \<Rightarrow> oid option" where
  "branch_tip_of r = r_refs r (r_head r)"

definition open_or_init :: "git_lib \<Rightarrow> disk \<Rightarrow> disk" where
  "open_or_init lib d =
     (case d_repo d of
        Some _ \<Rightarrow> d
      | None \<Rightarrow> d\<lparr>d_repo := Some \<lparr>r_head = init_branch lib, r_refs = \<lambda>_. None, r_commits = \<lambda>_. None,
                 r_index = None, r_conflicts = False, r_remotes = \<lambda>_. None\<rparr>\<rparr>)"

definition set_remote :: "string \<Rightarrow> string \<Rightarrow> disk \<Rightarrow> disk result" where
  "set_remote name url d =
     (case d_repo d of
        None \<Rightarrow> Inl (RuntimeError ''Repository is not open'')
      | Some r \<Rightarrow> Inr (d\<lparr>d_repo := Some (r\<lparr>r_remotes := (r_remotes r)(name := Some url)\<rparr>)\<rparr>))"

definition read_blob_at :: "git_lib \<Rightarrow> oid \<Rightarrow> path \<Rightarrow> disk \<Rightarrow> bytes option result" where
  "read_blob_at lib i p d =
     (case d_repo d of
        None \<Rightarrow> Inl (RuntimeError ''Repository is not open'')
      | Some r \<Rightarrow>
          (case r_commits r i of
             None \<Rightarrow> Inl (RuntimeError ''git_commit_lookup failed'')
           | Some c \<Rightarrow>
               (case c_tree c p of
                  None \<Rightarrow> Inr None
                | Some b \<Rightarrow>
                    (case blob_lookup lib b of
                       None \<Rightarrow> Inl (RuntimeError ''git_blob_lookup failed'')
                     | Some data \<Rightarrow> Inr (Some data)))))"

definition git_write_file :: "path \<Rightarrow> bytes \<Rightarrow> disk \<Rightarrow> disk result" where
  "git_write_file p b d = Inr (d\<lparr>d_files := (d_files d)(p := Some b)\<rparr>)"

definition stage_path :: "git_lib \<Rightarrow> path \<Rightarrow> disk \<Rightarrow> disk result" where
  "stage_path lib p d =
     (case d_repo d of
        None \<Rightarrow> Inl (RuntimeError ''Repository is not open'')
      | Some r \<Rightarrow>
          (case d_files d p of
             None \<Rightarrow> Inl (RuntimeError ''git_index_add_bypath failed'')
           | Some b \<Rightarrow>
               Inr (d\<lparr>d_repo := Some (r\<lparr>r_index := Some ((index_of_repo r)(p := Some (blob_id lib b)))\<rparr>)\<rparr>)))"

text \<open>\<open>stage_paths\<close> writes the index once, after the last path was added.\<close>

definition stage_paths :: "git_lib \<Rightarrow> path list \<Rightarrow> disk \<Rightarrow> disk result" where
  "stage_paths lib ps d = rfold (stage_path lib) ps d"

definition remove_path :: "path \<Rightarrow> disk \<Rightarrow> disk result" where
  "remove_path p d =
     (case d_repo d of
        None \<Rightarrow> Inl (RuntimeError ''Repository is not open'')
      | Some r \<Rightarrow> Inr (d\<lparr>d_repo := Some (r\<lparr>r_index := Some ((index_of_repo r)(p := None))\<rparr>)\<rparr>))"

definition git_commit_op :: "git_lib \<Rightarrow> string \<Rightarrow> i64 \<Rightarrow> disk \<Rightarrow> disk result" where
  "git_commit_op lib msg now d =
     (case d_repo d of
        None \<Rightarrow> Inl (RuntimeError ''Repository is not open'')
      | Some r \<Rightarrow>
          let c = \<lparr>c_parents = (case branch_tip_of r of None \<Rightarrow> [] | Some h \<Rightarrow> [h]),
                   c_tree = index_of_repo r, c_message = msg, c_time = now\<rparr>;
              i = commit_id lib c
          in if (case branch_tip_of r of None \<Rightarrow> False | Some h \<Rightarrow> r_commits r h = None)
             then Inl (RuntimeError ''git_commit_lookup failed'')
             else Inr (d\<lparr>d_repo := Some (r\<lparr>r_index := Some (index_of_repo r),
                     r_commits := (r_commits r)(i := Some c),
                     r_refs := (r_refs r)(r_head r := Some i)\<rparr>)\<rparr>))"

text \<open>\<open>Fs::rename\<close>: the source must exist; an existing target is replaced.\<close>

definition fs_rename :: "path \<Rightarrow> path \<Rightarrow> disk \<Rightarrow> disk result" where
  "fs_rename from dst d =
     (case d_files d from of
        None \<Rightarrow> Inl (RuntimeError ''rename failed'')
      | Some b \<Rightarrow> Inr (d\<lparr>d_files := (d_files d)(from := None, dst := Some b)\<rparr>))"

end
