(* ===== verification/Card_Mutation.thy ===== *)
theory Card_Mutation
  imports Git_Model
begin

text \<open>
  Journaled changes of several card files: \<open>src/src/card/CardMutation.cpp\<close>. The journal is written
  before the first file changes; a caught failure rolls back, an interruption is settled by
  recovery.
\<close>

section \<open>Journal files\<close>

primrec split_slash :: "string \<Rightarrow> string list" where
  "split_slash [] = [[]]"
| "split_slash (c # cs) =
     (if c = CHR ''/'' then [] # split_slash cs
      else (case split_slash cs of [] \<Rightarrow> [[c]] | w # ws \<Rightarrow> (c # w) # ws))"

text \<open>\<open>lexically_normal() == path\<close> for a relative path without \<open>..\<close>.\<close>

definition lexically_normal :: "path \<Rightarrow> bool" where
  "lexically_normal p \<longleftrightarrow>
     (let ws = split_slash p
      in list_all (\<lambda>w. w \<noteq> [] \<and> w \<noteq> ''.'') (butlast ws) \<and> last ws \<noteq> ''.'')"

fun has_dotdot :: "string \<Rightarrow> bool" where
  "has_dotdot (a # b # cs) = (a = CHR ''.'' \<and> b = CHR ''.'' \<or> has_dotdot (b # cs))"
| "has_dotdot _ = False"

definition journal_file_path :: "path \<Rightarrow> path result" where
  "journal_file_path key =
     (if starts_with key ''/'' \<or> \<not> lexically_normal key \<or> has_dotdot key
         \<or> \<not> (starts_with key ''cards/'' \<or> starts_with key ''trash/cards/'')
      then Inl (RuntimeError ''invalid card mutation recovery path'')
      else Inr key)"

definition restore_file :: "path \<Rightarrow> bytes option \<Rightarrow> disk \<Rightarrow> disk" where
  "restore_file p data d = d\<lparr>d_files := (d_files d)(p := data)\<rparr>"

definition restore_original_file :: "journal_file \<Rightarrow> disk \<Rightarrow> disk result" where
  "restore_original_file f d =
     rbind (journal_file_path (jf_key f)) (\<lambda>p. Inr (restore_file p (jf_before f) d))"

definition restore_original_files :: "journal \<Rightarrow> disk \<Rightarrow> disk result" where
  "restore_original_files saved d = rfold restore_original_file (j_files saved) d"

section \<open>Recognising the operation's commit\<close>

definition branch_tip :: "journal \<Rightarrow> git_repo \<Rightarrow> oid option" where
  "branch_tip saved r = r_refs r (j_reference saved)"

definition holds_intended :: "git_lib \<Rightarrow> tree \<Rightarrow> journal_file \<Rightarrow> bool" where
  "holds_intended lib t f =
     (case jf_after f of
        None \<Rightarrow> True
      | Some after \<Rightarrow> t (jf_key f) = map_option (blob_id lib) after)"

definition is_operation_commit :: "git_lib \<Rightarrow> git_repo \<Rightarrow> oid \<Rightarrow> journal \<Rightarrow> bool result" where
  "is_operation_commit lib r i saved =
     (case r_commits r i of
        None \<Rightarrow> Inl (RuntimeError ''card mutation Git failure'')
      | Some c \<Rightarrow>
          Inr (c_parents c = (case j_head saved of None \<Rightarrow> [] | Some h \<Rightarrow> [h])
               \<and> list_all (holds_intended lib (c_tree c)) (j_files saved)))"

text \<open>The loop over the walk looks at no more than ten thousand commits.\<close>

primrec find_landed :: "git_lib \<Rightarrow> git_repo \<Rightarrow> journal \<Rightarrow> oid list \<Rightarrow> oid option result" where
  "find_landed lib r saved [] = Inr None"
| "find_landed lib r saved (i # is) =
     rbind (is_operation_commit lib r i saved)
       (\<lambda>b. if b then Inr (Some i) else find_landed lib r saved is)"

definition landed_commit :: "git_lib \<Rightarrow> git_repo \<Rightarrow> journal \<Rightarrow> oid option result" where
  "landed_commit lib r saved =
     (case branch_tip saved r of
        None \<Rightarrow> Inr None
      | Some tip \<Rightarrow> find_landed lib r saved (take 10000 (revwalk lib (r_commits r) tip (j_head saved))))"

section \<open>Index\<close>

definition take_paths :: "journal \<Rightarrow> tree \<Rightarrow> tree \<Rightarrow> tree" where
  "take_paths saved from original =
     fold (\<lambda>f t. t(jf_key f := from (jf_key f))) (j_files saved) original"

definition saved_index :: "journal \<Rightarrow> tree" where
  "saved_index saved = (case j_index saved of None \<Rightarrow> \<lambda>_. None | Some t \<Rightarrow> t)"

definition restore_unrelated_index :: "journal \<Rightarrow> oid \<Rightarrow> git_repo \<Rightarrow> git_repo result" where
  "restore_unrelated_index saved i r =
     (case r_commits r i of
        None \<Rightarrow> Inl (RuntimeError ''card mutation Git failure'')
      | Some c \<Rightarrow> Inr (r\<lparr>r_index := Some (take_paths saved (c_tree c) (saved_index saved))\<rparr>))"

section \<open>Undoing\<close>

definition reset_branch :: "git_lib \<Rightarrow> journal \<Rightarrow> git_repo \<Rightarrow> git_repo result" where
  "reset_branch lib saved r =
     (case branch_tip saved r of
        None \<Rightarrow> Inr r
      | Some tip \<Rightarrow>
          if Some tip = j_head saved then Inr r
          else rbind (is_operation_commit lib r tip saved)
                 (\<lambda>own. Inr (if own then r\<lparr>r_refs := (r_refs r)(j_reference saved := j_head saved)\<rparr> else r)))"

definition roll_back :: "git_lib \<Rightarrow> journal \<Rightarrow> disk \<Rightarrow> disk result" where
  "roll_back lib saved d =
     rbind (case d_repo d of
              None \<Rightarrow> Inr d
            | Some r \<Rightarrow> rbind (reset_branch lib saved r) (\<lambda>r'. Inr (d\<lparr>d_repo := Some r'\<rparr>)))
       (\<lambda>d1. rbind (restore_original_files saved d1)
         (\<lambda>d2. Inr (d2\<lparr>d_repo := map_option (\<lambda>r. r\<lparr>r_index := j_index saved\<rparr>) (d_repo d2)\<rparr>)))"

definition recover_file :: "journal_file \<Rightarrow> disk \<Rightarrow> disk result" where
  "recover_file f d =
     (case jf_after f of
        None \<Rightarrow> Inr d
      | Some after \<Rightarrow>
          rbind (journal_file_path (jf_key f))
            (\<lambda>p. Inr (if d_files d p = after then restore_file p (jf_before f) d else d)))"

definition recover_journal :: "git_lib \<Rightarrow> journal \<Rightarrow> disk \<Rightarrow> disk result" where
  "recover_journal lib saved d =
     (if j_version saved \<noteq> 2 then Inl (RuntimeError ''unsupported card mutation journal'')
      else case d_repo d of
             None \<Rightarrow> restore_original_files saved d
           | Some r \<Rightarrow>
               if branch_tip saved r = j_head saved
               then rbind (restore_original_files saved d)
                      (\<lambda>d1. Inr (d1\<lparr>d_repo := Some (r\<lparr>r_index := j_index saved\<rparr>)\<rparr>))
               else rbind (landed_commit lib r saved)
                      (\<lambda>landed.
                         case landed of
                           Some i \<Rightarrow>
                             if branch_tip_of r = Some i
                             then rbind (restore_unrelated_index saved i r)
                                    (\<lambda>r'. Inr (d\<lparr>d_repo := Some r'\<rparr>))
                             else Inr d
                         | None \<Rightarrow> rfold recover_file (j_files saved) d))"

section \<open>The life of a mutation\<close>

text \<open>The journal holds one entry per path, as the keys of a JSON object.\<close>

definition mutation_new ::
  "path list \<Rightarrow> (path \<times> bytes option) list \<Rightarrow> disk \<Rightarrow> journal result"
where
  "mutation_new paths changes d =
     rbind (require (d_journal d = None) (RuntimeError ''card mutation recovery required''))
       (\<lambda>_. rbind (rmap journal_file_path paths)
         (\<lambda>_. rbind (require (list_all (\<lambda>(p, _). p \<in> set paths) changes) (InvalidArgument ''unjournaled card change''))
           (\<lambda>_. let files = map (\<lambda>p. \<lparr>jf_key = p, jf_before = d_files d p, jf_after = map_of changes p\<rparr>) (remdups paths)
                in case d_repo d of
                     None \<Rightarrow> Inr \<lparr>j_version = 2, j_files = files, j_head = None, j_reference = [], j_index = None\<rparr>
                   | Some r \<Rightarrow>
                       if r_conflicts r
                       then Inl (RuntimeError ''resolve Git conflicts before changing card lifecycle'')
                       else Inr \<lparr>j_version = 2, j_files = files, j_head = branch_tip_of r,
                              j_reference = r_head r, j_index = r_index r\<rparr>)))"

text \<open>\<open>begin\<close>: the journal is renamed into place, then the index is reset to the tree of HEAD.\<close>

definition write_journal :: "journal \<Rightarrow> disk \<Rightarrow> disk result" where
  "write_journal saved d = Inr (d\<lparr>d_journal := Some saved\<rparr>)"

definition reset_index :: "journal \<Rightarrow> disk \<Rightarrow> disk result" where
  "reset_index saved d =
     (case d_repo d of
        None \<Rightarrow> Inr d
      | Some r \<Rightarrow>
          (case j_head saved of
             None \<Rightarrow> Inr (d\<lparr>d_repo := Some (r\<lparr>r_index := Some (\<lambda>_. None)\<rparr>)\<rparr>)
           | Some _ \<Rightarrow>
               (case Option.bind (branch_tip_of r) (r_commits r) of
                  None \<Rightarrow> Inl (RuntimeError ''card mutation Git failure'')
                | Some c \<Rightarrow> Inr (d\<lparr>d_repo := Some (r\<lparr>r_index := Some (c_tree c)\<rparr>)\<rparr>))))"

definition mutation_begin :: "journal \<Rightarrow> disk \<Rightarrow> disk result" where
  "mutation_begin saved d = rbind (write_journal saved d) (reset_index saved)"

definition preserve_unrelated_index :: "journal \<Rightarrow> disk \<Rightarrow> disk result" where
  "preserve_unrelated_index saved d =
     Inr (d\<lparr>d_repo := map_option
        (\<lambda>r. r\<lparr>r_index := Some (take_paths saved (index_of_repo r) (saved_index saved))\<rparr>) (d_repo d)\<rparr>)"

definition mutation_finish :: "disk \<Rightarrow> disk" where
  "mutation_finish d = d\<lparr>d_journal := None\<rparr>"

definition mutation_rollback :: "git_lib \<Rightarrow> journal \<Rightarrow> disk \<Rightarrow> disk result" where
  "mutation_rollback lib saved d = rbind (roll_back lib saved d) (\<lambda>d'. Inr (mutation_finish d'))"

definition recover_files :: "git_lib \<Rightarrow> disk \<Rightarrow> disk result" where
  "recover_files lib d =
     (case d_journal d of None \<Rightarrow> Inr d | Some saved \<Rightarrow> recover_journal lib saved d)"

end
