(* ===== verification/Card_Lifecycle.thy ===== *)
theory Card_Lifecycle
  imports Card_Mutation
begin

text \<open>
  The journaled part of \<open>CardStore::apply_card_changes\<close> in \<open>src/src/card/CardStore.cpp\<close>: renames and
  writes of card files, staging, the commit and the clean-up, one step at a time, so that a failure
  or an interruption can be placed between any two of them.
\<close>

section \<open>Steps\<close>

type_synonym step = "disk \<Rightarrow> disk result"

definition rename_steps :: "path \<times> path \<Rightarrow> step list" where
  "rename_steps rn = [fs_rename (fst rn) (snd rn), remove_path (fst rn)]"

definition verify_write :: "path \<Rightarrow> bytes \<Rightarrow> step" where
  "verify_write p b d =
     rbind (require (d_files d p = Some b) (RuntimeError ''incomplete card lifecycle write'')) (\<lambda>_. Inr d)"

definition write_steps :: "git_lib \<Rightarrow> path \<times> bytes \<Rightarrow> step list" where
  "write_steps lib w = [git_write_file (fst w) (snd w), verify_write (fst w) (snd w), stage_path lib (fst w)]"

definition safe_step :: "(disk \<Rightarrow> unit result) \<Rightarrow> step" where
  "safe_step safe d = rbind (safe d) (\<lambda>_. Inr d)"

definition change_steps ::
  "git_lib \<Rightarrow> journal \<Rightarrow> (path \<times> path) list \<Rightarrow> (path \<times> bytes) list \<Rightarrow> (disk \<Rightarrow> unit result) \<Rightarrow> step list"
where
  "change_steps lib saved renames writes safe =
     [write_journal saved, reset_index saved] @ concat (map rename_steps renames)
       @ concat (map (write_steps lib) writes) @ [safe_step safe]"

definition mutation_steps ::
  "git_lib \<Rightarrow> journal \<Rightarrow> (path \<times> path) list \<Rightarrow> (path \<times> bytes) list \<Rightarrow> (disk \<Rightarrow> unit result)
     \<Rightarrow> string \<Rightarrow> i64 \<Rightarrow> step list"
where
  "mutation_steps lib saved renames writes safe msg now =
     change_steps lib saved renames writes safe
       @ [git_commit_op lib msg now, preserve_unrelated_index saved]"

text \<open>\<open>file_changes\<close>: every renamed path disappears unless it is written; a later write wins.\<close>

definition file_changes :: "(path \<times> path) list \<Rightarrow> (path \<times> bytes) list \<Rightarrow> (path \<times> bytes option) list" where
  "file_changes renames writes =
     map (\<lambda>(p, b). (p, Some b)) (rev writes) @ map (\<lambda>(f, _). (f, None)) renames"

text \<open>Running steps until one throws, or until the fault strikes.\<close>

fun run_steps :: "nat option \<Rightarrow> step list \<Rightarrow> disk \<Rightarrow> disk \<times> exn option" where
  "run_steps fault [] d = (d, None)"
| "run_steps fault (s # ss) d =
     (if fault = Some 0 then (d, Some (RuntimeError ''I/O error''))
      else case s d of
             Inl e \<Rightarrow> (d, Some e)
           | Inr d' \<Rightarrow> run_steps (map_option (\<lambda>n. n - 1) fault) ss d')"

abbreviation exec_steps :: "step list \<Rightarrow> step" where
  "exec_steps ss \<equiv> rfold (\<lambda>s d. s d) ss"

lemma run_steps_prefix:
  assumes "run_steps fault ss d = (d', Some e)"
  shows "\<exists>k \<le> length ss. exec_steps (take k ss) d = Inr d'"
  using assms
proof (induction ss arbitrary: fault d)
  case (Cons s ss)
  show ?case
  proof (cases "fault = Some 0")
    case True
    with Cons.prems show ?thesis by (intro exI [of _ 0]) auto
  next
    case False
    show ?thesis
    proof (cases "s d")
      case (Inl e')
      with False Cons.prems show ?thesis by (intro exI [of _ 0]) auto
    next
      case (Inr u)
      with False Cons.prems Cons.IH [of _ u] obtain k where "k \<le> length ss" "exec_steps (take k ss) u = Inr d'"
        by fastforce
      with Inr show ?thesis by (intro exI [of _ "Suc k"]) auto
    qed
  qed
qed simp

lemma run_steps_done: "run_steps fault ss d = (d', None) \<Longrightarrow> exec_steps ss d = Inr d'"
  by (induction fault ss d rule: run_steps.induct) (auto split: if_splits sum.splits)

section \<open>What a journal records\<close>

definition new_journal :: "path list \<Rightarrow> (path \<times> path) list \<Rightarrow> (path \<times> bytes) list \<Rightarrow> disk \<Rightarrow> journal \<Rightarrow> bool" where
  "new_journal paths renames writes d saved \<longleftrightarrow>
     mutation_new paths (file_changes renames writes) d = Inr saved \<and> snd ` set renames \<subseteq> set paths"

lemma file_changes_paths:
  assumes "list_all (\<lambda>(p, _). p \<in> S) (file_changes renames writes)"
  shows "fst ` set writes \<subseteq> S" and "fst ` set renames \<subseteq> S"
  using assms by (force simp: file_changes_def list_all_iff)+

lemma new_journalD:
  assumes "new_journal paths renames writes d saved"
  shows "d_journal d = None" and "list_all (\<lambda>p. journal_file_path p = Inr p) paths"
    and "j_files saved = map (\<lambda>p. \<lparr>jf_key = p, jf_before = d_files d p,
        jf_after = map_of (file_changes renames writes) p\<rparr>) (remdups paths)"
    and "fst ` set writes \<subseteq> set paths" and "fst ` set renames \<subseteq> set paths" and "snd ` set renames \<subseteq> set paths"
    and "j_version saved = 2"
    and "d_repo d = Some r \<Longrightarrow> j_head saved = branch_tip_of r \<and> j_reference saved = r_head r \<and> j_index saved = r_index r"
proof -
  from assms have m: "mutation_new paths (file_changes renames writes) d = Inr saved"
    by (auto simp: new_journal_def)
  from assms show "snd ` set renames \<subseteq> set paths" by (auto simp: new_journal_def)
  from m show "d_journal d = None" by (auto simp: mutation_new_def rbind_eq_Inr)
  from m obtain ps where "rmap journal_file_path paths = Inr ps" by (auto simp: mutation_new_def rbind_eq_Inr)
  then show "list_all (\<lambda>p. journal_file_path p = Inr p) paths"
    by (auto simp: rmap_Inr_iff list_all_iff list_all2_conv_all_nth in_set_conv_nth journal_file_path_def split: if_splits)
  from m have "list_all (\<lambda>(p, _). p \<in> set paths) (file_changes renames writes)" by (auto simp: mutation_new_def rbind_eq_Inr)
  then show "fst ` set writes \<subseteq> set paths" "fst ` set renames \<subseteq> set paths" by (auto dest: file_changes_paths)
  from m show "j_version saved = 2" "j_files saved = map (\<lambda>p. \<lparr>jf_key = p, jf_before = d_files d p,
        jf_after = map_of (file_changes renames writes) p\<rparr>) (remdups paths)"
    by (auto simp: mutation_new_def rbind_eq_Inr Let_def split: option.splits if_splits)
  show "j_head saved = branch_tip_of r \<and> j_reference saved = r_head r \<and> j_index saved = r_index r" if "d_repo d = Some r"
    using m that by (auto simp: mutation_new_def rbind_eq_Inr Let_def split: if_splits)
qed

section \<open>Where an interruption can leave the project\<close>

text \<open>
  A mutation stops between two steps, or inside a file operation after the journal exists: then one
  journaled file holds arbitrary bytes.
\<close>

definition interrupted ::
  "git_lib \<Rightarrow> journal \<Rightarrow> (path \<times> path) list \<Rightarrow> (path \<times> bytes) list \<Rightarrow> (disk \<Rightarrow> unit result)
     \<Rightarrow> string \<Rightarrow> i64 \<Rightarrow> disk \<Rightarrow> disk \<Rightarrow> bool"
where
  "interrupted lib saved renames writes safe msg now d d' \<longleftrightarrow>
     (let steps = mutation_steps lib saved renames writes safe msg now
      in (\<exists>k \<le> length steps. exec_steps (take k steps) d = Inr d')
         \<or> (\<exists>k d1 f x. 2 \<le> k \<and> k < length (change_steps lib saved renames writes safe)
               \<and> exec_steps (take k steps) d = Inr d1 \<and> f \<in> set (j_files saved)
               \<and> d' = d1\<lparr>d_files := (d_files d1)(jf_key f := x)\<rparr>))"

text \<open>Until the commit only journaled files and the index have changed.\<close>

definition uncommitted :: "path set \<Rightarrow> git_repo \<Rightarrow> journal \<Rightarrow> disk \<Rightarrow> disk \<Rightarrow> bool" where
  "uncommitted paths r saved d d' \<longleftrightarrow>
     d_journal d' = Some saved \<and> map_option (\<lambda>q. q\<lparr>r_index := None\<rparr>) (d_repo d') = Some (r\<lparr>r_index := None\<rparr>)
     \<and> (\<forall>p. p \<notin> paths \<longrightarrow> d_files d' p = d_files d p)"

lemma uncommitted_step:
  assumes u: "uncommitted (set paths) r saved d d1" and s: "s d1 = Inr d2"
    and i: "s \<in> set ([reset_index saved] @ concat (map rename_steps renames)
       @ concat (map (write_steps lib) writes) @ [safe_step safe])"
    and p: "fst ` set writes \<subseteq> set paths" "fst ` set renames \<subseteq> set paths" "snd ` set renames \<subseteq> set paths"
  shows "uncommitted (set paths) r saved d d2"
proof -
  from i consider (r) "s = reset_index saved" | (s) "s = safe_step safe"
    | (n) rn where "rn \<in> set renames" "s \<in> set (rename_steps rn)"
    | (w) w where "w \<in> set writes" "s \<in> set (write_steps lib w)"
    by auto
  then show ?thesis
  proof cases
    case r
    with u s show ?thesis
      by (auto simp: uncommitted_def reset_index_def split: option.splits)
  next
    case s
    with u \<open>s d1 = Inr d2\<close> show ?thesis by (auto simp: uncommitted_def safe_step_def rbind_eq_Inr)
  next
    case n
    with p have "fst rn \<in> set paths" "snd rn \<in> set paths" by auto
    with n u s show ?thesis
      by (auto simp: uncommitted_def rename_steps_def fs_rename_def remove_path_def split: option.splits)
  next
    case w
    with p have "fst w \<in> set paths" by auto
    with w u s show ?thesis
      by (auto simp: uncommitted_def write_steps_def git_write_file_def verify_write_def stage_path_def
          rbind_eq_Inr split: option.splits)
  qed
qed

lemma uncommitted_prefix:
  assumes n: "new_journal paths renames writes d saved" and r: "d_repo d = Some r"
    and k: "1 \<le> k" "k \<le> length (change_steps lib saved renames writes safe)"
    and e: "exec_steps (take k (mutation_steps lib saved renames writes safe msg now)) d = Inr d'"
  shows "uncommitted (set paths) r saved d d'"
proof -
  define ss where "ss = [reset_index saved] @ concat (map rename_steps renames)
       @ concat (map (write_steps lib) writes) @ [safe_step safe]"
  have c: "change_steps lib saved renames writes safe = write_journal saved # ss"
    by (simp add: change_steps_def ss_def)
  from k c e have "exec_steps (take (k - 1) ss) (d\<lparr>d_journal := Some saved\<rparr>) = Inr d'"
    by (cases k) (simp_all add: mutation_steps_def write_journal_def)
  moreover have "uncommitted (set paths) r saved d (d\<lparr>d_journal := Some saved\<rparr>)"
    using r by (simp add: uncommitted_def)
  ultimately show ?thesis
  proof (rule rfold_invariant)
    fix s d1 d2
    assume i: "s \<in> set (take (k - 1) ss)" and u: "uncommitted (set paths) r saved d d1" and x: "s d1 = Inr d2"
    from i have "s \<in> set ss" by (rule in_set_takeD)
    from uncommitted_step [OF u x this [unfolded ss_def] new_journalD(4-6) [OF n]]
    show "uncommitted (set paths) r saved d d2" .
  qed
qed

section \<open>The commit holds what was intended\<close>

lemma rename_steps_index:
  assumes "exec_steps (concat (map rename_steps renames)) d = Inr d'" and "d_repo d = Some (r\<lparr>r_index := Some t\<rparr>)"
  shows "d_repo d' = Some (r\<lparr>r_index := Some (\<lambda>p. if p \<in> fst ` set renames then None else t p)\<rparr>)"
  using assms
proof (induction renames arbitrary: d t)
  case (Cons rn rns)
  from Cons.prems obtain u where u: "exec_steps (rename_steps rn) d = Inr u" "exec_steps (concat (map rename_steps rns)) u = Inr d'"
    by (auto simp: rfold_append rbind_eq_Inr)
  from u(1) Cons.prems(2) have "d_repo u = Some (r\<lparr>r_index := Some (t(fst rn := None))\<rparr>)"
    by (auto simp: rename_steps_def fs_rename_def remove_path_def index_of_repo_def rbind_eq_Inr split: option.splits)
  from Cons.IH [OF u(2) this] have "d_repo d' = Some (r\<lparr>r_index := Some (\<lambda>p. if p \<in> fst ` set rns then None else (t(fst rn := None)) p)\<rparr>)" .
  moreover have "(\<lambda>p. if p \<in> fst ` set rns then None else (t(fst rn := None)) p)
      = (\<lambda>p. if p \<in> fst ` set (rn # rns) then None else t p)" by auto
  ultimately show ?case by metis
qed simp

lemma write_steps_index:
  assumes "exec_steps (concat (map (write_steps lib) writes)) d = Inr d'" and "d_repo d = Some (r\<lparr>r_index := Some t\<rparr>)"
  shows "d_repo d' = Some (r\<lparr>r_index := Some (\<lambda>p. case map_of (rev writes) p of
      Some b \<Rightarrow> Some (blob_id lib b) | None \<Rightarrow> t p)\<rparr>)"
  using assms
proof (induction writes arbitrary: d t)
  case (Cons w ws)
  from Cons.prems obtain u where u: "exec_steps (write_steps lib w) d = Inr u" "exec_steps (concat (map (write_steps lib) ws)) u = Inr d'"
    by (auto simp: rfold_append rbind_eq_Inr)
  from u(1) Cons.prems(2) have "d_repo u = Some (r\<lparr>r_index := Some (t(fst w := Some (blob_id lib (snd w))))\<rparr>)"
    by (auto simp: write_steps_def git_write_file_def verify_write_def stage_path_def index_of_repo_def rbind_eq_Inr
        split: option.splits)
  from Cons.IH [OF u(2) this] have "d_repo d' = Some (r\<lparr>r_index := Some (\<lambda>p. case map_of (rev ws) p of
      Some b \<Rightarrow> Some (blob_id lib b) | None \<Rightarrow> (t(fst w := Some (blob_id lib (snd w)))) p)\<rparr>)" .
  moreover have "(\<lambda>p. case map_of (rev ws) p of
      Some b \<Rightarrow> Some (blob_id lib b) | None \<Rightarrow> (t(fst w := Some (blob_id lib (snd w)))) p)
      = (\<lambda>p. case map_of (rev (w # ws)) p of Some b \<Rightarrow> Some (blob_id lib b) | None \<Rightarrow> t p)"
    by (rule ext) (cases w, auto simp: map_of_append map_add_def split: option.splits)
  ultimately show ?case by simp
qed simp

lemma reset_index_repo:
  assumes "reset_index saved d = Inr d'" and "d_repo d = Some r"
  shows "\<exists>t. d_repo d' = Some (r\<lparr>r_index := Some t\<rparr>)"
  using assms by (auto simp: reset_index_def split: option.splits)

lemma map_of_file_changes:
  "map_of (file_changes renames writes) p =
     (case map_of (rev writes) p of
        Some b \<Rightarrow> Some (Some b)
      | None \<Rightarrow> if p \<in> fst ` set renames then Some None else None)"
proof -
  have "map_of (map (\<lambda>(p, b). (p, Some b)) ws) p = map_option Some (map_of ws p)" for ws :: "(path \<times> bytes) list"
    by (induction ws) auto
  moreover have "map_of (map (\<lambda>(f, _). (f, None)) renames) p = (if p \<in> fst ` set renames then Some None else None)"
    by (induction renames) auto
  ultimately show ?thesis
    by (force simp: file_changes_def map_add_def split: option.splits)
qed

lemma change_steps_index:
  assumes n: "new_journal paths renames writes d saved" and r: "d_repo d = Some r"
    and e: "exec_steps (change_steps lib saved renames writes safe) d = Inr d1"
  obtains t where "d_repo d1 = Some (r\<lparr>r_index := Some t\<rparr>)" and "list_all (holds_intended lib t) (j_files saved)"
proof -
  from e obtain d2 d3 d4 where x: "reset_index saved (d\<lparr>d_journal := Some saved\<rparr>) = Inr d2"
      "exec_steps (concat (map rename_steps renames)) d2 = Inr d3"
      "exec_steps (concat (map (write_steps lib) writes)) d3 = Inr d4" "safe_step safe d4 = Inr d1"
    by (auto simp: change_steps_def write_journal_def rfold_append rbind_eq_Inr)
  from reset_index_repo [OF x(1)] r obtain t0 where "d_repo d2 = Some (r\<lparr>r_index := Some t0\<rparr>)" by auto
  from write_steps_index [OF x(3) rename_steps_index [OF x(2) this]]
  obtain t where t: "d_repo d4 = Some (r\<lparr>r_index := Some t\<rparr>)"
      "\<And>p. t p = (case map_of (rev writes) p of Some b \<Rightarrow> Some (blob_id lib b)
                    | None \<Rightarrow> if p \<in> fst ` set renames then None else t0 p)" by blast
  show ?thesis
  proof
    from x(4) t(1) show "d_repo d1 = Some (r\<lparr>r_index := Some t\<rparr>)" by (auto simp: safe_step_def rbind_eq_Inr)
    show "list_all (holds_intended lib t) (j_files saved)"
      using t(2) by (auto simp: new_journalD(3) [OF n] list_all_iff holds_intended_def map_of_file_changes
          split: option.splits)
  qed
qed

section \<open>A commit that landed\<close>

definition committed :: "git_lib \<Rightarrow> journal \<Rightarrow> git_repo \<Rightarrow> git_commit \<Rightarrow> git_repo \<Rightarrow> bool" where
  "committed lib saved r c q \<longleftrightarrow>
     c_parents c = (case j_head saved of None \<Rightarrow> [] | Some h \<Rightarrow> [h])
     \<and> list_all (holds_intended lib (c_tree c)) (j_files saved)
     \<and> q = r\<lparr>r_index := r_index q, r_commits := (r_commits r)(commit_id lib c := Some c),
            r_refs := (r_refs r)(r_head r := Some (commit_id lib c))\<rparr>"

abbreviation settled_index :: "journal \<Rightarrow> git_commit \<Rightarrow> git_repo \<Rightarrow> git_repo" where
  "settled_index saved c q \<equiv> q\<lparr>r_index := Some (take_paths saved (c_tree c) (saved_index saved))\<rparr>"

lemma landed_is_committed:
  assumes n: "new_journal paths renames writes d saved" and r: "d_repo d = Some r"
    and e: "exec_steps (change_steps lib saved renames writes safe) d = Inr d1"
    and c: "git_commit_op lib msg now d1 = Inr d2"
  obtains c where "c_parents c = (case j_head saved of None \<Rightarrow> [] | Some h \<Rightarrow> [h])"
    and "list_all (holds_intended lib (c_tree c)) (j_files saved)"
    and "d2 = d1\<lparr>d_repo := Some (r\<lparr>r_index := Some (c_tree c), r_commits := (r_commits r)(commit_id lib c := Some c),
               r_refs := (r_refs r)(r_head r := Some (commit_id lib c))\<rparr>)\<rparr>"
proof -
  obtain t where t: "d_repo d1 = Some (r\<lparr>r_index := Some t\<rparr>)" "list_all (holds_intended lib t) (j_files saved)"
    by (rule change_steps_index [OF n r e])
  let ?c = "\<lparr>c_parents = (case branch_tip_of r of None \<Rightarrow> [] | Some h \<Rightarrow> [h]), c_tree = t, c_message = msg, c_time = now\<rparr>"
  from new_journalD(8) [OF n r] have "j_head saved = branch_tip_of r" by simp
  with t c show ?thesis
    by (intro that [of ?c]) (auto simp: git_commit_op_def branch_tip_of_def index_of_repo_def Let_def split: if_splits)
qed

lemma commit_step_uncommitted:
  assumes n: "new_journal paths renames writes d saved" and r: "d_repo d = Some r"
    and e: "exec_steps (change_steps lib saved renames writes safe) d = Inr d1"
  shows "uncommitted (set paths) r saved d d1"
  using uncommitted_prefix [OF n r, of "length (change_steps lib saved renames writes safe)" lib safe undefined undefined d1] e
  by (simp add: mutation_steps_def) (simp add: change_steps_def)

lemma committed_prefix:
  assumes n: "new_journal paths renames writes d saved" and r: "d_repo d = Some r"
    and k: "length (change_steps lib saved renames writes safe) < k" "k \<le> length (mutation_steps lib saved renames writes safe msg now)"
    and e: "exec_steps (take k (mutation_steps lib saved renames writes safe msg now)) d = Inr d'"
  obtains d1 c q where "uncommitted (set paths) r saved d d1" "d' = d1\<lparr>d_repo := Some q\<rparr>" "committed lib saved r c q"
    "exec_steps (mutation_steps lib saved renames writes safe msg now) d = Inr (d1\<lparr>d_repo := Some (settled_index saved c q)\<rparr>)"
proof -
  define cs where "cs = change_steps lib saved renames writes safe"
  define ss where "ss = mutation_steps lib saved renames writes safe msg now"
  have ss: "ss = cs @ [git_commit_op lib msg now, preserve_unrelated_index saved]"
    by (simp add: ss_def cs_def mutation_steps_def)
  from k have k2: "k = length cs + 1 \<or> k = length cs + 2" by (auto simp: cs_def mutation_steps_def)
  from k2 e [folded ss_def] obtain d1 d2 where x: "exec_steps cs d = Inr d1" "git_commit_op lib msg now d1 = Inr d2"
      "d' = d2 \<or> preserve_unrelated_index saved d2 = Inr d'"
    by (auto simp: ss rfold_append rbind_eq_Inr)
  obtain c where c: "c_parents c = (case j_head saved of None \<Rightarrow> [] | Some h \<Rightarrow> [h])"
      "list_all (holds_intended lib (c_tree c)) (j_files saved)"
      "d2 = d1\<lparr>d_repo := Some (r\<lparr>r_index := Some (c_tree c), r_commits := (r_commits r)(commit_id lib c := Some c),
             r_refs := (r_refs r)(r_head r := Some (commit_id lib c))\<rparr>)\<rparr>"
    by (rule landed_is_committed [OF n r x(1) [unfolded cs_def] x(2)])
  let ?q = "\<lambda>x. r\<lparr>r_index := Some x, r_commits := (r_commits r)(commit_id lib c := Some c),
           r_refs := (r_refs r)(r_head r := Some (commit_id lib c))\<rparr>"
  let ?t = "take_paths saved (c_tree c) (saved_index saved)"
  have p: "preserve_unrelated_index saved d2 = Inr (d1\<lparr>d_repo := Some (?q ?t)\<rparr>)"
    by (simp add: c(3) preserve_unrelated_index_def index_of_repo_def)
  with x have f: "exec_steps ss d = Inr (d1\<lparr>d_repo := Some (?q ?t)\<rparr>)"
    by (simp add: ss rfold_append)
  from x(3) c(3) p have "d' = d1\<lparr>d_repo := Some (?q (c_tree c))\<rparr> \<or> d' = d1\<lparr>d_repo := Some (?q ?t)\<rparr>" by auto
  moreover have "committed lib saved r c (?q y)" for y using c(1,2) by (simp add: committed_def)
  ultimately show thesis
    using that [OF commit_step_uncommitted [OF n r x(1) [unfolded cs_def]], of "?q (c_tree c)" c]
      that [OF commit_step_uncommitted [OF n r x(1) [unfolded cs_def]], of "?q ?t" c] f
    by (auto simp: ss_def)
qed

lemma interrupted_cases:
  assumes n: "new_journal paths renames writes d saved" and r: "d_repo d = Some r"
    and i: "interrupted lib saved renames writes safe msg now d d'"
  obtains (untouched) "d' = d"
    | (uncommitted) "uncommitted (set paths) r saved d d'"
    | (committed) d1 c q where "uncommitted (set paths) r saved d d1" "d' = d1\<lparr>d_repo := Some q\<rparr>" "committed lib saved r c q"
        "exec_steps (mutation_steps lib saved renames writes safe msg now) d = Inr (d1\<lparr>d_repo := Some (settled_index saved c q)\<rparr>)"
proof -
  define cs where "cs = change_steps lib saved renames writes safe"
  define ss where "ss = mutation_steps lib saved renames writes safe msg now"
  note u = uncommitted_prefix [OF n r, where lib = lib and safe = safe and msg = msg and now = now, folded cs_def ss_def]
  from i consider (stop) k where "k \<le> length ss" "exec_steps (take k ss) d = Inr d'"
    | (torn) k d1 f x where "2 \<le> k" "k < length cs" "exec_steps (take k ss) d = Inr d1" "f \<in> set (j_files saved)"
        "d' = d1\<lparr>d_files := (d_files d1)(jf_key f := x)\<rparr>"
    by (auto simp: interrupted_def Let_def cs_def ss_def)
  then show thesis
  proof cases
    case torn
    with u [of k d1] have "uncommitted (set paths) r saved d d1" by simp
    with torn new_journalD(3) [OF n] have "uncommitted (set paths) r saved d d'"
      by (auto simp: uncommitted_def)
    then show thesis by (rule that(2))
  next
    case stop
    consider "k = 0" | "1 \<le> k" "k \<le> length cs" | "length cs < k" by linarith
    then show thesis
    proof cases
      case 1
      with stop show thesis by (intro that(1)) simp
    next
      case 2
      with u [of k d'] stop show thesis by (intro that(2)) simp
    next
      case 3
      show thesis
        by (rule committed_prefix [OF n r 3 [unfolded cs_def] stop [unfolded ss_def]]) (rule that(3))
    qed
  qed
qed

section \<open>Rollback\<close>

lemma restore_files_fold:
  assumes "list_all (\<lambda>p. journal_file_path p = Inr p) ps"
  shows "rfold restore_original_file (map (\<lambda>p. \<lparr>jf_key = p, jf_before = f p, jf_after = g p\<rparr>) ps) d
     = Inr (d\<lparr>d_files := \<lambda>p. if p \<in> set ps then f p else d_files d p\<rparr>)"
  using assms
proof (induction ps arbitrary: d)
  case (Cons p ps)
  have "(\<lambda>q. if q \<in> set ps then f q else ((d_files d)(p := f p)) q)
      = (\<lambda>q. if q \<in> set (p # ps) then f q else d_files d q)" by auto
  with Cons show ?case by (simp add: restore_original_file_def restore_file_def cong: if_cong)
qed simp

lemma restore_original_files_back:
  assumes n: "new_journal paths renames writes d saved" and u: "uncommitted (set paths) r saved d d1"
    and f: "d_files d2 = d_files d1"
  shows "restore_original_files saved d2 = Inr (d2\<lparr>d_files := d_files d\<rparr>)"
proof -
  have "list_all (\<lambda>p. journal_file_path p = Inr p) (remdups paths)"
    using new_journalD(2) [OF n] by (simp add: list_all_iff)
  from restore_files_fold [OF this] have "restore_original_files saved d2
      = Inr (d2\<lparr>d_files := \<lambda>p. if p \<in> set paths then d_files d p else d_files d2 p\<rparr>)"
    by (simp add: restore_original_files_def new_journalD(3) [OF n])
  moreover from u f have "(\<lambda>p. if p \<in> set paths then d_files d p else d_files d2 p) = d_files d"
    by (auto simp: uncommitted_def)
  ultimately show ?thesis by simp
qed

text \<open>An object id already in the object store is that of the object stored under it.\<close>

definition content_addressed :: "git_lib \<Rightarrow> git_repo \<Rightarrow> bool" where
  "content_addressed lib r \<longleftrightarrow> (\<forall>c. r_commits r (commit_id lib c) \<in> {None, Some c})"

lemma content_addressed_grows:
  assumes "content_addressed lib r"
  shows "r_commits r \<subseteq>\<^sub>m (r_commits r)(commit_id lib c := Some c)"
  using assms [unfolded content_addressed_def, rule_format, of c] by (auto simp: map_le_def)

lemma uncommitted_repo:
  assumes "uncommitted paths r saved d d'"
  obtains x where "d_repo d' = Some (r\<lparr>r_index := x\<rparr>)"
proof -
  from assms obtain q where q: "d_repo d' = Some q" "q\<lparr>r_index := None\<rparr> = r\<lparr>r_index := None\<rparr>"
    by (auto simp: uncommitted_def)
  then have "q = r\<lparr>r_index := r_index q\<rparr>"
    by (metis git_repo.surjective git_repo.update_convs(4) git_repo.ext_inject)
  with q(1) show thesis by (auto intro: that)
qed

lemma reset_branch_undoes:
  assumes n: "new_journal paths renames writes d saved" and r: "d_repo d = Some r"
    and q: "q = r\<lparr>r_index := x\<rparr> \<or> committed lib saved r c q"
  obtains cs y where "reset_branch lib saved q = Inr (r\<lparr>r_index := y, r_commits := cs\<rparr>)"
    and "cs = r_commits r \<or> (\<exists>c. cs = (r_commits r)(commit_id lib c := Some c))"
proof -
  from new_journalD(8) [OF n r] have j: "j_head saved = r_refs r (r_head r)" "j_reference saved = r_head r"
    by (simp_all add: branch_tip_of_def)
  from q show thesis
  proof
    assume "q = r\<lparr>r_index := x\<rparr>"
    with j have "reset_branch lib saved q = Inr (r\<lparr>r_index := x, r_commits := r_commits r\<rparr>)"
      by (auto simp: reset_branch_def branch_tip_def split: option.splits)
    then show thesis by (rule that) simp
  next
    assume "committed lib saved r c q"
    then have c: "c_parents c = (case j_head saved of None \<Rightarrow> [] | Some h \<Rightarrow> [h])"
        "list_all (holds_intended lib (c_tree c)) (j_files saved)"
        "q = r\<lparr>r_index := r_index q, r_commits := (r_commits r)(commit_id lib c := Some c),
               r_refs := (r_refs r)(r_head r := Some (commit_id lib c))\<rparr>"
      unfolding committed_def by blast+
    have "reset_branch lib saved q = Inr (r\<lparr>r_index := r_index q, r_commits := (r_commits r)(commit_id lib c := Some c)\<rparr>)"
      using c(1,2) j by (subst c(3)) (auto simp: reset_branch_def branch_tip_def is_operation_commit_def fun_upd_idem)
    then show thesis by (rule that) blast
  qed
qed

lemma rollback_undoes:
  assumes n: "new_journal paths renames writes d saved" and r: "d_repo d = Some r"
    and i: "interrupted lib saved renames writes safe msg now d d'"
    and a: "content_addressed lib r"
  shows "\<exists>cs. mutation_rollback lib saved d' = Inr (d\<lparr>d_repo := Some (r\<lparr>r_commits := cs\<rparr>)\<rparr>) \<and> r_commits r \<subseteq>\<^sub>m cs"
proof -
  have j: "j_index saved = r_index r" "d_journal d = None"
    using new_journalD(8) [OF n r] new_journalD(1) [OF n] by simp_all
  have undone: ?thesis
    if u: "uncommitted (set paths) r saved d d1" and d': "d_files d' = d_files d1" "d_repo d' = Some q"
      and q: "q = r\<lparr>r_index := x\<rparr> \<or> committed lib saved r c q" for d1 c q x
  proof -
    from reset_branch_undoes [OF n r q] obtain cs y where cs: "reset_branch lib saved q = Inr (r\<lparr>r_index := y, r_commits := cs\<rparr>)"
      "cs = r_commits r \<or> (\<exists>c. cs = (r_commits r)(commit_id lib c := Some c))" by blast
    from cs(2) content_addressed_grows [OF a] have "r_commits r \<subseteq>\<^sub>m cs" by auto
    moreover have "mutation_rollback lib saved d' = Inr (d\<lparr>d_repo := Some (r\<lparr>r_commits := cs\<rparr>)\<rparr>)"
      using restore_original_files_back [OF n u, of "d'\<lparr>d_repo := Some (r\<lparr>r_index := y, r_commits := cs\<rparr>)\<rparr>"] d' cs(1) j
      by (simp add: mutation_rollback_def roll_back_def mutation_finish_def)
    ultimately show ?thesis by blast
  qed
  show ?thesis
  proof (cases rule: interrupted_cases [OF n r i])
    case 1
    then have "uncommitted (set paths) r saved d (d'\<lparr>d_journal := Some saved\<rparr>)" using r by (simp add: uncommitted_def)
    with 1 r show ?thesis by (intro undone [of "d'\<lparr>d_journal := Some saved\<rparr>" r "r_index r"]) simp_all
  next
    case 2
    then obtain x where "d_repo d' = Some (r\<lparr>r_index := x\<rparr>)" by (rule uncommitted_repo)
    with 2 show ?thesis by (intro undone [of d' "r\<lparr>r_index := x\<rparr>" x]) simp_all
  next
    case (3 d1 c q)
    then show ?thesis by (intro undone [of d1 q _ c]) simp_all
  qed
qed

text \<open>
  C4: Rolling back undoes a multi-file card change completely. Wherever the change stopped (between
  any two steps, or inside a file operation), \<open>CardMutation::rollback\<close> succeeds, every file holds its
  old bytes, the journal is gone, and branches, HEAD and index are as before; only unreachable commit
  objects may have been added.
\<close>

theorem rollback_restores:
  assumes n: "new_journal paths renames writes d saved" and r: "d_repo d = Some r"
    and i: "interrupted lib saved renames writes safe msg now d d'"
    and a: "content_addressed lib r"
  shows "\<exists>cs. mutation_rollback lib saved d' = Inr (d\<lparr>d_repo := Some (r\<lparr>r_commits := cs\<rparr>)\<rparr>) \<and> r_commits r \<subseteq>\<^sub>m cs"
  using assms by (rule rollback_undoes)

section \<open>Recovery after a crash\<close>

text \<open>What recovery needs of Git: a commit is never its own parent, and a walk from a commit whose only
  parent is hidden (or which has none) lists just that commit.\<close>

definition walk_ok :: "git_lib \<Rightarrow> bool" where
  "walk_ok lib \<longleftrightarrow>
     (\<forall>c. commit_id lib c \<notin> set (c_parents c))
     \<and> (\<forall>cs tip c hide. cs tip = Some c \<longrightarrow> c_parents c = (case hide of None \<Rightarrow> [] | Some h \<Rightarrow> [h])
          \<longrightarrow> hide \<noteq> Some tip \<longrightarrow> revwalk lib cs tip hide = [tip])"

lemma recover_uncommitted:
  assumes n: "new_journal paths renames writes d saved" and r: "d_repo d = Some r"
    and u: "uncommitted (set paths) r saved d d'"
  shows "recover_files lib d' = Inr (d\<lparr>d_journal := Some saved\<rparr>)"
proof -
  obtain x where x: "d_repo d' = Some (r\<lparr>r_index := x\<rparr>)" by (rule uncommitted_repo [OF u])
  have j: "branch_tip saved (r\<lparr>r_index := x\<rparr>) = j_head saved" "j_index saved = r_index r" "d_journal d' = Some saved"
    using new_journalD(8) [OF n r] u by (simp_all add: branch_tip_of_def branch_tip_def uncommitted_def)
  have "recover_files lib d' = Inr (d'\<lparr>d_files := d_files d, d_repo := Some r\<rparr>)"
    using j x restore_original_files_back [OF n u] new_journalD(7) [OF n]
    by (simp add: recover_files_def recover_journal_def)
  moreover have "d'\<lparr>d_files := d_files d, d_repo := Some r\<rparr> = d\<lparr>d_journal := Some saved\<rparr>"
    using j r by simp
  ultimately show ?thesis by simp
qed

lemma recover_committed:
  assumes n: "new_journal paths renames writes d saved" and r: "d_repo d = Some r" and w: "walk_ok lib"
    and q: "committed lib saved r c q" and d': "d_repo d' = Some q" "d_journal d' = Some saved"
  shows "recover_files lib d' = Inr (d'\<lparr>d_repo := Some (settled_index saved c q)\<rparr>)"
proof -
  from q have c: "c_parents c = (case j_head saved of None \<Rightarrow> [] | Some h \<Rightarrow> [h])"
      "list_all (holds_intended lib (c_tree c)) (j_files saved)" and
      e: "q = r\<lparr>r_index := r_index q, r_commits := (r_commits r)(commit_id lib c := Some c),
            r_refs := (r_refs r)(r_head r := Some (commit_id lib c))\<rparr>"
    unfolding committed_def by blast+
  have f: "r_commits q = (r_commits r)(commit_id lib c := Some c)" "r_head q = r_head r"
      "r_refs q = (r_refs r)(r_head r := Some (commit_id lib c))"
    by (subst e, simp)+
  from new_journalD(8) [OF n r] have j: "j_reference saved = r_head r" by simp
  from w have "commit_id lib c \<notin> set (c_parents c)" by (simp add: walk_ok_def)
  with c(1) have h: "j_head saved \<noteq> Some (commit_id lib c)" by auto
  have walk: "revwalk lib (r_commits q) (commit_id lib c) (j_head saved) = [commit_id lib c]"
    using w [unfolded walk_ok_def, THEN conjunct2, rule_format, of "r_commits q" "commit_id lib c" c "j_head saved"] c(1) h
    by (simp add: f(1))
  have "landed_commit lib q saved = Inr (Some (commit_id lib c))"
    using c j walk by (simp add: f landed_commit_def branch_tip_def is_operation_commit_def)
  with j h d' new_journalD(7) [OF n] show ?thesis
    by (auto simp: recover_files_def recover_journal_def f branch_tip_def branch_tip_of_def restore_unrelated_index_def)
qed

text \<open>
  C3: A multi-file card change is atomic under a crash. Whatever point the process died at,
  \<open>CardMutation::recover_files\<close> at the next start succeeds and leaves files, index, branches and
  commits exactly as before the change, or exactly as after the whole change.
\<close>

theorem recovery_is_atomic:
  assumes n: "new_journal paths renames writes d saved" and r: "d_repo d = Some r"
    and i: "interrupted lib saved renames writes safe msg now d d'"
    and w: "walk_ok lib"
  shows "\<exists>d''. recover_files lib d' = Inr d''
     \<and> (mutation_finish d'' = d
        \<or> (\<exists>e. exec_steps (mutation_steps lib saved renames writes safe msg now) d = Inr e \<and> mutation_finish d'' = mutation_finish e))"
proof (cases rule: interrupted_cases [OF n r i])
  case 1
  with new_journalD(1) [OF n] show ?thesis by (simp add: recover_files_def mutation_finish_def)
next
  case 2
  from recover_uncommitted [OF n r 2] new_journalD(1) [OF n] show ?thesis by (simp add: mutation_finish_def)
next
  case (3 d1 c q)
  then have "d_repo d' = Some q" "d_journal d' = Some saved" by (simp_all add: uncommitted_def)
  from recover_committed [OF n r w 3(3) this] 3 show ?thesis by simp
qed

section \<open>An example change\<close>

text \<open>One card goes to the trash in a project without commits: a rename and a write.\<close>

definition demo_lib :: git_lib where
  "demo_lib = \<lparr>blob_id = \<lambda>b. CHR ''b'' # b, blob_lookup = \<lambda>i. Some (tl i), commit_id = \<lambda>c. CHR ''c'' # concat (c_parents c),
     revwalk = \<lambda>cs tip hide. [tip], init_branch = ''main''\<rparr>"

definition demo_repo :: git_repo where
  "demo_repo = \<lparr>r_head = ''main'', r_refs = \<lambda>_. None, r_commits = \<lambda>_. None, r_index = None, r_conflicts = False,
     r_remotes = \<lambda>_. None\<rparr>"

definition demo_disk :: disk where
  "demo_disk = \<lparr>d_files = [''cards/a'' \<mapsto> ''old''], d_journal = None, d_repo = Some demo_repo\<rparr>"

definition demo_journal :: journal where
  "demo_journal = \<lparr>j_version = 2,
     j_files = [\<lparr>jf_key = ''cards/a'', jf_before = Some ''old'', jf_after = Some None\<rparr>,
       \<lparr>jf_key = ''trash/cards/a'', jf_before = None, jf_after = Some (Some ''new'')\<rparr>],
     j_head = None, j_reference = ''main'', j_index = None\<rparr>"

abbreviation demo_renames :: "(path \<times> path) list" where
  "demo_renames \<equiv> [(''cards/a'', ''trash/cards/a'')]"

abbreviation demo_writes :: "(path \<times> bytes) list" where
  "demo_writes \<equiv> [(''trash/cards/a'', ''new'')]"

lemma demo_new_journal: "new_journal [''cards/a'', ''trash/cards/a''] demo_renames demo_writes demo_disk demo_journal"
  by (simp add: new_journal_def mutation_new_def demo_disk_def demo_repo_def demo_journal_def journal_file_path_def
      lexically_normal_def file_changes_def starts_with_def branch_tip_of_def Let_def)

lemma demo_interrupted:
  obtains d' where "interrupted demo_lib demo_journal demo_renames demo_writes (\<lambda>_. Inr ()) ''m'' 0 demo_disk d'"
    and "branch_tip demo_journal (the (d_repo d')) = Some ''c''"
proof -
  let ?ss = "mutation_steps demo_lib demo_journal demo_renames demo_writes (\<lambda>_. Inr ()) ''m'' 0"
  obtain d' where e: "exec_steps (take 9 ?ss) demo_disk = Inr d'" "branch_tip demo_journal (the (d_repo d')) = Some ''c''"
    by (simp add: mutation_steps_def change_steps_def write_journal_def reset_index_def rename_steps_def fs_rename_def
        remove_path_def write_steps_def git_write_file_def verify_write_def stage_path_def safe_step_def git_commit_op_def
        demo_disk_def demo_repo_def demo_journal_def demo_lib_def branch_tip_def branch_tip_of_def index_of_repo_def Let_def)
  have "9 \<le> length ?ss" by (simp add: mutation_steps_def change_steps_def rename_steps_def write_steps_def)
  with e(1) have "interrupted demo_lib demo_journal demo_renames demo_writes (\<lambda>_. Inr ()) ''m'' 0 demo_disk d'"
    by (auto simp: interrupted_def Let_def)
  then show thesis using e(2) by (rule that)
qed

lemma demo_walk_ok: "walk_ok demo_lib"
proof -
  have "p \<in> set ps \<Longrightarrow> length p \<le> length (concat ps)" for p :: string and ps by (induction ps) auto
  then have "CHR ''c'' # concat ps \<notin> set ps" for ps by (metis impossible_Cons)
  then show ?thesis by (simp add: walk_ok_def demo_lib_def)
qed

theorem rollback_restores_witness:
  "\<exists>d' cs. branch_tip demo_journal (the (d_repo d')) = Some ''c''
     \<and> mutation_rollback demo_lib demo_journal d' = Inr (demo_disk\<lparr>d_repo := Some (demo_repo\<lparr>r_commits := cs\<rparr>)\<rparr>)"
proof -
  obtain d' where d': "interrupted demo_lib demo_journal demo_renames demo_writes (\<lambda>_. Inr ()) ''m'' 0 demo_disk d'"
    "branch_tip demo_journal (the (d_repo d')) = Some ''c''" by (rule demo_interrupted)
  have "d_repo demo_disk = Some demo_repo" "content_addressed demo_lib demo_repo"
    by (simp_all add: demo_disk_def demo_repo_def content_addressed_def)
  from rollback_restores [OF demo_new_journal this(1) d'(1) this(2)] d'(2) show ?thesis by blast
qed

theorem recovery_is_atomic_witness:
  "\<exists>d' d''. branch_tip demo_journal (the (d_repo d')) = Some ''c'' \<and> recover_files demo_lib d' = Inr d''"
proof -
  obtain d' where d': "interrupted demo_lib demo_journal demo_renames demo_writes (\<lambda>_. Inr ()) ''m'' 0 demo_disk d'"
    "branch_tip demo_journal (the (d_repo d')) = Some ''c''" by (rule demo_interrupted)
  have "d_repo demo_disk = Some demo_repo" by (simp add: demo_disk_def)
  from recovery_is_atomic [OF demo_new_journal this d'(1) demo_walk_ok] d'(2) show ?thesis by blast
qed

end
