(* ===== verification/Card_Front_Matter.thy ===== *)
theory Card_Front_Matter
  imports Card_Model
begin

text \<open>
  Card files: a YAML front matter between two marker lines, then the body
  (\<open>src/src/card/CardFrontMatter.cpp\<close>). The YAML library is a parameter: it prints a tree of emitted
  values, and loads a text into a tree of nodes with conversions of scalars. An exception while the
  fields are read leaves the fields read so far and the whole text as body.
\<close>

section \<open>The YAML library\<close>

datatype emitted =
    EStr string
  | EInt i64
  | EDouble double
  | EBool bool
  | ENull
  | ESeq "emitted list"
  | EMap "(string \<times> emitted) list"

datatype node = NNull | NScalar string | NSeq "node list" | NMap "(node \<times> node) list"

record yaml_lib =
  emit_text :: "emitted \<Rightarrow> string"
  load_text :: "string \<Rightarrow> node option"
  null_text :: "string option"
  as_int :: "string \<Rightarrow> i64 option"
  as_double :: "string \<Rightarrow> double option"
  as_bool :: "string \<Rightarrow> bool option"

text \<open>\<open>node[key]\<close>, and \<open>as<T>()\<close>; \<open>None\<close> is an undefined node or an exception.\<close>

definition node_get :: "node \<Rightarrow> string \<Rightarrow> node option" where
  "node_get n key = (case n of NMap kvs \<Rightarrow> map_of kvs (NScalar key) | _ \<Rightarrow> None)"

definition node_string :: "yaml_lib \<Rightarrow> node \<Rightarrow> string option" where
  "node_string lib n = (case n of NScalar s \<Rightarrow> Some s | NNull \<Rightarrow> null_text lib | _ \<Rightarrow> None)"

definition node_scalar :: "(string \<Rightarrow> 'a option) \<Rightarrow> node \<Rightarrow> 'a option" where
  "node_scalar conv n = (case n of NScalar s \<Rightarrow> conv s | _ \<Rightarrow> None)"

section \<open>Rendering\<close>

definition emit_opt :: "('a \<Rightarrow> emitted) \<Rightarrow> 'a option \<Rightarrow> emitted" where
  "emit_opt f v = (case v of None \<Rightarrow> ENull | Some x \<Rightarrow> f x)"

definition emit_link :: "card_link \<Rightarrow> emitted" where
  "emit_link l = EMap
     [(''to'', EStr (to_card_id l)),
      (''to_type'', EStr (if to_type l = [] then ''card'' else to_type l)),
      (''kind'', EStr (link_kind l)),
      (''created_at'', EInt (link_created_at l)),
      (''label'', emit_opt EStr (link_label l))]"

definition emit_milestone :: "milestone \<Rightarrow> emitted" where
  "emit_milestone m = EMap
     [(''milestone_id'', EStr (milestone_id m)),
      (''start_at'', EInt (start_at m)),
      (''end_at'', emit_opt EInt (end_at m)),
      (''all_day'', EBool (all_day m)),
      (''kind'', emit_opt EStr (ms_kind m)),
      (''description'', emit_opt EStr (ms_description m)),
      (''created_at'', EInt (ms_created_at m)),
      (''updated_at'', EInt (ms_updated_at m))]"

definition emit_card :: "card \<Rightarrow> card_link list \<Rightarrow> milestone list \<Rightarrow> emitted" where
  "emit_card c links ms = EMap
     [(''card_id'', EStr (card_id c)),
      (''project_id'', EStr (project_id c)),
      (''title'', EStr (title c)),
      (''created_at'', EInt (created_at c)),
      (''updated_at'', EInt (updated_at c)),
      (''parent_card_id'', emit_opt EStr (parent_card_id c)),
      (''sort_key'', EDouble (sort_key c)),
      (''rel_path'', EStr (rel_path c)),
      (''deleted_at'', emit_opt EInt (deleted_at c)),
      (''links'', ESeq (map emit_link links)),
      (''milestones'', ESeq (map emit_milestone ms))]"

definition lf_opening :: string where "lf_opening = ''---'' @ [CHR 0x0A]"
definition lf_closing :: string where "lf_closing = [CHR 0x0A] @ ''---'' @ [CHR 0x0A]"
definition crlf_opening :: string where "crlf_opening = ''---'' @ [CHR 0x0D, CHR 0x0A]"
definition crlf_closing :: string where "crlf_closing = [CHR 0x0D, CHR 0x0A] @ ''---'' @ [CHR 0x0D, CHR 0x0A]"

definition render_card_front_matter :: "yaml_lib \<Rightarrow> card \<Rightarrow> card_link list \<Rightarrow> milestone list \<Rightarrow> string" where
  "render_card_front_matter lib c links ms = lf_opening @ emit_text lib (emit_card c links ms) @ lf_closing"

section \<open>Parsing\<close>

record parsed_file =
  pf_card :: card
  pf_links :: "card_link list"
  pf_milestones :: "milestone list"
  pf_body :: string
  has_front_matter :: bool

text \<open>\<open>std::string::find\<close>: the first position of a pattern.\<close>

primrec find_text :: "string \<Rightarrow> string \<Rightarrow> nat option" where
  "find_text pat [] = (if pat = [] then Some 0 else None)"
| "find_text pat (c # cs) =
     (if starts_with (c # cs) pat then Some 0 else map_option Suc (find_text pat cs))"

text \<open>Reading a field: absent fields keep the value; a failed conversion is an exception.\<close>

definition field :: "node \<Rightarrow> string \<Rightarrow> (node \<Rightarrow> 'a option) \<Rightarrow> ('a \<Rightarrow> 's \<Rightarrow> 's) \<Rightarrow> 's \<Rightarrow> unit + 's" where
  "field n key conv upd s =
     (case node_get n key of
        None \<Rightarrow> Inr s
      | Some v \<Rightarrow> (case conv v of None \<Rightarrow> Inl () | Some x \<Rightarrow> Inr (upd x s)))"

definition opt_field :: "node \<Rightarrow> string \<Rightarrow> (node \<Rightarrow> 'a option) \<Rightarrow> ('a \<Rightarrow> 's \<Rightarrow> 's) \<Rightarrow> 's \<Rightarrow> unit + 's" where
  "opt_field n key conv upd s = (if node_get n key = Some NNull then Inr s else field n key conv upd s)"

definition parse_link :: "yaml_lib \<Rightarrow> card \<Rightarrow> node \<Rightarrow> unit + card_link" where
  "parse_link lib c item =
     rbind (field item ''to'' (node_string lib) (\<lambda>x. to_card_id_update (\<lambda>_. x))
              (empty_link\<lparr>link_project_id := project_id c, from_card_id := card_id c\<rparr>))
     (\<lambda>l. rbind (field item ''to_type'' (node_string lib) (\<lambda>x. to_type_update (\<lambda>_. x)) l)
     (\<lambda>l. rbind (field item ''kind'' (node_string lib) (\<lambda>x. link_kind_update (\<lambda>_. x)) l)
     (\<lambda>l. let l = (if to_type l = [] then l\<lparr>to_type := ''card''\<rparr> else l);
              l = (if link_kind l = [] then l\<lparr>link_kind := ''ref''\<rparr> else l)
          in rbind (opt_field item ''label'' (node_string lib) (\<lambda>x. link_label_update (\<lambda>_. Some x)) l)
             (field item ''created_at'' (node_scalar (as_int lib)) (\<lambda>x. link_created_at_update (\<lambda>_. x))))))"

definition parse_milestone :: "yaml_lib \<Rightarrow> card \<Rightarrow> node \<Rightarrow> unit + milestone" where
  "parse_milestone lib c item =
     rbind (field item ''milestone_id'' (node_string lib) (\<lambda>x. milestone_id_update (\<lambda>_. x))
              (empty_milestone\<lparr>ms_project_id := project_id c, ms_card_id := card_id c\<rparr>))
     (\<lambda>m. rbind (field item ''start_at'' (node_scalar (as_int lib)) (\<lambda>x. start_at_update (\<lambda>_. x)) m)
     (\<lambda>m. rbind (opt_field item ''end_at'' (node_scalar (as_int lib)) (\<lambda>x. end_at_update (\<lambda>_. Some x)) m)
     (\<lambda>m. rbind (field item ''all_day'' (node_scalar (as_bool lib)) (\<lambda>x. all_day_update (\<lambda>_. x)) m)
     (\<lambda>m. rbind (opt_field item ''kind'' (node_string lib) (\<lambda>x. ms_kind_update (\<lambda>_. Some x)) m)
     (\<lambda>m. rbind (opt_field item ''description'' (node_string lib) (\<lambda>x. ms_description_update (\<lambda>_. Some x)) m)
     (\<lambda>m. rbind (field item ''created_at'' (node_scalar (as_int lib)) (\<lambda>x. ms_created_at_update (\<lambda>_. x)) m)
     (field item ''updated_at'' (node_scalar (as_int lib)) (\<lambda>x. ms_updated_at_update (\<lambda>_. x)))))))))"

text \<open>The loops over the items: an exception keeps the items pushed so far.\<close>

fun parse_items :: "(node \<Rightarrow> unit + 'a) \<Rightarrow> ('a \<Rightarrow> bool) \<Rightarrow> node list \<Rightarrow> 'a list \<Rightarrow> 'a list + 'a list" where
  "parse_items f keep [] acc = Inr acc"
| "parse_items f keep (NMap kvs # items) acc =
     (case f (NMap kvs) of
        Inl _ \<Rightarrow> Inl acc
      | Inr x \<Rightarrow> parse_items f keep items (if keep x then acc @ [x] else acc))"
| "parse_items f keep (_ # items) acc = parse_items f keep items acc"

definition parse_seq :: "node \<Rightarrow> string \<Rightarrow> (node \<Rightarrow> unit + 'a) \<Rightarrow> ('a \<Rightarrow> bool) \<Rightarrow> 'a list + 'a list" where
  "parse_seq n key f keep =
     (case node_get n key of Some (NSeq items) \<Rightarrow> parse_items f keep items [] | _ \<Rightarrow> Inr [])"

definition card_fields :: "yaml_lib \<Rightarrow> node \<Rightarrow> (card \<Rightarrow> unit + card) list" where
  "card_fields lib n =
     [field n ''card_id'' (node_string lib) (\<lambda>x. card_id_update (\<lambda>_. x)),
      field n ''project_id'' (node_string lib) (\<lambda>x. project_id_update (\<lambda>_. x)),
      field n ''title'' (node_string lib) (\<lambda>x. title_update (\<lambda>_. x)),
      field n ''rel_path'' (node_string lib) (\<lambda>x. rel_path_update (\<lambda>_. x)),
      field n ''created_at'' (node_scalar (as_int lib)) (\<lambda>x. created_at_update (\<lambda>_. x)),
      field n ''updated_at'' (node_scalar (as_int lib)) (\<lambda>x. updated_at_update (\<lambda>_. x)),
      field n ''sort_key'' (node_scalar (as_double lib)) (\<lambda>x. sort_key_update (\<lambda>_. x)),
      opt_field n ''parent_card_id'' (node_string lib) (\<lambda>x. parent_card_id_update (\<lambda>_. Some x)),
      opt_field n ''deleted_at'' (node_scalar (as_int lib)) (\<lambda>x. deleted_at_update (\<lambda>_. Some x))]"

fun read_fields :: "('s \<Rightarrow> unit + 's) list \<Rightarrow> 's \<Rightarrow> 's + 's" where
  "read_fields [] s = Inr s"
| "read_fields (f # fs) s = (case f s of Inl _ \<Rightarrow> Inl s | Inr t \<Rightarrow> read_fields fs t)"

text \<open>The whole \<open>try\<close> block: \<open>Inl\<close> is what has been read when an exception is caught.\<close>

definition parse_node :: "yaml_lib \<Rightarrow> node \<Rightarrow> parsed_file \<Rightarrow> parsed_file + parsed_file" where
  "parse_node lib n p =
     (case read_fields (card_fields lib n) (pf_card p) of
        Inl c \<Rightarrow> Inl (p\<lparr>pf_card := c\<rparr>)
      | Inr c \<Rightarrow>
          (case parse_seq n ''links'' (parse_link lib c) (\<lambda>l. to_card_id l \<noteq> []) of
             Inl ls \<Rightarrow> Inl (p\<lparr>pf_card := c, pf_links := ls\<rparr>)
           | Inr ls \<Rightarrow>
               (case parse_seq n ''milestones'' (parse_milestone lib c) (\<lambda>m. milestone_id m \<noteq> []) of
                  Inl ms \<Rightarrow> Inl (p\<lparr>pf_card := c, pf_links := ls, pf_milestones := ms\<rparr>)
                | Inr ms \<Rightarrow> Inr (p\<lparr>pf_card := c, pf_links := ls, pf_milestones := ms\<rparr>))))"

definition parse_delimited :: "yaml_lib \<Rightarrow> string \<Rightarrow> string \<Rightarrow> string \<Rightarrow> parsed_file \<Rightarrow> parsed_file" where
  "parse_delimited lib raw opening closing p =
     (let rest = drop (length opening) raw
      in case find_text closing rest of
           None \<Rightarrow> p
         | Some n \<Rightarrow>
             (case load_text lib (take n rest) of
                Some (NMap kvs) \<Rightarrow>
                  (case parse_node lib (NMap kvs) (p\<lparr>has_front_matter := True\<rparr>) of
                     Inl q \<Rightarrow> q
                   | Inr q \<Rightarrow> q\<lparr>pf_body := drop (n + length closing) rest\<rparr>)
              | _ \<Rightarrow> p))"

definition unparsed :: "string \<Rightarrow> parsed_file" where
  "unparsed raw = \<lparr>pf_card = empty_card, pf_links = [], pf_milestones = [], pf_body = raw, has_front_matter = False\<rparr>"

definition parse_card_file :: "yaml_lib \<Rightarrow> string \<Rightarrow> parsed_file" where
  "parse_card_file lib raw =
     (if starts_with raw crlf_opening then parse_delimited lib raw crlf_opening crlf_closing (unparsed raw)
      else if starts_with raw lf_opening then parse_delimited lib raw lf_opening lf_closing (unparsed raw)
      else unparsed raw)"

section \<open>What is read back\<close>

text \<open>When a node loaded from a text is what was emitted into it.\<close>

inductive reads :: "yaml_lib \<Rightarrow> emitted \<Rightarrow> node \<Rightarrow> bool" for lib where
  "reads lib (EStr s) (NScalar s)"
| "as_int lib t = Some i \<Longrightarrow> reads lib (EInt i) (NScalar t)"
| "as_double lib t = Some x \<Longrightarrow> reads lib (EDouble x) (NScalar t)"
| "as_bool lib t = Some b \<Longrightarrow> reads lib (EBool b) (NScalar t)"
| "reads lib ENull NNull"
| "list_all2 (reads lib) es ns \<Longrightarrow> reads lib (ESeq es) (NSeq ns)"
| "list_all2 (\<lambda>e n. fst n = NScalar (fst e) \<and> reads lib (snd e) (snd n)) kes kns \<Longrightarrow> reads lib (EMap kes) (NMap kns)"

inductive_simps reads_simps [simp]:
  "reads lib (EStr s) n"
  "reads lib (EInt i) n"
  "reads lib (EDouble x) n"
  "reads lib (EBool b) n"
  "reads lib ENull n"
  "reads lib (ESeq es) n"
  "reads lib (EMap kes) n"

text \<open>The library prints the tree as text it loads back, without a line that begins with the marker.\<close>

definition faithful :: "yaml_lib \<Rightarrow> emitted \<Rightarrow> bool" where
  "faithful lib e \<longleftrightarrow>
     (\<exists>n. load_text lib (emit_text lib e) = Some n \<and> reads lib e n)
     \<and> find_text ([CHR 0x0A] @ ''---'') (emit_text lib e) = None"

text \<open>The form in which a link or milestone is read back: it belongs to the card of the file.\<close>

definition filed_link :: "card \<Rightarrow> card_link \<Rightarrow> card_link" where
  "filed_link c l = l\<lparr>link_project_id := project_id c, from_card_id := card_id c,
     to_type := (if to_type l = [] then ''card'' else to_type l),
     link_kind := (if link_kind l = [] then ''ref'' else link_kind l)\<rparr>"

definition filed_milestone :: "card \<Rightarrow> milestone \<Rightarrow> milestone" where
  "filed_milestone c m = m\<lparr>ms_project_id := project_id c, ms_card_id := card_id c\<rparr>"

lemma reads_map_ConsD:
  "list_all2 (\<lambda>e n. fst n = NScalar (fst e) \<and> reads lib (snd e) (snd n)) ((k, e) # kes) kns \<longleftrightarrow>
     (\<exists>v rest. kns = (NScalar k, v) # rest \<and> reads lib e v
        \<and> list_all2 (\<lambda>e n. fst n = NScalar (fst e) \<and> reads lib (snd e) (snd n)) kes rest)"
  by (auto simp: list_all2_Cons1)

lemma opt_field_reads:
  assumes "node_get n key = Some v" and "reads lib (emit_opt f x) v"
    and "\<And>y w. reads lib (f y) w \<Longrightarrow> w \<noteq> NNull \<and> conv w = Some y"
  shows "opt_field n key conv upd s = Inr (case x of None \<Rightarrow> s | Some y \<Rightarrow> upd y s)"
  using assms by (auto simp: opt_field_def field_def emit_opt_def split: option.splits)

lemma parse_link_reads:
  assumes "reads lib (emit_link l) n"
  shows "parse_link lib c n = Inr (filed_link c l)"
proof -
  from assms obtain t lab where n: "n = NMap [(NScalar ''to'', NScalar (to_card_id l)),
      (NScalar ''to_type'', NScalar (if to_type l = [] then ''card'' else to_type l)),
      (NScalar ''kind'', NScalar (link_kind l)), (NScalar ''created_at'', NScalar t), (NScalar ''label'', lab)]"
    and t: "as_int lib t = Some (link_created_at l)" and lab: "reads lib (emit_opt EStr (link_label l)) lab"
    by (auto simp: emit_link_def reads_map_ConsD)
  have "opt_field n ''label'' (node_string lib) upd s = Inr (case link_label l of None \<Rightarrow> s | Some y \<Rightarrow> upd y s)"
    for upd and s :: card_link
    by (rule opt_field_reads [OF _ lab]) (auto simp: n node_get_def node_string_def)
  then show ?thesis
    using t by (auto simp: n parse_link_def field_def node_get_def node_string_def node_scalar_def filed_link_def
        empty_link_def Let_def split: option.splits)
qed

lemma parse_milestone_reads:
  assumes "reads lib (emit_milestone m) n"
  shows "parse_milestone lib c n = Inr (filed_milestone c m)"
proof -
  from assms obtain t1 e t2 k d t3 t4 where n: "n = NMap [(NScalar ''milestone_id'', NScalar (milestone_id m)),
      (NScalar ''start_at'', NScalar t1), (NScalar ''end_at'', e), (NScalar ''all_day'', NScalar t2),
      (NScalar ''kind'', k), (NScalar ''description'', d), (NScalar ''created_at'', NScalar t3),
      (NScalar ''updated_at'', NScalar t4)]"
    and t: "as_int lib t1 = Some (start_at m)" "as_bool lib t2 = Some (all_day m)"
      "as_int lib t3 = Some (ms_created_at m)" "as_int lib t4 = Some (ms_updated_at m)"
    and o: "reads lib (emit_opt EInt (end_at m)) e" "reads lib (emit_opt EStr (ms_kind m)) k"
      "reads lib (emit_opt EStr (ms_description m)) d"
    by (auto simp: emit_milestone_def reads_map_ConsD)
  have "opt_field n ''end_at'' (node_scalar (as_int lib)) upd s = Inr (case end_at m of None \<Rightarrow> s | Some y \<Rightarrow> upd y s)"
    for upd and s :: milestone
    by (rule opt_field_reads [OF _ o(1)]) (auto simp: n node_get_def node_scalar_def)
  moreover have "opt_field n ''kind'' (node_string lib) upd s = Inr (case ms_kind m of None \<Rightarrow> s | Some y \<Rightarrow> upd y s)"
    for upd and s :: milestone
    by (rule opt_field_reads [OF _ o(2)]) (auto simp: n node_get_def node_string_def)
  moreover have "opt_field n ''description'' (node_string lib) upd s
      = Inr (case ms_description m of None \<Rightarrow> s | Some y \<Rightarrow> upd y s)" for upd and s :: milestone
    by (rule opt_field_reads [OF _ o(3)]) (auto simp: n node_get_def node_string_def)
  ultimately show ?thesis
    using t by (auto simp: n parse_milestone_def field_def node_get_def node_string_def node_scalar_def
        filed_milestone_def empty_milestone_def split: option.splits)
qed

lemma parse_items_reads:
  assumes "list_all2 (reads lib) (map e xs) ns"
    and "\<And>x. \<exists>kes. e x = EMap kes" and "\<And>x n. reads lib (e x) n \<Longrightarrow> f n = Inr (h x)"
  shows "parse_items f keep ns acc = Inr (acc @ filter keep (map h xs))"
  using assms(1)
proof (induction xs arbitrary: ns acc)
  case (Cons x xs)
  from assms(2) obtain kes where "e x = EMap kes" by blast
  with Cons.prems obtain kvs rest where "ns = NMap kvs # rest" "reads lib (e x) (NMap kvs)"
    "list_all2 (reads lib) (map e xs) rest"
    by (auto simp: list_all2_Cons1)
  with Cons.IH [of rest] assms(3) [of x "NMap kvs"] show ?case by simp
qed simp

lemma read_card_fields:
  assumes "reads lib (emit_card c links ms) n"
  shows "read_fields (card_fields lib n) empty_card = Inr c"
proof -
  from assms obtain t1 t2 t3 p d lv mv where n: "n = NMap [(NScalar ''card_id'', NScalar (card_id c)),
      (NScalar ''project_id'', NScalar (project_id c)), (NScalar ''title'', NScalar (title c)),
      (NScalar ''created_at'', NScalar t1), (NScalar ''updated_at'', NScalar t2), (NScalar ''parent_card_id'', p),
      (NScalar ''sort_key'', NScalar t3), (NScalar ''rel_path'', NScalar (rel_path c)), (NScalar ''deleted_at'', d),
      (NScalar ''links'', lv), (NScalar ''milestones'', mv)]"
    and t: "as_int lib t1 = Some (created_at c)" "as_int lib t2 = Some (updated_at c)" "as_double lib t3 = Some (sort_key c)"
    and o: "reads lib (emit_opt EStr (parent_card_id c)) p" "reads lib (emit_opt EInt (deleted_at c)) d"
    by (auto simp: emit_card_def reads_map_ConsD)
  have "opt_field n ''parent_card_id'' (node_string lib) upd s = Inr (case parent_card_id c of None \<Rightarrow> s | Some y \<Rightarrow> upd y s)"
    for upd and s :: card
    by (rule opt_field_reads [OF _ o(1)]) (auto simp: n node_get_def node_string_def)
  moreover have "opt_field n ''deleted_at'' (node_scalar (as_int lib)) upd s
      = Inr (case deleted_at c of None \<Rightarrow> s | Some y \<Rightarrow> upd y s)" for upd and s :: card
    by (rule opt_field_reads [OF _ o(2)]) (auto simp: n node_get_def node_scalar_def)
  ultimately show ?thesis
    using t by (auto simp: n card_fields_def field_def node_get_def node_string_def node_scalar_def empty_card_def
        split: option.splits)
qed

lemma parse_node_reads:
  assumes "reads lib (emit_card c links ms) n"
  shows "parse_node lib n ((unparsed raw)\<lparr>has_front_matter := True\<rparr>) = Inr \<lparr>pf_card = c,
     pf_links = filter (\<lambda>l. to_card_id l \<noteq> []) (map (filed_link c) links),
     pf_milestones = filter (\<lambda>m. milestone_id m \<noteq> []) (map (filed_milestone c) ms),
     pf_body = raw, has_front_matter = True\<rparr>"
proof -
  from assms obtain lv mv where g: "node_get n ''links'' = Some (NSeq lv)" "node_get n ''milestones'' = Some (NSeq mv)"
    and r: "list_all2 (reads lib) (map emit_link links) lv" "list_all2 (reads lib) (map emit_milestone ms) mv"
    by (auto simp: emit_card_def reads_map_ConsD node_get_def)
  have l: "parse_seq n ''links'' (parse_link lib c) keep = Inr (filter keep (map (filed_link c) links))" for keep
    using parse_items_reads [OF r(1) _ parse_link_reads, where acc = "[]"] g(1)
    by (simp add: parse_seq_def emit_link_def)
  have m: "parse_seq n ''milestones'' (parse_milestone lib c) keep = Inr (filter keep (map (filed_milestone c) ms))" for keep
    using parse_items_reads [OF r(2) _ parse_milestone_reads, where acc = "[]"] g(2)
    by (simp add: parse_seq_def emit_milestone_def)
  show ?thesis by (simp add: parse_node_def unparsed_def read_card_fields [OF assms] l m)
qed

text \<open>The closing marker is found right after a text none of whose lines begins with the marker.\<close>

lemma find_closing:
  assumes "find_text ([CHR 0x0A] @ ''---'') s = None"
  shows "find_text lf_closing (s @ lf_closing @ body) = Some (length s)"
  using assms
proof (induction s)
  case Nil
  show ?case by (simp add: lf_closing_def starts_with_def)
next
  case (Cons c s)
  then have "\<not> starts_with (c # s) ([CHR 0x0A] @ ''---'')" "find_text ([CHR 0x0A] @ ''---'') s = None"
    by (auto split: if_splits)
  moreover from this(1) have "\<not> starts_with ((c # s) @ lf_closing @ body) lf_closing"
    by (cases s; cases "tl s"; cases "tl (tl s)") (auto simp: lf_closing_def starts_with_def)
  ultimately show ?case using Cons.IH by simp
qed

lemma card_file_parses:
  assumes "faithful lib (emit_card c links ms)"
  shows "parse_card_file lib (render_card_front_matter lib c links ms @ body) = \<lparr>pf_card = c,
     pf_links = filter (\<lambda>l. to_card_id l \<noteq> []) (map (filed_link c) links),
     pf_milestones = filter (\<lambda>m. milestone_id m \<noteq> []) (map (filed_milestone c) ms),
     pf_body = body, has_front_matter = True\<rparr>"
proof -
  let ?t = "emit_text lib (emit_card c links ms)"
  let ?raw = "lf_opening @ ?t @ lf_closing @ body"
  from assms obtain n where n: "load_text lib ?t = Some n" "reads lib (emit_card c links ms) n"
    and f: "find_text lf_closing (?t @ lf_closing @ body) = Some (length ?t)"
    by (auto simp: faithful_def find_closing)
  from n(2) obtain kvs where m: "n = NMap kvs" by (auto simp: emit_card_def)
  have "\<not> starts_with ?raw crlf_opening" "starts_with ?raw lf_opening"
    by (simp_all add: starts_with_def crlf_opening_def lf_opening_def)
  with f n m parse_node_reads [OF n(2), of ?raw] show ?thesis
    by (simp add: parse_card_file_def parse_delimited_def render_card_front_matter_def)
qed

text \<open>
  C31: A card file is read back as it was written. Parsing the rendered front matter followed by any
  body gives the card with every field, the body unchanged to the byte, the links and milestones in
  order, filed under the card (an empty link type or kind gets its default; entries without a target
  or an id are left out), provided the YAML library loads what it prints.
\<close>

theorem card_file_roundtrip:
  assumes "faithful lib (emit_card c links ms)"
  shows "parse_card_file lib (render_card_front_matter lib c links ms @ body) = \<lparr>pf_card = c,
     pf_links = filter (\<lambda>l. to_card_id l \<noteq> []) (map (filed_link c) links),
     pf_milestones = filter (\<lambda>m. milestone_id m \<noteq> []) (map (filed_milestone c) ms),
     pf_body = body, has_front_matter = True\<rparr>"
  using assms by (rule card_file_parses)

lemma parse_node_keeps:
  "parse_node lib n p = Inl q \<Longrightarrow> pf_body q = pf_body p \<and> has_front_matter q = has_front_matter p"
  "parse_node lib n p = Inr q \<Longrightarrow> pf_body q = pf_body p \<and> has_front_matter q = has_front_matter p"
  by (auto simp: parse_node_def split: sum.splits)

text \<open>
  Parsing never loses text. Whatever a card file holds, the body is a suffix of it; without a
  readable front matter the body is the whole file and no field is set.
\<close>

theorem parse_keeps_body:
  "(\<exists>front. raw = front @ pf_body (parse_card_file lib raw))
   \<and> (has_front_matter (parse_card_file lib raw) \<or> parse_card_file lib raw = unparsed raw)"
proof -
  have w: "\<exists>front. raw = front @ drop k raw" for k by (metis append_take_drop_id)
  have "(\<exists>front. raw = front @ pf_body q) \<and> (has_front_matter q \<or> q = unparsed raw)"
    if q: "q = parse_delimited lib raw op cl (unparsed raw)" for op cl q
    unfolding q parse_delimited_def Let_def
    by (auto simp: unparsed_def w dest!: parse_node_keeps split: option.splits node.splits sum.splits)
  then show ?thesis by (auto simp: parse_card_file_def unparsed_def)
qed

section \<open>An example file\<close>

definition demo_file_card :: card where
  "demo_file_card = empty_card\<lparr>card_id := ''abcd'', project_id := ''p'', title := ''T'', sort_key := DFin 1\<rparr>"

definition demo_node :: node where
  "demo_node = NMap [(NScalar ''card_id'', NScalar ''abcd''), (NScalar ''project_id'', NScalar ''p''),
     (NScalar ''title'', NScalar ''T''), (NScalar ''created_at'', NScalar ''0''),
     (NScalar ''updated_at'', NScalar ''0''), (NScalar ''parent_card_id'', NNull), (NScalar ''sort_key'', NScalar ''1''),
     (NScalar ''rel_path'', NScalar []), (NScalar ''deleted_at'', NNull), (NScalar ''links'', NSeq []),
     (NScalar ''milestones'', NSeq [])]"

definition demo_yaml :: yaml_lib where
  "demo_yaml = \<lparr>emit_text = \<lambda>_. ''card_id: abcd'', load_text = \<lambda>_. Some demo_node, null_text = Some ''null'',
     as_int = [''0'' \<mapsto> 0], as_double = [''1'' \<mapsto> DFin 1], as_bool = [''true'' \<mapsto> True]\<rparr>"

theorem card_file_roundtrip_witness:
  "parse_card_file demo_yaml (''---'' @ [CHR 0x0A] @ ''card_id: abcd'' @ [CHR 0x0A] @ ''---'' @ [CHR 0x0A] @ ''Body'')
     = \<lparr>pf_card = demo_file_card, pf_links = [], pf_milestones = [], pf_body = ''Body'', has_front_matter = True\<rparr>"
proof -
  have "faithful demo_yaml (emit_card demo_file_card [] [])"
    by (simp add: faithful_def demo_yaml_def demo_node_def emit_card_def demo_file_card_def empty_card_def emit_opt_def
        starts_with_def)
  from card_file_roundtrip [OF this, of "''Body''"] show ?thesis
    by (simp add: render_card_front_matter_def lf_opening_def lf_closing_def) (simp add: demo_yaml_def)
qed

end
