(* ===== verification/Ai_Repo.thy ===== *)
theory Ai_Repo
  imports Card_Index
begin

text \<open>
  The tables of AI threads and messages: \<open>src/src/ai/AiThreadRepo.cpp\<close>, the statements of
  \<open>src/src/ai/AiMessageRepo.cpp\<close> and the message part of \<open>src/src/index/FtsIndexer.cpp\<close>. The tables of runs and of
  compaction state, which refer to them, are not modelled.
\<close>

section \<open>Threads\<close>

abbreviation threads :: "db \<Rightarrow> ai_thread list" where
  "threads d \<equiv> ai_threads (db_ai d)"

abbreviation messages :: "db \<Rightarrow> ai_message list" where
  "messages d \<equiv> ai_messages (db_ai d)"

definition set_threads :: "ai_thread list \<Rightarrow> db \<Rightarrow> db" where
  "set_threads ts d = d\<lparr>db_ai := (db_ai d)\<lparr>ai_threads := ts\<rparr>\<rparr>"

definition set_messages :: "ai_message list \<Rightarrow> db \<Rightarrow> db" where
  "set_messages ms d = d\<lparr>db_ai := (db_ai d)\<lparr>ai_messages := ms\<rparr>\<rparr>"

definition bind_thread :: "ai_thread \<Rightarrow> ai_thread" where
  "bind_thread t = t\<lparr>th_id := c_str (th_id t), th_project_id := c_str (th_project_id t),
     th_card_id := map_option c_str (th_card_id t), th_title := c_str (th_title t)\<rparr>"

definition card_exists :: "db \<Rightarrow> string option \<Rightarrow> bool" where
  "card_exists d cid \<longleftrightarrow> (case cid of None \<Rightarrow> True | Some k \<Rightarrow> k \<in> card_id ` set (cards d))"

definition threads_create :: "ai_thread \<Rightarrow> db \<Rightarrow> db result" where
  "threads_create t0 d =
     (let t = bind_thread t0
      in if th_id t \<in> th_id ` set (threads d) \<or> th_project_id t \<notin> proj_id ` set (projects d)
           \<or> \<not> card_exists d (th_card_id t)
         then Inl (SqliteError ''insert ai thread failed'')
         else Inr (set_threads (threads d @ [t]) d))"

definition threads_get :: "string \<Rightarrow> db \<Rightarrow> ai_thread option" where
  "threads_get tid d = find (\<lambda>t. th_id t = c_str tid) (threads d)"

definition threads_list :: "string \<Rightarrow> db \<Rightarrow> ai_thread list" where
  "threads_list pid d = sort_by (\<lambda>a b. th_updated_at b < th_updated_at a) (filter (\<lambda>t. th_project_id t = c_str pid) (threads d))"

definition update_thread :: "string \<Rightarrow> (ai_thread \<Rightarrow> ai_thread) \<Rightarrow> db \<Rightarrow> db" where
  "update_thread tid f d = set_threads (update_where (\<lambda>t. th_id t = c_str tid) f (threads d)) d"

definition threads_update_title :: "string \<Rightarrow> string \<Rightarrow> i64 \<Rightarrow> db \<Rightarrow> db" where
  "threads_update_title tid ttl now = update_thread tid (\<lambda>t. t\<lparr>th_title := c_str ttl, th_updated_at := now\<rparr>)"

definition threads_update_card_id :: "string \<Rightarrow> string option \<Rightarrow> db \<Rightarrow> db result" where
  "threads_update_card_id tid cid d =
     (if c_str tid \<in> th_id ` set (threads d) \<and> \<not> card_exists d (map_option c_str cid)
      then Inl (SqliteError ''update ai thread card_id failed'')
      else Inr (update_thread tid (\<lambda>t. t\<lparr>th_card_id := map_option c_str cid\<rparr>) d))"

definition threads_touch_updated :: "string \<Rightarrow> i64 \<Rightarrow> db \<Rightarrow> db" where
  "threads_touch_updated tid now = update_thread tid (\<lambda>t. t\<lparr>th_updated_at := now\<rparr>)"

text \<open>Deleting threads deletes their messages.\<close>

definition delete_threads :: "(ai_thread \<Rightarrow> bool) \<Rightarrow> db \<Rightarrow> db" where
  "delete_threads p d =
     (let gone = th_id ` set (filter p (threads d))
      in set_messages (delete_where (\<lambda>m. msg_thread_id m \<in> gone) (messages d)) (set_threads (delete_where p (threads d)) d))"

definition threads_remove :: "string \<Rightarrow> db \<Rightarrow> db" where
  "threads_remove tid = delete_threads (\<lambda>t. th_id t = c_str tid)"

section \<open>Messages\<close>

definition bind_message :: "ai_message \<Rightarrow> ai_message" where
  "bind_message m = m\<lparr>msg_id := c_str (msg_id m), msg_thread_id := c_str (msg_thread_id m), msg_role := c_str (msg_role m),
     msg_source := c_str (msg_source m), msg_provider := map_option c_str (msg_provider m),
     msg_model := map_option c_str (msg_model m), msg_content := c_str (msg_content m),
     msg_prompt_hash := map_option c_str (msg_prompt_hash m), msg_meta_json := map_option c_str (msg_meta_json m)\<rparr>"

definition insert_message :: "ai_message \<Rightarrow> db \<Rightarrow> db result" where
  "insert_message m0 d =
     (let m = bind_message m0
      in if msg_id m \<in> msg_id ` set (messages d) \<or> msg_thread_id m \<notin> th_id ` set (threads d)
         then Inl (SqliteError ''insert ai message failed'')
         else Inr (set_messages (messages d @ [m]) d))"

definition messages_get :: "string \<Rightarrow> db \<Rightarrow> ai_message option" where
  "messages_get mid d = find (\<lambda>m. msg_id m = c_str mid) (messages d)"

definition list_by_thread :: "string \<Rightarrow> db \<Rightarrow> ai_message list" where
  "list_by_thread tid d =
     sort_by (\<lambda>a b. msg_created_at a < msg_created_at b) (filter (\<lambda>m. msg_thread_id m = c_str tid) (messages d))"

definition list_deleted_by_project :: "string \<Rightarrow> db \<Rightarrow> ai_message list" where
  "list_deleted_by_project pid d =
     sort_by (\<lambda>a b. the (msg_deleted_at b) < the (msg_deleted_at a))
       (filter (\<lambda>m. msg_deleted_at m \<noteq> None
           \<and> list_ex (\<lambda>t. th_id t = msg_thread_id m \<and> th_project_id t = c_str pid) (threads d)) (messages d))"

definition update_message :: "string \<Rightarrow> (ai_message \<Rightarrow> ai_message) \<Rightarrow> db \<Rightarrow> db" where
  "update_message mid f d = set_messages (update_where (\<lambda>m. msg_id m = c_str mid) f (messages d)) d"

text \<open>The statement of \<open>AiMessageRepo::update\<close>: thread and deletion time stay.\<close>

definition update_message_row :: "ai_message \<Rightarrow> db \<Rightarrow> db" where
  "update_message_row m = update_message (msg_id m)
     (\<lambda>r. (bind_message m)\<lparr>msg_id := msg_id r, msg_thread_id := msg_thread_id r, msg_deleted_at := msg_deleted_at r\<rparr>)"

definition set_message_deleted :: "string \<Rightarrow> i64 option \<Rightarrow> db \<Rightarrow> db" where
  "set_message_deleted mid del = update_message mid (\<lambda>m. m\<lparr>msg_deleted_at := del\<rparr>)"

definition delete_message :: "string \<Rightarrow> db \<Rightarrow> db" where
  "delete_message mid d = set_messages (delete_where (\<lambda>m. msg_id m = c_str mid) (messages d)) d"

section \<open>Full text\<close>

definition fts_delete_message :: "string \<Rightarrow> db \<Rightarrow> db" where
  "fts_delete_message mid d =
     d\<lparr>db_ai := (db_ai d)\<lparr>ai_fts := delete_where (\<lambda>r. af_message_id r = c_str mid) (ai_fts (db_ai d))\<rparr>\<rparr>"

definition fts_upsert_message :: "string \<Rightarrow> string \<Rightarrow> string \<Rightarrow> string \<Rightarrow> db \<Rightarrow> db" where
  "fts_upsert_message mid tid pid text d =
     (let d1 = fts_delete_message mid d
      in d1\<lparr>db_ai := (db_ai d1)\<lparr>ai_fts := ai_fts (db_ai d1)
           @ [\<lparr>af_message_id = c_str mid, af_thread_id = c_str tid, af_project_id = c_str pid, af_content = c_str text\<rparr>]\<rparr>\<rparr>)"

section \<open>The schema's constraints\<close>

definition wf_ai :: "db \<Rightarrow> bool" where
  "wf_ai d \<longleftrightarrow> distinct (map th_id (threads d)) \<and> distinct (map msg_id (messages d))
     \<and> list_all (\<lambda>t. nul_free (th_id t) \<and> th_project_id t \<in> proj_id ` set (projects d) \<and> card_exists d (th_card_id t)) (threads d)
     \<and> list_all (\<lambda>m. nul_free (msg_id m) \<and> msg_thread_id m \<in> th_id ` set (threads d)) (messages d)"

named_theorems ai_simps \<open>what the statements on AI tables leave alone\<close>

lemma set_threads_sel [simp, ai_simps]:
  "threads (set_threads ts d) = ts" "messages (set_threads ts d) = messages d" "cards (set_threads ts d) = cards d"
  "projects (set_threads ts d) = projects d" "db_res (set_threads ts d) = db_res d" "card_links (set_threads ts d) = card_links d"
  by (simp_all add: set_threads_def)

lemma set_messages_sel [simp, ai_simps]:
  "messages (set_messages ms d) = ms" "threads (set_messages ms d) = threads d" "cards (set_messages ms d) = cards d"
  "projects (set_messages ms d) = projects d" "db_res (set_messages ms d) = db_res d" "card_links (set_messages ms d) = card_links d"
  by (simp_all add: set_messages_def)

lemma set_tables_again [simp]:
  "set_threads ts (set_threads us d) = set_threads ts d" "set_threads (threads d) d = d"
  "set_messages ms (set_messages ns d) = set_messages ms d" "set_messages (messages d) d = d"
  by (simp_all add: set_threads_def set_messages_def)

lemma card_exists_set [simp]:
  "card_exists (set_threads ts d) c = card_exists d c" "card_exists (set_messages ms d) c = card_exists d c"
  by (simp_all add: card_exists_def split: option.splits)

lemma wf_ai_cong:
  assumes "threads d' = threads d" and "messages d' = messages d" and "wf_ai d"
    and "proj_id ` set (projects d) \<subseteq> proj_id ` set (projects d')" and "card_id ` set (cards d) \<subseteq> card_id ` set (cards d')"
  shows "wf_ai d'"
proof -
  have "card_exists d c \<Longrightarrow> card_exists d' c" for c using assms(5) by (auto simp: card_exists_def split: option.splits)
  with assms show ?thesis unfolding wf_ai_def list_all_iff by (metis subsetD)
qed

interpretation message_table: keyed_table messages set_messages msg_id bind_message
  "\<lambda>m d. c_str (msg_thread_id m) \<in> th_id ` set (threads d)" insert_message
  by unfold_locales (auto simp: insert_message_def bind_message_def Let_def)

interpretation thread_table: keyed_table threads set_threads th_id bind_thread
  "\<lambda>t d. c_str (th_project_id t) \<in> proj_id ` set (projects d) \<and> card_exists d (map_option c_str (th_card_id t))" threads_create
  by unfold_locales (auto simp: threads_create_def bind_thread_def Let_def)

lemma wf_insert_message: "wf_ai d \<Longrightarrow> insert_message m d = Inr d' \<Longrightarrow> wf_ai d'"
  by (auto simp: message_table.ins_iff wf_ai_def list_all_iff bind_message_def)

lemma wf_threads_create: "wf_ai d \<Longrightarrow> threads_create t d = Inr d' \<Longrightarrow> wf_ai d'"
  by (auto simp: thread_table.ins_iff wf_ai_def list_all_iff bind_thread_def)

lemma wf_update_thread:
  assumes "wf_ai d" and "\<And>t. th_id (f t) = th_id t \<and> th_project_id (f t) = th_project_id t"
    and "\<And>t. t \<in> set (threads d) \<Longrightarrow> th_id t = c_str tid \<Longrightarrow> card_exists d (th_card_id (f t))"
  shows "wf_ai (update_thread tid f d)"
  using assms by (auto simp: wf_ai_def update_thread_def list_all_iff in_set_update_where)

lemma wf_threads_updates:
  assumes "wf_ai d"
  shows "wf_ai (threads_update_title tid ttl now d)" and "wf_ai (threads_touch_updated tid now d)"
    and "threads_update_card_id tid cid d = Inr d' \<Longrightarrow> wf_ai d'"
proof -
  have "card_exists d (th_card_id t)" if "t \<in> set (threads d)" for t
    using assms that by (simp add: wf_ai_def list_all_iff)
  then show "wf_ai (threads_update_title tid ttl now d)" "wf_ai (threads_touch_updated tid now d)"
    using assms unfolding threads_update_title_def threads_touch_updated_def by (auto intro!: wf_update_thread)
  show "wf_ai d'" if "threads_update_card_id tid cid d = Inr d'"
    using that assms unfolding threads_update_card_id_def
    by (auto intro!: wf_update_thread split: if_splits) (metis image_eqI)
qed

lemma wf_update_message:
  assumes "wf_ai d" and "\<And>m. msg_id (f m) = msg_id m \<and> msg_thread_id (f m) = msg_thread_id m"
  shows "wf_ai (update_message mid f d)"
  using assms by (auto simp: wf_ai_def update_message_def list_all_iff in_set_update_where)

lemma wf_message_updates:
  assumes "wf_ai d"
  shows "wf_ai (update_message_row m d)" and "wf_ai (set_message_deleted mid del d)" and "wf_ai (delete_message mid d)"
    and "wf_ai (fts_delete_message mid d)" and "wf_ai (fts_upsert_message mid tid pid text d)"
proof -
  show "wf_ai (update_message_row m d)" "wf_ai (set_message_deleted mid del d)"
    using assms unfolding update_message_row_def set_message_deleted_def by (auto intro!: wf_update_message)
  show "wf_ai (delete_message mid d)" using assms by (auto simp: wf_ai_def list_all_iff delete_message_def)
  show "wf_ai (fts_delete_message mid d)" "wf_ai (fts_upsert_message mid tid pid text d)"
    by (rule wf_ai_cong [OF _ _ assms]; simp add: fts_delete_message_def fts_upsert_message_def Let_def)+
qed

lemma wf_delete_threads:
  assumes "wf_ai d"
  shows "wf_ai (delete_threads p d)"
proof -
  have "msg_thread_id m \<in> th_id ` {t \<in> set (threads d). \<not> p t}"
    if "m \<in> set (messages d)" "msg_thread_id m \<notin> th_id ` {t \<in> set (threads d). p t}" for m
  proof -
    from assms that(1) obtain t where "t \<in> set (threads d)" "th_id t = msg_thread_id m" by (auto simp: wf_ai_def list_all_iff)
    with that(2) show ?thesis by (metis (mono_tags, lifting) image_eqI mem_Collect_eq)
  qed
  with assms show ?thesis by (auto simp: wf_ai_def list_all_iff delete_threads_def Let_def)
qed

lemma wf_ai_cards_remove:
  assumes "wf_ai d"
  shows "wf_ai (cards_remove cid d)"
proof -
  let ?k = "c_str cid" and ?d = "cards_remove cid d"
  have ids: "card_id ` set (cards ?d) = card_id ` set (cards d) - {?k}"
    unfolding cards_remove_def Let_def
    by (simp add: image_set_update_where [where k = card_id] image_set_delete_where del: set_delete_where)
  define q :: "ai_thread \<Rightarrow> bool" where "q = (\<lambda>t. th_card_id t = Some ?k \<and> ?k \<in> card_id ` set (cards d))"
  have q: "card_exists ?d (th_card_id t)" if "t \<in> set (threads d)" "\<not> q t" for t
    using assms that ids by (auto simp: q_def card_exists_def wf_ai_def list_all_iff split: option.splits)
  have "projects ?d = projects d" "messages ?d = messages d" "threads ?d = update_where q (\<lambda>t. t\<lparr>th_card_id := None\<rparr>) (threads d)"
    by (simp_all add: cards_remove_def q_def Let_def)
  with assms q show ?thesis
    unfolding wf_ai_def by (auto simp: list_all_iff in_set_update_where) (simp add: card_exists_def)
qed

end
