(* ===== verification/Json_Value.thy ===== *)
theory Json_Value
  imports Doubles
begin

text \<open>
  JSON values as \<open>nlohmann::json\<close> holds them: an object is a list of its members in the order of the keys. Printing and
  parsing are a record of functions; \<open>None\<close> is an exception. The conversions follow \<open>get<T>()\<close>.
\<close>

section \<open>Values and conversions\<close>

datatype json =
    JNull
  | JBool bool
  | JInt int
  | JFloat double
  | JStr string
  | JArr "json list"
  | JObj "(string \<times> json) list"

record json_lib =
  json_dump :: "json \<Rightarrow> string option"
  json_pretty :: "json \<Rightarrow> string option"
  json_parse :: "string \<Rightarrow> json option"
  float_to_int :: "double \<Rightarrow> int"

definition dump :: "json_lib \<Rightarrow> json \<Rightarrow> string result" where
  "dump jl j = (case json_dump jl j of None \<Rightarrow> Inl (JsonError ''type_error'') | Some t \<Rightarrow> Inr t)"

text \<open>\<open>dump(2)\<close>, followed by a newline as every manifest is written.\<close>

definition dump_pretty :: "json_lib \<Rightarrow> json \<Rightarrow> string result" where
  "dump_pretty jl j =
     (case json_pretty jl j of None \<Rightarrow> Inl (JsonError ''type_error'') | Some t \<Rightarrow> Inr (t @ [newline]))"

definition parse_json :: "json_lib \<Rightarrow> string \<Rightarrow> json result" where
  "parse_json jl t = (case json_parse jl t of None \<Rightarrow> Inl (JsonError ''parse_error'') | Some j \<Rightarrow> Inr j)"

definition json_get :: "json \<Rightarrow> string \<Rightarrow> json option" where
  "json_get j k = (case j of JObj kvs \<Rightarrow> map_of kvs k | _ \<Rightarrow> None)"

definition json_at :: "json \<Rightarrow> string \<Rightarrow> json result" where
  "json_at j k = (case json_get j k of None \<Rightarrow> Inl (JsonError ''out_of_range'') | Some v \<Rightarrow> Inr v)"

text \<open>\<open>get<int>()\<close> casts the stored 64-bit number to 32 bits.\<close>

definition to_int32 :: "int \<Rightarrow> int" where
  "to_int32 i = (i + 2147483648) mod 4294967296 - 2147483648"

definition get_int :: "json_lib \<Rightarrow> json \<Rightarrow> int result" where
  "get_int jl j =
     (case j of
        JInt i \<Rightarrow> Inr (to_int32 i)
      | JFloat x \<Rightarrow> Inr (float_to_int jl x)
      | JBool b \<Rightarrow> Inr (if b then 1 else 0)
      | _ \<Rightarrow> Inl (JsonError ''type_error''))"

definition get_string :: "json \<Rightarrow> string result" where
  "get_string j = (case j of JStr s \<Rightarrow> Inr s | _ \<Rightarrow> Inl (JsonError ''type_error''))"

definition string_at :: "json \<Rightarrow> string \<Rightarrow> string result" where
  "string_at j k = rbind (json_at j k) get_string"

text \<open>\<open>get<long long>()\<close>, which differs from \<open>int64_t\<close> where \<open>long\<close> has 64 bits and then takes booleans too.\<close>

definition to_int64 :: "int \<Rightarrow> int" where
  "to_int64 i = (i + 9223372036854775808) mod 18446744073709551616 - 9223372036854775808"

definition get_int64 :: "json_lib \<Rightarrow> json \<Rightarrow> i64 result" where
  "get_int64 jl j =
     (case j of
        JInt i \<Rightarrow> Inr (to_int64 i)
      | JFloat x \<Rightarrow> Inr (float_to_int jl x)
      | JBool b \<Rightarrow> Inr (if b then 1 else 0)
      | _ \<Rightarrow> Inl (JsonError ''type_error''))"

definition int64_at :: "json_lib \<Rightarrow> json \<Rightarrow> string \<Rightarrow> i64 result" where
  "int64_at jl j k = rbind (json_at j k) (get_int64 jl)"

text \<open>\<open>get<std::vector<T>>()\<close> and \<open>get<std::map<std::string, T>>()\<close>.\<close>

definition get_list :: "(json \<Rightarrow> 'a result) \<Rightarrow> json \<Rightarrow> 'a list result" where
  "get_list f j = (case j of JArr xs \<Rightarrow> rmap f xs | _ \<Rightarrow> Inl (JsonError ''type_error''))"

definition get_map :: "(json \<Rightarrow> 'a result) \<Rightarrow> json \<Rightarrow> (string \<times> 'a) list result" where
  "get_map f j =
     (case j of
        JObj kvs \<Rightarrow> rmap (\<lambda>(k, v). rbind (f v) (\<lambda>x. Inr (k, x))) kvs
      | _ \<Rightarrow> Inl (JsonError ''type_error''))"

definition string_map :: "(string \<times> string) list \<Rightarrow> json" where
  "string_map m = JObj (map (\<lambda>(k, v). (k, JStr v)) m)"

section \<open>What is read back\<close>

definition is_i64 :: "int \<Rightarrow> bool" where
  "is_i64 i \<longleftrightarrow> - 9223372036854775808 \<le> i \<and> i < 9223372036854775808"

text \<open>An indented value with a newline after it is parsed back.\<close>

definition pretty_keeps :: "json_lib \<Rightarrow> json \<Rightarrow> bool" where
  "pretty_keeps jl j = (case json_pretty jl j of None \<Rightarrow> False | Some t \<Rightarrow> json_parse jl (t @ [newline]) = Some j)"

lemma pretty_keepsE:
  assumes "pretty_keeps jl j"
  obtains t where "dump_pretty jl j = Inr t" and "parse_json jl t = Inr j"
  using assms by (auto simp: pretty_keeps_def dump_pretty_def parse_json_def split: option.splits)

lemma get_int64_JInt [simp]: "is_i64 i \<Longrightarrow> get_int64 jl (JInt i) = Inr i"
  by (simp add: get_int64_def to_int64_def is_i64_def)

lemma get_string_JStr [simp]: "get_string (JStr s) = Inr s"
  by (simp add: get_string_def)

lemma rmap_map_Inr:
  assumes "\<And>x. x \<in> set xs \<Longrightarrow> f (g x) = Inr x"
  shows "rmap f (map g xs) = Inr xs"
  using assms by (induction xs) auto

lemma get_list_map: "(\<And>x. x \<in> set xs \<Longrightarrow> f (g x) = Inr x) \<Longrightarrow> get_list f (JArr (map g xs)) = Inr xs"
  by (simp add: get_list_def rmap_map_Inr)

lemma get_map_map:
  assumes "\<And>k v. (k, v) \<in> set m \<Longrightarrow> f (g v) = Inr v"
  shows "get_map f (JObj (map (\<lambda>(k, v). (k, g v)) m)) = Inr m"
  unfolding get_map_def json.case by (rule rmap_map_Inr) (auto simp: assms)

lemma get_string_map [simp]: "get_map get_string (string_map m) = Inr m"
  unfolding string_map_def by (rule get_map_map) simp

end
