(* ===== verification/Resource_Repo.thy ===== *)
theory Resource_Repo
  imports Card_Index Json_Value
begin

text \<open>
  The tables of resources, their metadata, assets and placements, and of storage locations:
  \<open>src/src/resource/ResourceRepo.cpp\<close> and \<open>src/src/resource/LocationRepo.cpp\<close> over \<open>src/schema/schema.sql\<close>. A statement
  that would delete a location some placement refers to fails as a whole.
\<close>

section \<open>Storage locations\<close>

abbreviation locations :: "db \<Rightarrow> location_row list" where
  "locations d \<equiv> storage_locations (db_res d)"

abbreviation placement_rows :: "db \<Rightarrow> placement list" where
  "placement_rows d \<equiv> asset_placements (db_res d)"

definition set_locations :: "location_row list \<Rightarrow> db \<Rightarrow> db" where
  "set_locations ls d = d\<lparr>db_res := (db_res d)\<lparr>storage_locations := ls\<rparr>\<rparr>"

definition location_row_of :: "location \<Rightarrow> string \<Rightarrow> location_row" where
  "location_row_of l config = \<lparr>lr_id = c_str (loc_id l), lr_project_id = c_str (loc_project_id l), lr_name = c_str (loc_name l),
     lr_provider = c_str (loc_provider l), lr_config_json = c_str config, lr_created_at = loc_created_at l,
     lr_updated_at = loc_updated_at l\<rparr>"

definition locations_put :: "json_lib \<Rightarrow> location \<Rightarrow> db \<Rightarrow> db result" where
  "locations_put jl l d =
     rbind (require (loc_id l \<noteq> [] \<and> loc_project_id l \<noteq> [] \<and> loc_name l \<noteq> [] \<and> loc_provider l \<noteq> [])
              (InvalidArgument ''location identity, project, name and provider are required''))
     (\<lambda>_. rbind (dump jl (string_map (loc_configuration l)))
     (\<lambda>config. let r = location_row_of l config
        in if lr_project_id r \<notin> proj_id ` set (projects d) then Inl (RuntimeError ''put location failed'')
           else if lr_id r \<in> lr_id ` set (locations d)
           then Inr (set_locations (update_where (\<lambda>x. lr_id x = lr_id r) (\<lambda>x. r\<lparr>lr_created_at := lr_created_at x\<rparr>) (locations d)) d)
           else Inr (set_locations (locations d @ [r]) d)))"

definition read_location :: "json_lib \<Rightarrow> location_row \<Rightarrow> location result" where
  "read_location jl r =
     rbind (rbind (parse_json jl (lr_config_json r)) (get_map get_string))
     (\<lambda>config. Inr \<lparr>loc_id = lr_id r, loc_project_id = lr_project_id r, loc_name = lr_name r, loc_provider = lr_provider r,
        loc_configuration = config, loc_created_at = lr_created_at r, loc_updated_at = lr_updated_at r\<rparr>)"

definition locations_get :: "json_lib \<Rightarrow> string \<Rightarrow> db \<Rightarrow> location option result" where
  "locations_get jl lid d =
     (case find (\<lambda>r. lr_id r = c_str lid) (locations d) of
        None \<Rightarrow> Inr None
      | Some r \<Rightarrow> rbind (read_location jl r) (\<lambda>l. Inr (Some l)))"

definition locations_list :: "json_lib \<Rightarrow> string \<Rightarrow> db \<Rightarrow> location list result" where
  "locations_list jl pid d =
     rmap (read_location jl)
       (sort_by (\<lambda>a b. lr_updated_at b < lr_updated_at a \<or> lr_updated_at a = lr_updated_at b \<and> lr_id a < lr_id b)
          (filter (\<lambda>r. lr_project_id r = c_str pid) (locations d)))"

definition is_in_use :: "string \<Rightarrow> db \<Rightarrow> bool" where
  "is_in_use lid d = list_ex (\<lambda>p. plc_location_id p = c_str lid) (placement_rows d)"

text \<open>\<open>ON DELETE RESTRICT\<close>: no deleted location may be in use.\<close>

definition delete_locations :: "(location_row \<Rightarrow> bool) \<Rightarrow> exn \<Rightarrow> db \<Rightarrow> db result" where
  "delete_locations p e d =
     (if list_ex (\<lambda>r. p r \<and> is_in_use (lr_id r) d) (locations d) then Inl e
      else Inr (set_locations (delete_where p (locations d)) d))"

definition locations_remove :: "string \<Rightarrow> db \<Rightarrow> db result" where
  "locations_remove lid = delete_locations (\<lambda>r. lr_id r = c_str lid) (RuntimeError ''remove location failed'')"

definition locations_remove_project :: "string \<Rightarrow> db \<Rightarrow> db result" where
  "locations_remove_project pid =
     delete_locations (\<lambda>r. lr_project_id r = c_str pid) (RuntimeError ''remove project locations failed'')"

section \<open>Deleting resources\<close>

text \<open>The cascades: metadata and assets go with their resource, placements with their asset.\<close>

definition delete_assets :: "(asset_row \<Rightarrow> bool) \<Rightarrow> resource_tables \<Rightarrow> resource_tables" where
  "delete_assets p t =
     (let gone = ar_id ` set (filter p (assets t))
      in t\<lparr>assets := delete_where p (assets t),
           asset_placements := delete_where (\<lambda>x. plc_asset_id x \<in> gone) (asset_placements t)\<rparr>)"

definition delete_resources :: "(resource_row \<Rightarrow> bool) \<Rightarrow> db \<Rightarrow> db" where
  "delete_resources p d =
     (let gone = rr_id ` set (filter p (resources (db_res d)));
          t = delete_assets (\<lambda>a. ar_resource_id a \<in> gone) (db_res d)
      in d\<lparr>db_res := t\<lparr>resources := delete_where p (resources t),
           resource_metadata := delete_where (\<lambda>m. md_resource_id m \<in> gone) (resource_metadata t)\<rparr>\<rparr>)"

definition resources_remove :: "string \<Rightarrow> db \<Rightarrow> db" where
  "resources_remove rid = delete_resources (\<lambda>r. rr_id r = c_str rid)"

definition resources_remove_project :: "string \<Rightarrow> db \<Rightarrow> db" where
  "resources_remove_project pid = delete_resources (\<lambda>r. rr_project_id r = c_str pid)"

section \<open>Writing a resource with its assets\<close>

definition validate_resource :: "resource \<Rightarrow> unit result" where
  "validate_resource r =
     require (res_id r \<noteq> [] \<and> res_project_id r \<noteq> [] \<and> res_type r \<noteq> [] \<and> res_label r \<noteq> [])
       (InvalidArgument ''resource identity, project, type and label are required'')"

definition resource_row_of :: "resource \<Rightarrow> resource_row" where
  "resource_row_of r = \<lparr>rr_id = c_str (res_id r), rr_project_id = c_str (res_project_id r), rr_type = c_str (res_type r),
     rr_label = c_str (res_label r), rr_created_at = res_created_at r, rr_updated_at = res_updated_at r\<rparr>"

definition insert_resource_row :: "resource \<Rightarrow> db \<Rightarrow> db result" where
  "insert_resource_row r d =
     (let row = resource_row_of r
      in if rr_id row \<in> rr_id ` set (resources (db_res d)) \<or> rr_project_id row \<notin> proj_id ` set (projects d)
         then Inl (SqliteError ''put resource failed'')
         else Inr (d\<lparr>db_res := (db_res d)\<lparr>resources := resources (db_res d) @ [row]\<rparr>\<rparr>))"

abbreviation metadata_key :: "metadata_row \<Rightarrow> string \<times> string \<times> i64" where
  "metadata_key m \<equiv> (md_resource_id m, md_property m, md_value_index m)"

definition metadata_rows :: "string \<Rightarrow> string \<times> string list \<Rightarrow> metadata_row list" where
  "metadata_rows rid kv =
     map (\<lambda>(i, v). \<lparr>md_resource_id = c_str rid, md_property = c_str (fst kv), md_value_index = int i, md_value = c_str v\<rparr>)
       (enumerate 0 (snd kv))"

definition insert_metadata_row :: "metadata_row \<Rightarrow> db \<Rightarrow> db result" where
  "insert_metadata_row m d =
     (if metadata_key m \<in> metadata_key ` set (resource_metadata (db_res d)) \<or> md_resource_id m \<notin> rr_id ` set (resources (db_res d))
      then Inl (SqliteError ''put resource metadata failed'')
      else Inr (d\<lparr>db_res := (db_res d)\<lparr>resource_metadata := resource_metadata (db_res d) @ [m]\<rparr>\<rparr>))"

text \<open>One property of the metadata: its name is checked before its values are written.\<close>

definition check_property :: "string \<times> string list \<Rightarrow> db \<Rightarrow> db result" where
  "check_property kv d = (if fst kv = [] then Inl (InvalidArgument ''resource metadata property is empty'') else Inr d)"

definition metadata_steps :: "string \<Rightarrow> string \<times> string list \<Rightarrow> (db \<Rightarrow> db result) list" where
  "metadata_steps rid kv = check_property kv # map insert_metadata_row (metadata_rows rid kv)"

definition asset_row_of :: "resource \<Rightarrow> asset \<Rightarrow> asset_row" where
  "asset_row_of r a = \<lparr>ar_id = c_str (asset_id a), ar_resource_id = c_str (res_id r), ar_project_id = c_str (res_project_id r),
     ar_original_filename = c_str (original_filename a), ar_media_type = c_str (media_type a), ar_byte_size = byte_size a,
     ar_plaintext_sha256 = c_str (plaintext_sha256 a), ar_created_at = as_created_at a, ar_updated_at = as_updated_at a\<rparr>"

definition insert_asset :: "resource \<Rightarrow> asset \<Rightarrow> db \<Rightarrow> db result" where
  "insert_asset r a d =
     (let row = asset_row_of r a
      in if asset_id a = [] \<or> as_resource_id a \<noteq> res_id r \<or> plaintext_sha256 a = [] \<or> byte_size a < 0
         then Inl (InvalidArgument ''invalid asset in resource bundle'')
         else if ar_id row \<in> ar_id ` set (assets (db_res d)) \<or> ar_resource_id row \<notin> rr_id ` set (resources (db_res d))
           \<or> ar_project_id row \<notin> proj_id ` set (projects d)
         then Inl (SqliteError ''put asset failed'')
         else Inr (d\<lparr>db_res := (db_res d)\<lparr>assets := assets (db_res d) @ [row]\<rparr>\<rparr>))"

definition placement_row_of :: "asset \<Rightarrow> placement \<Rightarrow> placement" where
  "placement_row_of a p = p\<lparr>plc_id := c_str (plc_id p), plc_asset_id := c_str (asset_id a), plc_location_id := c_str (plc_location_id p),
     object_key := c_str (object_key p), plc_encoding := c_str (plc_encoding p), stored_sha256 := c_str (stored_sha256 p)\<rparr>"

abbreviation object_of :: "placement \<Rightarrow> string \<times> string" where
  "object_of p \<equiv> (plc_location_id p, object_key p)"

definition insert_placement :: "asset \<Rightarrow> placement \<Rightarrow> db \<Rightarrow> db result" where
  "insert_placement a p d =
     (let row = placement_row_of a p
      in if plc_id p = [] \<or> plc_asset_id p \<noteq> asset_id a \<or> plc_location_id p = [] \<or> object_key p = [] \<or> plc_encoding p = []
           \<or> stored_byte_size p < 0
         then Inl (InvalidArgument ''invalid placement in resource bundle'')
         else if plc_id row \<in> plc_id ` set (placement_rows d) \<or> object_of row \<in> object_of ` set (placement_rows d)
           \<or> plc_asset_id row \<notin> ar_id ` set (assets (db_res d)) \<or> plc_location_id row \<notin> lr_id ` set (locations d)
         then Inl (SqliteError ''put placement failed'')
         else Inr (d\<lparr>db_res := (db_res d)\<lparr>asset_placements := placement_rows d @ [row]\<rparr>\<rparr>))"

definition asset_steps :: "resource \<Rightarrow> asset \<Rightarrow> (db \<Rightarrow> db result) list" where
  "asset_steps r a = insert_asset r a # map (insert_placement a) (as_placements a)"

text \<open>
  The statements of \<open>put_bundle\<close> one after the other; its callers run it in a transaction, so a failure leaves nothing.
\<close>

definition put_bundle_steps :: "resource_bundle \<Rightarrow> (db \<Rightarrow> db result) list" where
  "put_bundle_steps b =
     (let r = rb_resource b
      in [\<lambda>d. Inr (resources_remove (res_id r) d), insert_resource_row r]
         @ concat (map (metadata_steps (res_id r)) (res_metadata r)) @ concat (map (asset_steps r) (rb_assets b)))"

definition put_bundle :: "resource_bundle \<Rightarrow> db \<Rightarrow> db result" where
  "put_bundle b d = rbind (validate_resource (rb_resource b)) (\<lambda>_. rfold (\<lambda>step. step) (put_bundle_steps b) d)"

section \<open>Reading\<close>

text \<open>Appending to the vector of a property in a \<open>std::map\<close>.\<close>

fun add_value :: "string \<Rightarrow> string \<Rightarrow> (string \<times> string list) list \<Rightarrow> (string \<times> string list) list" where
  "add_value k v [] = [(k, [v])]"
| "add_value k v ((k', vs) # m) =
     (if k = k' then (k', vs @ [v]) # m else if k < k' then (k, [v]) # (k', vs) # m else (k', vs) # add_value k v m)"

definition metadata_of :: "string \<Rightarrow> db \<Rightarrow> (string \<times> string list) list" where
  "metadata_of rid d =
     foldl (\<lambda>m r. add_value (md_property r) (md_value r) m) []
       (sort_by (\<lambda>a b. md_property a < md_property b \<or> md_property a = md_property b \<and> md_value_index a < md_value_index b)
          (filter (\<lambda>r. md_resource_id r = c_str rid) (resource_metadata (db_res d))))"

definition resources_get :: "string \<Rightarrow> db \<Rightarrow> resource option" where
  "resources_get rid d =
     map_option (\<lambda>r. \<lparr>res_id = rr_id r, res_project_id = rr_project_id r, res_type = rr_type r, res_label = rr_label r,
          res_metadata = metadata_of rid d, res_created_at = rr_created_at r, res_updated_at = rr_updated_at r\<rparr>)
       (find (\<lambda>r. rr_id r = c_str rid) (resources (db_res d)))"

definition placements_of :: "string \<Rightarrow> db \<Rightarrow> placement list" where
  "placements_of aid d =
     sort_by (\<lambda>a b. plc_created_at a < plc_created_at b \<or> plc_created_at a = plc_created_at b \<and> plc_id a < plc_id b)
       (filter (\<lambda>p. plc_asset_id p = c_str aid) (placement_rows d))"

definition read_asset :: "string \<Rightarrow> db \<Rightarrow> asset_row \<Rightarrow> asset" where
  "read_asset rid d r = \<lparr>asset_id = ar_id r, as_resource_id = rid, original_filename = ar_original_filename r,
     media_type = ar_media_type r, byte_size = ar_byte_size r, plaintext_sha256 = ar_plaintext_sha256 r,
     as_created_at = ar_created_at r, as_updated_at = ar_updated_at r, as_placements = placements_of (ar_id r) d\<rparr>"

definition get_bundle :: "string \<Rightarrow> db \<Rightarrow> resource_bundle option" where
  "get_bundle rid d =
     map_option (\<lambda>r. \<lparr>rb_resource = r, rb_assets = map (read_asset rid d)
          (sort_by (\<lambda>a b. ar_created_at a < ar_created_at b \<or> ar_created_at a = ar_created_at b \<and> ar_id a < ar_id b)
             (filter (\<lambda>a. ar_resource_id a = c_str rid) (assets (db_res d))))\<rparr>)
       (resources_get rid d)"

definition find_by_asset_hash :: "string \<Rightarrow> string \<Rightarrow> db \<Rightarrow> resource_bundle option" where
  "find_by_asset_hash pid hash d =
     (case sort_by (\<lambda>a b. ar_created_at a < ar_created_at b)
             (filter (\<lambda>a. ar_project_id a = c_str pid \<and> ar_plaintext_sha256 a = c_str hash) (assets (db_res d))) of
        [] \<Rightarrow> None
      | a # _ \<Rightarrow> get_bundle (ar_resource_id a) d)"

abbreviation recent_first :: "resource_row \<Rightarrow> resource_row \<Rightarrow> bool" where
  "recent_first a b \<equiv> rr_updated_at b < rr_updated_at a \<or> rr_updated_at a = rr_updated_at b \<and> rr_id a < rr_id b"

definition resources_list :: "string \<Rightarrow> db \<Rightarrow> resource list" where
  "resources_list pid d =
     map (\<lambda>r. the (resources_get (rr_id r) d)) (sort_by recent_first (filter (\<lambda>r. rr_project_id r = c_str pid) (resources (db_res d))))"

text \<open>The join over the attachment links of a live card.\<close>

definition list_for_card :: "string \<Rightarrow> string \<Rightarrow> int \<Rightarrow> int \<Rightarrow> db \<Rightarrow> resource list result" where
  "list_for_card pid cid limit offset d =
     (if limit < 1 \<or> limit > 1000 \<or> offset < 0
      then Inl (InvalidArgument ''attachment limit must be 1..1000 and offset nonnegative'')
      else Inr (map (\<lambda>r. the (resources_get (rr_id r) d)) (take (nat limit) (drop (nat offset) (sort_by recent_first
        (concat (map (\<lambda>r. map (\<lambda>_. r) (filter (\<lambda>l. to_card_id l = rr_id r \<and> link_project_id l = rr_project_id r
             \<and> to_type l = ''resource'' \<and> link_kind l = ''attachment''
             \<and> list_ex (\<lambda>c. card_id c = from_card_id l \<and> project_id c = link_project_id l \<and> card_id c = c_str cid
                  \<and> deleted_at c = None) (cards d)) (card_links d)))
           (filter (\<lambda>r. rr_project_id r = c_str pid) (resources (db_res d))))))))))"

definition resources_add :: "resource \<Rightarrow> db \<Rightarrow> db result" where
  "resources_add r d =
     (if resources_get (res_id r) d \<noteq> None then Inl (RuntimeError ''conflict: resource_id already exists'')
      else put_bundle \<lparr>rb_resource = r, rb_assets = []\<rparr> d)"

definition update_resource :: "resource \<Rightarrow> db \<Rightarrow> db result" where
  "update_resource r d =
     (case get_bundle (res_id r) d of
        None \<Rightarrow> Inl (RuntimeError ''resource not found'')
      | Some b \<Rightarrow> put_bundle (b\<lparr>rb_resource := r\<rparr>) d)"

end
