(* ===== verification/Resource_Tables.thy ===== *)
theory Resource_Tables
  imports Resource_Repo
begin

text \<open>
  What the resource tables guarantee: the constraints of the schema as an invariant of every statement, and that a
  resource written with its metadata, assets and placements is read back.
\<close>

section \<open>The schema's constraints\<close>

definition wf_resources :: "db \<Rightarrow> bool" where
  "wf_resources d \<longleftrightarrow> (let t = db_res d in
     distinct (map rr_id (resources t)) \<and> distinct (map metadata_key (resource_metadata t)) \<and> distinct (map lr_id (storage_locations t))
     \<and> distinct (map ar_id (assets t)) \<and> distinct (map plc_id (asset_placements t)) \<and> distinct (map object_of (asset_placements t))
     \<and> rr_project_id ` set (resources t) \<subseteq> proj_id ` set (projects d)
     \<and> lr_project_id ` set (storage_locations t) \<subseteq> proj_id ` set (projects d)
     \<and> md_resource_id ` set (resource_metadata t) \<subseteq> rr_id ` set (resources t)
     \<and> ar_resource_id ` set (assets t) \<subseteq> rr_id ` set (resources t) \<and> ar_project_id ` set (assets t) \<subseteq> proj_id ` set (projects d)
     \<and> plc_asset_id ` set (asset_placements t) \<subseteq> ar_id ` set (assets t)
     \<and> plc_location_id ` set (asset_placements t) \<subseteq> lr_id ` set (storage_locations t)
     \<and> list_all (\<lambda>l. nul_free (lr_id l)) (storage_locations t) \<and> list_all (\<lambda>a. nul_free (ar_id a)) (assets t))"

lemmas wf_res_defs = wf_resources_def Let_def list_all_iff

lemma wf_resources_cong:
  assumes "wf_resources d" and "db_res d' = db_res d" and "proj_id ` set (projects d) \<subseteq> proj_id ` set (projects d')"
  shows "wf_resources d'"
  using assms(1) unfolding wf_resources_def Let_def assms(2) by (meson assms(3) subset_trans)

text \<open>Rows that refer to deleted rows go with them: the reference stays satisfied.\<close>

lemma delete_cascade:
  assumes "f ` set xs \<subseteq> g ` set ys"
  shows "f ` set (delete_where (\<lambda>x. f x \<in> g ` set (filter p ys)) xs) \<subseteq> g ` set (delete_where p ys)"
proof
  fix k assume "k \<in> f ` set (delete_where (\<lambda>x. f x \<in> g ` set (filter p ys)) xs)"
  then have k: "k \<in> f ` set xs" "k \<notin> g ` set (filter p ys)" by auto
  with assms obtain y where "y \<in> set ys" "k = g y" by auto
  with k(2) show "k \<in> g ` set (delete_where p ys)" by auto
qed

lemma subset_delete_where: "f ` set xs \<subseteq> A \<Longrightarrow> f ` set (delete_where p xs) \<subseteq> A"
  by auto

lemma wf_delete_resources:
  assumes "wf_resources d"
  shows "wf_resources (delete_resources p d)"
  using assms unfolding wf_resources_def delete_resources_def delete_assets_def Let_def
  by (simp add: delete_cascade subset_delete_where list_all_iff del: set_delete_where set_filter) simp

lemma wf_delete_assets:
  assumes "wf_resources d"
  shows "wf_resources (d\<lparr>db_res := delete_assets p (db_res d)\<rparr>)"
  using assms unfolding wf_resources_def delete_assets_def Let_def
  by (simp add: delete_cascade subset_delete_where list_all_iff del: set_delete_where set_filter) simp

lemma wf_delete_locations:
  assumes "wf_resources d" and "delete_locations p e d = Inr d'"
  shows "wf_resources d'"
proof -
  from assms(2) have d': "d' = set_locations (delete_where p (locations d)) d"
    and free: "\<And>r. r \<in> set (locations d) \<Longrightarrow> p r \<Longrightarrow> \<not> is_in_use (lr_id r) d"
    by (auto simp: delete_locations_def list_ex_iff split: if_splits)
  have "plc_location_id x \<in> lr_id ` {r \<in> set (locations d). \<not> p r}" if "x \<in> set (placement_rows d)" for x
  proof -
    from assms(1) that obtain r where "r \<in> set (locations d)" "lr_id r = plc_location_id x" "nul_free (lr_id r)"
      by (auto simp: wf_res_defs)
    with free that show ?thesis by (force simp: is_in_use_def list_ex_iff)
  qed
  with assms(1) show ?thesis by (auto simp: d' wf_res_defs set_locations_def)
qed

lemma wf_locations_put:
  assumes "wf_resources d" and "locations_put jl l d = Inr d'"
  shows "wf_resources d'"
proof -
  let ?u = "\<lambda>r. update_where (\<lambda>x. lr_id x = lr_id r) (\<lambda>x. r\<lparr>lr_created_at := lr_created_at x\<rparr>) (locations d)"
  from assms(2) obtain c where c: "lr_project_id (location_row_of l c) \<in> proj_id ` set (projects d)"
    "d' = (if lr_id (location_row_of l c) \<in> lr_id ` set (locations d) then set_locations (?u (location_row_of l c)) d
       else set_locations (locations d @ [location_row_of l c]) d)"
    unfolding locations_put_def rbind_eq_Inr Let_def by (metis sum.inject(2) sum.distinct(1))
  define r where "r = location_row_of l c"
  note r = c(1) [folded r_def] and d' = c(2) [folded r_def]
  have "nul_free (lr_id r)" by (simp add: r_def location_row_of_def)
  moreover have keys: "map lr_id (?u r) = map lr_id (locations d)" by (simp add: update_where_def)
  moreover from this have "lr_id ` set (?u r) = lr_id ` set (locations d)" by (metis set_map)
  ultimately show ?thesis
    using assms(1) r by (auto simp: d' wf_res_defs set_locations_def in_set_update_where image_subset_iff)
qed

lemma wf_put_step:
  assumes "wf_resources d" and "step \<in> set (put_bundle_steps b)" and "step d = Inr d'"
  shows "wf_resources d'"
proof -
  have ins: "wf_resources d'" if "insert_resource_row r d = Inr d'" for r
    using that assms(1) by (auto simp: insert_resource_row_def wf_res_defs image_subset_iff split: if_splits)
  have met: "wf_resources d'" if "insert_metadata_row m d = Inr d'" for m
    using that assms(1) by (auto simp: insert_metadata_row_def wf_res_defs image_subset_iff split: if_splits)
  have ast: "wf_resources d'" if "insert_asset r a d = Inr d'" for r a
    using that assms(1) by (auto simp: insert_asset_def asset_row_of_def wf_res_defs image_subset_iff split: if_splits)
  have plc: "wf_resources d'" if "insert_placement a p d = Inr d'" for a p
    using that assms(1) by (auto simp: insert_placement_def wf_res_defs image_subset_iff split: if_splits)
  have rem: "wf_resources (resources_remove rid d)" for rid
    using assms(1) wf_delete_resources by (simp add: resources_remove_def)
  from assms(2) consider "step = (\<lambda>d. Inr (resources_remove (res_id (rb_resource b)) d))" | "step = insert_resource_row (rb_resource b)"
    | kv where "step = check_property kv" | m where "step = insert_metadata_row m" | r a where "step = insert_asset r a"
    | a p where "step = insert_placement a p"
    by (auto simp: put_bundle_steps_def metadata_steps_def asset_steps_def Let_def)
  then show ?thesis
    by cases (use assms(1,3) ins met ast plc rem in \<open>auto simp: check_property_def split: if_splits\<close>)
qed

lemma wf_put_bundle: "wf_resources d \<Longrightarrow> put_bundle b d = Inr d' \<Longrightarrow> wf_resources d'"
  unfolding put_bundle_def
  by (auto simp: rbind_eq_Inr intro: rfold_invariant [where P = wf_resources] wf_put_step)

section \<open>A resource is read back as written\<close>

text \<open>
  A bundle whose text fits into the columns and whose metadata is a map without empty entries; the order in which
  assets and placements are read.
\<close>

definition clean_placement :: "placement \<Rightarrow> bool" where
  "clean_placement p \<longleftrightarrow> list_all nul_free [plc_id p, plc_asset_id p, plc_location_id p, object_key p, plc_encoding p, stored_sha256 p]"

definition clean_asset :: "asset \<Rightarrow> bool" where
  "clean_asset a \<longleftrightarrow> list_all nul_free [asset_id a, as_resource_id a, original_filename a, media_type a, plaintext_sha256 a]
     \<and> list_all clean_placement (as_placements a)"

definition clean_bundle :: "resource_bundle \<Rightarrow> bool" where
  "clean_bundle b \<longleftrightarrow> (let r = rb_resource b in
     list_all nul_free [res_id r, res_project_id r, res_type r, res_label r]
     \<and> sorted_wrt (<) (map fst (res_metadata r))
     \<and> list_all (\<lambda>(k, vs). nul_free k \<and> vs \<noteq> [] \<and> list_all nul_free vs) (res_metadata r)
     \<and> list_all clean_asset (rb_assets b))"

definition placement_less :: "placement \<Rightarrow> placement \<Rightarrow> bool" where
  "placement_less a b \<longleftrightarrow> plc_created_at a < plc_created_at b \<or> plc_created_at a = plc_created_at b \<and> plc_id a < plc_id b"

definition asset_less :: "asset \<Rightarrow> asset \<Rightarrow> bool" where
  "asset_less a b \<longleftrightarrow> as_created_at a < as_created_at b \<or> as_created_at a = as_created_at b \<and> asset_id a < asset_id b"

definition in_order :: "resource_bundle \<Rightarrow> resource_bundle" where
  "in_order b = b\<lparr>rb_assets := sort_by asset_less
     (map (\<lambda>a. a\<lparr>as_placements := sort_by placement_less (as_placements a)\<rparr>) (rb_assets b))\<rparr>"

subsection \<open>The rows a bundle leaves\<close>

definition add_rows :: "metadata_row list \<Rightarrow> asset_row list \<Rightarrow> placement list \<Rightarrow> db \<Rightarrow> db" where
  "add_rows ms as ps d = d\<lparr>db_res := (db_res d)\<lparr>resource_metadata := resource_metadata (db_res d) @ ms,
     assets := assets (db_res d) @ as, asset_placements := asset_placements (db_res d) @ ps\<rparr>\<rparr>"

lemma add_rows_simps [simp]:
  "add_rows ms as ps (add_rows ns bs qs d) = add_rows (ns @ ms) (bs @ as) (qs @ ps) d" "add_rows [] [] [] d = d"
  by (simp_all add: add_rows_def)

lemma metadata_rows_inserted:
  "rfold insert_metadata_row ms d = Inr d' \<Longrightarrow> d' = add_rows ms [] [] d"
proof (induction ms arbitrary: d)
  case (Cons m ms)
  then obtain u where u: "insert_metadata_row m d = Inr u" "rfold insert_metadata_row ms u = Inr d'" by (auto simp: rbind_eq_Inr)
  from u(1) have "u = add_rows [m] [] [] d" by (auto simp: insert_metadata_row_def add_rows_def split: if_splits)
  with Cons.IH [OF u(2)] show ?case by simp
qed simp

lemma run_metadata_steps:
  "rfold (\<lambda>f. f) (metadata_steps rid kv @ rest) d = Inr d' \<longleftrightarrow>
     fst kv \<noteq> [] \<and> (\<exists>u. rfold insert_metadata_row (metadata_rows rid kv) d = Inr u \<and> rfold (\<lambda>f. f) rest u = Inr d')"
  by (auto simp: metadata_steps_def check_property_def rfold_append rfold_map rbind_eq_Inr)

lemma run_asset_steps:
  "rfold (\<lambda>f. f) (asset_steps r a @ rest) d = Inr d' \<longleftrightarrow>
     (\<exists>u v. insert_asset r a d = Inr u \<and> rfold (insert_placement a) (as_placements a) u = Inr v \<and> rfold (\<lambda>f. f) rest v = Inr d')"
  by (auto simp: asset_steps_def rfold_append rfold_map rbind_eq_Inr)

lemma metadata_inserted:
  "rfold (\<lambda>f. f) (concat (map (metadata_steps rid) kvs)) d = Inr d' \<Longrightarrow> d' = add_rows (concat (map (metadata_rows rid) kvs)) [] [] d"
proof (induction kvs arbitrary: d)
  case (Cons kv kvs)
  then obtain u where u: "rfold insert_metadata_row (metadata_rows rid kv) d = Inr u"
    "rfold (\<lambda>f. f) (concat (map (metadata_steps rid) kvs)) u = Inr d'"
    by (auto simp: run_metadata_steps)
  with Cons.IH [OF u(2)] metadata_rows_inserted [OF u(1)] show ?case by simp
qed simp

lemma placements_inserted:
  assumes "rfold (insert_placement a) ps d = Inr d'"
  shows "d' = add_rows [] [] (map (placement_row_of a) ps) d \<and> list_all (\<lambda>p. plc_asset_id p = asset_id a) ps"
  using assms
proof (induction ps arbitrary: d)
  case (Cons p ps)
  then obtain u where u: "insert_placement a p d = Inr u" "rfold (insert_placement a) ps u = Inr d'" by (auto simp: rbind_eq_Inr)
  from u(1) have "u = add_rows [] [] [placement_row_of a p] d" "plc_asset_id p = asset_id a"
    by (auto simp: insert_placement_def add_rows_def Let_def split: if_splits)
  with Cons.IH [OF u(2)] show ?case by simp
qed simp

abbreviation placement_rows_of :: "asset \<Rightarrow> placement list" where
  "placement_rows_of a \<equiv> map (placement_row_of a) (as_placements a)"

lemma assets_inserted:
  assumes "rfold (\<lambda>f. f) (concat (map (asset_steps r) as)) d = Inr d'"
  shows "d' = add_rows [] (map (asset_row_of r) as) (concat (map placement_rows_of as)) d
     \<and> list_all (\<lambda>a. as_resource_id a = res_id r \<and> list_all (\<lambda>p. plc_asset_id p = asset_id a) (as_placements a)) as"
  using assms
proof (induction as arbitrary: d)
  case (Cons a as)
  then obtain u v where u: "insert_asset r a d = Inr u" "rfold (insert_placement a) (as_placements a) u = Inr v"
    "rfold (\<lambda>f. f) (concat (map (asset_steps r) as)) v = Inr d'"
    by (auto simp: run_asset_steps)
  from u(1) have "u = add_rows [] [asset_row_of r a] [] d" "as_resource_id a = res_id r"
    by (auto simp: insert_asset_def add_rows_def Let_def split: if_splits)
  with Cons.IH [OF u(3)] placements_inserted [OF u(2)] show ?case by simp
qed simp

lemma put_bundle_rows:
  assumes "put_bundle b d = Inr d'"
  defines "r \<equiv> rb_resource b" and "old \<equiv> db_res (resources_remove (res_id (rb_resource b)) d)"
  shows "resources (db_res d') = resources old @ [resource_row_of r]"
    and "resource_metadata (db_res d') = resource_metadata old @ concat (map (metadata_rows (res_id r)) (res_metadata r))"
    and "assets (db_res d') = assets old @ map (asset_row_of r) (rb_assets b)"
    and "asset_placements (db_res d') = asset_placements old @ concat (map placement_rows_of (rb_assets b))"
    and "list_all (\<lambda>a. as_resource_id a = res_id r \<and> list_all (\<lambda>p. plc_asset_id p = asset_id a) (as_placements a)) (rb_assets b)"
proof -
  from assms(1) obtain u v where u: "insert_resource_row r (resources_remove (res_id r) d) = Inr u"
    "rfold (\<lambda>f. f) (concat (map (metadata_steps (res_id r)) (res_metadata r))) u = Inr v"
    "rfold (\<lambda>f. f) (concat (map (asset_steps r) (rb_assets b))) v = Inr d'"
    by (auto simp: put_bundle_def put_bundle_steps_def r_def rfold_append rbind_eq_Inr Let_def)
  from u(1) have "db_res u = old\<lparr>resources := resources old @ [resource_row_of r]\<rparr>"
    by (auto simp: insert_resource_row_def old_def r_def Let_def split: if_splits)
  with metadata_inserted [OF u(2)] assets_inserted [OF u(3)]
  show "resources (db_res d') = resources old @ [resource_row_of r]"
    and "resource_metadata (db_res d') = resource_metadata old @ concat (map (metadata_rows (res_id r)) (res_metadata r))"
    and "assets (db_res d') = assets old @ map (asset_row_of r) (rb_assets b)"
    and "asset_placements (db_res d') = asset_placements old @ concat (map placement_rows_of (rb_assets b))"
    and "list_all (\<lambda>a. as_resource_id a = res_id r \<and> list_all (\<lambda>p. plc_asset_id p = asset_id a) (as_placements a)) (rb_assets b)"
    by (simp_all add: add_rows_def)
qed

subsection \<open>Metadata\<close>

abbreviation metadata_less :: "metadata_row \<Rightarrow> metadata_row \<Rightarrow> bool" where
  "metadata_less a b \<equiv> md_property a < md_property b \<or> md_property a = md_property b \<and> md_value_index a < md_value_index b"

abbreviation put_value :: "(string \<times> string list) list \<Rightarrow> metadata_row \<Rightarrow> (string \<times> string list) list" where
  "put_value m r \<equiv> add_value (md_property r) (md_value r) m"

lemma add_value_behind:
  assumes "\<forall>k' \<in> fst ` set acc. k' < k"
  shows "add_value k v acc = acc @ [(k, [v])]" and "add_value k v (acc @ [(k, vs)]) = acc @ [(k, vs @ [v])]"
  using assms by (induction acc) (auto dest: less_asym)

lemma fold_values:
  assumes "\<forall>k' \<in> fst ` set acc. k' < k" and "list_all nul_free vs" and "nul_free k"
  shows "foldl put_value (acc @ [(k, ws)]) (map (\<lambda>(i, v). \<lparr>md_resource_id = rid, md_property = c_str k, md_value_index = int i,
     md_value = c_str v\<rparr>) (enumerate n vs)) = acc @ [(k, ws @ vs)]"
  using assms(2)
proof (induction vs arbitrary: n ws)
  case (Cons v vs)
  then show ?case using Cons.IH [where n = "Suc n" and ws = "ws @ [v]"] add_value_behind(2) [OF assms(1)] assms(3) by simp
qed simp

lemma fold_metadata_rows:
  assumes "\<forall>k' \<in> fst ` set acc. k' < k" and "list_all nul_free vs" and "nul_free k" and "vs \<noteq> []"
  shows "foldl put_value acc (metadata_rows rid (k, vs)) = acc @ [(k, vs)]"
proof -
  from assms(4) obtain v ws where vs: "vs = v # ws" by (cases vs) auto
  with fold_values [OF assms(1) _ assms(3), of ws "[v]" "c_str rid" 1] assms(2,3) show ?thesis
    by (simp add: metadata_rows_def add_value_behind(1) [OF assms(1)])
qed

lemma fold_metadata:
  assumes "sorted_wrt (<) (map fst (acc @ m))" and "list_all (\<lambda>(k, vs). nul_free k \<and> vs \<noteq> [] \<and> list_all nul_free vs) m"
  shows "foldl put_value acc (concat (map (metadata_rows rid) m)) = acc @ m"
  using assms
proof (induction m arbitrary: acc)
  case (Cons kv m)
  obtain k vs where kv: "kv = (k, vs)" by (cases kv)
  have "\<forall>k' \<in> fst ` set acc. k' < k" using Cons.prems(1) by (auto simp: kv sorted_wrt_append)
  with Cons.prems fold_metadata_rows Cons.IH [of "acc @ [kv]"] show ?case by (auto simp: kv)
qed simp

lemma metadata_rows_sorted: "sorted_wrt metadata_less (metadata_rows rid kv)"
proof -
  have "sorted_wrt metadata_less (map (\<lambda>(i, v). \<lparr>md_resource_id = a, md_property = b, md_value_index = int i, md_value = c_str v\<rparr>)
     (enumerate n vs))" for a b n and vs :: "string list"
    by (induction vs arbitrary: n) (auto simp: in_set_enumerate_eq)
  then show ?thesis by (simp add: metadata_rows_def)
qed

lemma metadata_sorted:
  assumes "sorted_wrt (<) (map fst m)" and "list_all (nul_free \<circ> fst) m"
  shows "sorted_wrt metadata_less (concat (map (metadata_rows rid) m))"
  using assms
proof (induction m)
  case (Cons kv m)
  have p: "md_property r = fst kv'" if "r \<in> set (metadata_rows rid kv')" "nul_free (fst kv')" for r kv'
    using that by (auto simp: metadata_rows_def)
  have "metadata_less x y" if "x \<in> set (metadata_rows rid kv)" "kv' \<in> set m" "y \<in> set (metadata_rows rid kv')" for x y kv'
    using that Cons.prems p [OF that(1)] p [OF that(3)] by (auto simp: list_all_iff)
  with Cons metadata_rows_sorted show ?case by (auto simp: sorted_wrt_append)
qed simp

lemma metadata_read_back:
  assumes "filter (\<lambda>r. md_resource_id r = c_str rid) (resource_metadata (db_res d)) = concat (map (metadata_rows rid) m)"
    and "sorted_wrt (<) (map fst m)" and "list_all (\<lambda>(k, vs). nul_free k \<and> vs \<noteq> [] \<and> list_all nul_free vs) m"
  shows "metadata_of rid d = m"
proof -
  have "sort_by metadata_less (concat (map (metadata_rows rid) m)) = concat (map (metadata_rows rid) m)"
    by (rule sort_by_sorted_same [OF metadata_sorted]) (use assms(2,3) in \<open>auto simp: list_all_iff\<close>)
  with fold_metadata [of "[]" m rid] assms show ?thesis by (simp add: metadata_of_def)
qed

subsection \<open>The bundle\<close>

lemma filter_concat_owner:
  assumes "distinct (map key xs)" and "x \<in> set xs" and "\<And>z y. z \<in> set xs \<Longrightarrow> y \<in> set (f z) \<Longrightarrow> own y = key z"
  shows "filter (\<lambda>y. own y = key x) (concat (map f xs)) = f x"
  using assms
proof (induction xs)
  case (Cons z xs)
  have z: "filter (\<lambda>y. own y = key x) (f z) = (if key z = key x then f z else [])"
    using Cons.prems(3) [of z] by (auto simp: filter_empty_conv)
  show ?case
  proof (cases "x = z")
    case True
    have "own y \<noteq> key x" if "w \<in> set xs" "y \<in> set (f w)" for w y
      using that True Cons.prems(1) Cons.prems(3) [of w y] by (auto simp: rev_image_eqI)
    then have "filter (\<lambda>y. own y = key x) (concat (map f xs)) = []" by (auto simp: filter_empty_conv)
    with z True show ?thesis by simp
  next
    case False
    with Cons.prems have "x \<in> set xs" "key z \<noteq> key x" by auto
    with Cons z show ?thesis by simp
  qed
qed simp

lemma removed_rows:
  assumes wf: "wf_resources d" and k: "nul_free k"
  defines "old \<equiv> db_res (resources_remove k d)"
  shows "filter (\<lambda>m. md_resource_id m = x) (resource_metadata old) = (if x = k then [] else filter (\<lambda>m. md_resource_id m = x) (resource_metadata (db_res d)))"
    and "filter (\<lambda>a. ar_resource_id a = x) (assets old) = (if x = k then [] else filter (\<lambda>a. ar_resource_id a = x) (assets (db_res d)))"
    and "find (\<lambda>r. rr_id r = x) (resources old) = (if x = k then None else find (\<lambda>r. rr_id r = x) (resources (db_res d)))"
    and "a \<in> set (assets (db_res d)) \<Longrightarrow> ar_resource_id a \<noteq> k \<Longrightarrow>
       filter (\<lambda>p. plc_asset_id p = ar_id a) (asset_placements old) = filter (\<lambda>p. plc_asset_id p = ar_id a) (placement_rows d)"
proof -
  let ?t = "db_res d"
  let ?gone = "rr_id ` set (filter (\<lambda>r. rr_id r = k) (resources ?t))"
  have old: "resources old = delete_where (\<lambda>r. rr_id r = k) (resources ?t)"
    "resource_metadata old = delete_where (\<lambda>m. md_resource_id m \<in> ?gone) (resource_metadata ?t)"
    "assets old = delete_where (\<lambda>a. ar_resource_id a \<in> ?gone) (assets ?t)"
    "asset_placements old = delete_where (\<lambda>p. plc_asset_id p \<in> ar_id ` set (filter (\<lambda>a. ar_resource_id a \<in> ?gone) (assets ?t))) (asset_placements ?t)"
    using k by (simp_all add: old_def resources_remove_def delete_resources_def delete_assets_def Let_def)
  have "md_resource_id m \<in> ?gone \<longleftrightarrow> md_resource_id m = k" if "m \<in> set (resource_metadata ?t)" for m
    using wf that by (auto simp: wf_res_defs)
  then show "filter (\<lambda>m. md_resource_id m = x) (resource_metadata old) = (if x = k then [] else filter (\<lambda>m. md_resource_id m = x) (resource_metadata ?t))"
    unfolding old delete_where_def filter_filter by (auto simp: filter_empty_conv intro!: filter_cong)
  have gone: "ar_resource_id a \<in> ?gone \<longleftrightarrow> ar_resource_id a = k" if "a \<in> set (assets ?t)" for a
    using wf that by (auto simp: wf_res_defs)
  then show "filter (\<lambda>a. ar_resource_id a = x) (assets old) = (if x = k then [] else filter (\<lambda>a. ar_resource_id a = x) (assets ?t))"
    unfolding old delete_where_def filter_filter by (auto simp: filter_empty_conv intro!: filter_cong)
  show "find (\<lambda>r. rr_id r = x) (resources old) = (if x = k then None else find (\<lambda>r. rr_id r = x) (resources ?t))"
    by (auto simp: old find_delete_where_other)
  assume a: "a \<in> set (assets ?t)" "ar_resource_id a \<noteq> k"
  define N where "N = ar_id ` set (filter (\<lambda>a. ar_resource_id a \<in> ?gone) (assets ?t))"
  have "ar_id a \<notin> N"
  proof
    assume "ar_id a \<in> N"
    then obtain c where "c \<in> set (assets ?t)" "ar_resource_id c \<in> ?gone" "ar_id c = ar_id a" unfolding N_def by auto
    with wf a(1) have "c = a" by (auto simp: wf_res_defs distinct_map inj_on_def)
    with \<open>ar_resource_id c \<in> ?gone\<close> gone a show False by simp
  qed
  then show "filter (\<lambda>p. plc_asset_id p = ar_id a) (asset_placements old) = filter (\<lambda>p. plc_asset_id p = ar_id a) (placement_rows d)"
    unfolding old(4) N_def [symmetric] delete_where_def filter_filter by (auto intro!: filter_cong)
qed

lemma asset_read_back:
  assumes wf: "wf_resources d" and put: "put_bundle b d = Inr d'" and clean: "clean_bundle b" and a: "a \<in> set (rb_assets b)"
  shows "read_asset (res_id (rb_resource b)) d' (asset_row_of (rb_resource b) a) = a\<lparr>as_placements := sort_by placement_less (as_placements a)\<rparr>"
proof -
  let ?r = "rb_resource b" and ?old = "db_res (resources_remove (res_id (rb_resource b)) d)"
  note rows = put_bundle_rows [OF put]
  have c: "clean_asset a" "nul_free (asset_id a)" "nul_free (res_id ?r)"
    using clean a by (auto simp: clean_bundle_def clean_asset_def list_all_iff Let_def)
  have "distinct (map ar_id (assets ?old @ map (asset_row_of ?r) (rb_assets b)))"
    using wf_put_bundle [OF wf put] rows(3) by (simp add: wf_res_defs)
  then have ids: "distinct (map (c_str \<circ> asset_id) (rb_assets b))" "c_str (asset_id a) \<notin> ar_id ` set (assets ?old)"
    using a by (auto simp: asset_row_of_def o_def)
  have "plc_asset_id ` set (asset_placements ?old) \<subseteq> ar_id ` set (assets ?old)"
    using wf_delete_resources [OF wf] by (simp add: resources_remove_def wf_res_defs)
  with ids(2) have "filter (\<lambda>p. plc_asset_id p = c_str (asset_id a)) (asset_placements ?old) = []"
    unfolding filter_empty_conv by (metis image_eqI subsetD)
  moreover have "filter (\<lambda>p. plc_asset_id p = (c_str \<circ> asset_id) a) (concat (map placement_rows_of (rb_assets b))) = placement_rows_of a"
    by (rule filter_concat_owner [OF ids(1) a]) (auto simp: placement_row_of_def)
  moreover have "placement_rows_of a = as_placements a"
    using c rows(5) a by (auto simp: clean_asset_def clean_placement_def placement_row_of_def list_all_iff intro!: map_idI)
  ultimately have "placements_of (asset_id a) d' = sort_by placement_less (as_placements a)"
    using rows(4) by (simp add: placements_of_def placement_less_def [abs_def])
  moreover have "as_resource_id a = res_id ?r" using rows(5) a by (auto simp: list_all_iff)
  ultimately show ?thesis
    using c by (simp add: read_asset_def asset_row_of_def clean_asset_def)
qed

lemma other_placements:
  assumes wf: "wf_resources d" and put: "put_bundle b d = Inr d'" and k: "nul_free (res_id (rb_resource b))"
    and a: "a \<in> set (assets (db_res d))" and other: "ar_resource_id a \<noteq> res_id (rb_resource b)"
  shows "placements_of (ar_id a) d' = placements_of (ar_id a) d"
proof -
  let ?r = "rb_resource b" and ?old = "db_res (resources_remove (res_id (rb_resource b)) d)"
  note rows = put_bundle_rows [OF put] and old = removed_rows [OF wf k]
  have "a \<in> set (filter (\<lambda>x. ar_resource_id x = ar_resource_id a) (assets ?old))" using old(2) [of "ar_resource_id a"] a other by simp
  then have "a \<in> set (assets ?old)" by simp
  moreover have "distinct (map ar_id (assets ?old @ map (asset_row_of ?r) (rb_assets b)))"
    using wf_put_bundle [OF wf put] rows(3) by (simp add: wf_res_defs)
  ultimately have "ar_id a \<notin> (\<lambda>x. ar_id (asset_row_of ?r x)) ` set (rb_assets b)" by (auto simp: image_iff)
  then have "filter (\<lambda>p. plc_asset_id p = ar_id a) (concat (map placement_rows_of (rb_assets b))) = []"
    by (auto simp: filter_empty_conv placement_row_of_def asset_row_of_def image_iff)
  moreover have "c_str (ar_id a) = ar_id a" using wf a by (simp add: wf_res_defs)
  ultimately show ?thesis using rows(4) old(4) [OF a other] by (simp add: placements_of_def)
qed

text \<open>
  C11: A resource is read back as it was written. After \<open>put_bundle\<close> succeeds, \<open>get_bundle\<close> returns the resource
  with its metadata, its assets by creation time and their placements by creation time, whatever an earlier version
  of the resource held; every other resource is read as before.
\<close>

theorem bundle_read_back:
  assumes wf: "wf_resources d" and put: "put_bundle b d = Inr d'" and clean: "clean_bundle b"
  shows "get_bundle (res_id (rb_resource b)) d' = Some (in_order b)
     \<and> (\<forall>rid. c_str rid \<noteq> res_id (rb_resource b) \<longrightarrow> get_bundle rid d' = get_bundle rid d)"
proof -
  let ?r = "rb_resource b" and ?k = "res_id (rb_resource b)"
  note rows = put_bundle_rows [OF put]
  have k: "nul_free ?k" "c_str ?k = ?k" using clean by (simp_all add: clean_bundle_def Let_def)
  note old = removed_rows [OF wf k(1)]
  have own: "md_resource_id m = ?k" if "m \<in> set (metadata_rows ?k kv)" for m kv using that k by (auto simp: metadata_rows_def)
  then have mine: "filter (\<lambda>m. md_resource_id m = ?k) (concat (map (metadata_rows ?k) (res_metadata ?r))) = concat (map (metadata_rows ?k) (res_metadata ?r))"
    by (auto simp: filter_id_conv)
  have md: "metadata_of ?k d' = res_metadata ?r"
    by (rule metadata_read_back) (use clean mine old(1) [of ?k] rows(2) k in \<open>auto simp: clean_bundle_def Let_def\<close>)
  have get: "resources_get ?k d' = Some ?r"
    using rows(1) old(3) [of ?k] clean k md
    by (simp add: resources_get_def find_append resource_row_of_def clean_bundle_def Let_def)
  have "filter (\<lambda>a. ar_resource_id a = ?k) (assets (db_res d')) = map (asset_row_of ?r) (rb_assets b)"
    using rows(3) old(2) [of ?k] k by (simp add: asset_row_of_def filter_id_conv)
  moreover have "sort_by (\<lambda>a b. ar_created_at a < ar_created_at b \<or> ar_created_at a = ar_created_at b \<and> ar_id a < ar_id b)
       (map (asset_row_of ?r) (rb_assets b)) = map (asset_row_of ?r) (sort_by asset_less (rb_assets b))"
    by (rule sort_by_map) (use clean in \<open>auto simp: asset_row_of_def asset_less_def clean_bundle_def clean_asset_def list_all_iff Let_def\<close>)
  moreover have "sort_by asset_less (map (\<lambda>a. a\<lparr>as_placements := sort_by placement_less (as_placements a)\<rparr>) (rb_assets b))
      = map (\<lambda>a. a\<lparr>as_placements := sort_by placement_less (as_placements a)\<rparr>) (sort_by asset_less (rb_assets b))"
    by (rule sort_by_map) (simp add: asset_less_def)
  moreover have "map (read_asset ?k d') (map (asset_row_of ?r) (sort_by asset_less (rb_assets b)))
      = map (\<lambda>a. a\<lparr>as_placements := sort_by placement_less (as_placements a)\<rparr>) (sort_by asset_less (rb_assets b))"
    using asset_read_back [OF wf put clean] by simp
  ultimately have this_one: "get_bundle ?k d' = Some (in_order b)"
    by (simp add: get_bundle_def get k in_order_def del: map_map)
  have "get_bundle rid d' = get_bundle rid d" if other: "c_str rid \<noteq> ?k" for rid
  proof -
    have "filter (\<lambda>m. md_resource_id m = c_str rid) (concat (map (metadata_rows ?k) (res_metadata ?r))) = []"
      using own other by (auto simp: filter_empty_conv)
    then have "resources_get rid d' = resources_get rid d"
      using rows(1,2) old(1,3) [of "c_str rid"] other k
      by (simp add: resources_get_def metadata_of_def find_append resource_row_of_def split: option.splits)
    moreover have "filter (\<lambda>a. ar_resource_id a = c_str rid) (assets (db_res d')) = filter (\<lambda>a. ar_resource_id a = c_str rid) (assets (db_res d))"
      using rows(3) old(2) [of "c_str rid"] other k by (simp add: asset_row_of_def filter_empty_conv)
    moreover have "read_asset rid d' a = read_asset rid d a" if a: "a \<in> set (assets (db_res d))" "ar_resource_id a = c_str rid" for a
      using other_placements [OF wf put k(1) a(1)] a(2) other by (simp add: read_asset_def)
    ultimately show ?thesis unfolding get_bundle_def by (auto intro!: arg_cong2 [where f = map_option] ext)
  qed
  with this_one show ?thesis by blast
qed

definition demo_bundle :: resource_bundle where
  "demo_bundle = \<lparr>rb_resource = \<lparr>res_id = ''r1'', res_project_id = ''p'', res_type = ''image'', res_label = ''L'',
       res_metadata = [(''creator'', [''a'', ''b'']), (''title'', [''T''])], res_created_at = 1, res_updated_at = 1\<rparr>,
     rb_assets = [\<lparr>asset_id = ''a2'', as_resource_id = ''r1'', original_filename = ''f'', media_type = ''m'', byte_size = 3,
         plaintext_sha256 = ''h'', as_created_at = 2, as_updated_at = 2, as_placements = []\<rparr>,
       \<lparr>asset_id = ''a1'', as_resource_id = ''r1'', original_filename = ''g'', media_type = ''m'', byte_size = 4,
         plaintext_sha256 = ''i'', as_created_at = 1, as_updated_at = 1, as_placements = []\<rparr>]\<rparr>"

theorem bundle_read_back_witness:
  "\<exists>d'. put_bundle demo_bundle demo_db = Inr d' \<and> get_bundle ''r1'' d' = Some (in_order demo_bundle) \<and> get_bundle ''r2'' d' = None"
proof -
  have wf: "wf_resources demo_db" and clean: "clean_bundle demo_bundle" and "\<not> isl (put_bundle demo_bundle demo_db)"
    and none: "get_bundle ''r2'' demo_db = None" by code_simp+
  then obtain d' where d': "put_bundle demo_bundle demo_db = Inr d'" by (auto simp: isl_def) (metis sum.exhaust)
  have "c_str ''r2'' \<noteq> res_id (rb_resource demo_bundle)" "res_id (rb_resource demo_bundle) = ''r1''" by code_simp+
  with bundle_read_back [OF wf d' clean] d' none show ?thesis by metis
qed

end
