(* ===== verification/Project_Repo.thy ===== *)
theory Project_Repo
  imports Ai_Repo Resource_Tables
begin

text \<open>
  The projects table: \<open>src/src/project/ProjectRepo.cpp\<close> over the constraints of
  \<open>src/schema/schema.sql\<close>. Deleting a project deletes every row that refers to it, as the schema's
  \<open>ON DELETE CASCADE\<close> clauses say; the full-text rows are not covered by them.
\<close>

section \<open>Statements\<close>

definition bind_project :: "project \<Rightarrow> project" where
  "bind_project p = p\<lparr>proj_id := c_str (proj_id p), proj_name := c_str (proj_name p),
     root_path := c_str (root_path p), git_remote_url := map_option c_str (git_remote_url p),
     git_provider := map_option c_str (git_provider p), privacy_mode := c_str (privacy_mode p),
     project_key_id := map_option c_str (project_key_id p)\<rparr>"

definition privacy_modes :: "string list" where
  "privacy_modes = [''encrypted_git'', ''plain'']"

definition projects_create :: "project \<Rightarrow> db \<Rightarrow> db result" where
  "projects_create p0 d =
     (let p = bind_project p0
      in if proj_id p \<in> proj_id ` set (projects d) \<or> privacy_mode p \<notin> set privacy_modes
         then Inl (SqliteError ''insert project failed'')
         else Inr (d\<lparr>projects := projects d @ [p]\<rparr>))"

definition projects_get :: "string \<Rightarrow> db \<Rightarrow> project option" where
  "projects_get pid d = find (\<lambda>p. proj_id p = c_str pid) (projects d)"

definition projects_list :: "db \<Rightarrow> project list" where
  "projects_list d = sort_by (\<lambda>a b. proj_updated_at b < proj_updated_at a) (projects d)"

definition update_project :: "string \<Rightarrow> (project \<Rightarrow> project) \<Rightarrow> i64 \<Rightarrow> db \<Rightarrow> db" where
  "update_project pid f now d =
     d\<lparr>projects := update_where (\<lambda>p. proj_id p = c_str pid) (\<lambda>p. (f p)\<lparr>proj_updated_at := now\<rparr>) (projects d)\<rparr>"

definition update_name :: "string \<Rightarrow> string \<Rightarrow> i64 \<Rightarrow> db \<Rightarrow> db" where
  "update_name pid name = update_project pid (\<lambda>p. p\<lparr>proj_name := c_str name\<rparr>)"

definition update_root_path :: "string \<Rightarrow> path \<Rightarrow> i64 \<Rightarrow> db \<Rightarrow> db" where
  "update_root_path pid dir = update_project pid (\<lambda>p. p\<lparr>root_path := c_str dir\<rparr>)"

definition update_git_remote :: "string \<Rightarrow> string option \<Rightarrow> i64 \<Rightarrow> db \<Rightarrow> db" where
  "update_git_remote pid url = update_project pid (\<lambda>p. p\<lparr>git_remote_url := map_option c_str url\<rparr>)"

definition update_git_provider :: "string \<Rightarrow> string option \<Rightarrow> i64 \<Rightarrow> db \<Rightarrow> db" where
  "update_git_provider pid provider = update_project pid (\<lambda>p. p\<lparr>git_provider := map_option c_str provider\<rparr>)"

definition update_privacy_mode :: "string \<Rightarrow> string \<Rightarrow> i64 \<Rightarrow> db \<Rightarrow> db result" where
  "update_privacy_mode pid mode now d =
     (if c_str mode \<notin> set privacy_modes \<and> c_str pid \<in> proj_id ` set (projects d)
      then Inl (SqliteError ''update privacy mode failed'')
      else Inr (update_project pid (\<lambda>p. p\<lparr>privacy_mode := c_str mode\<rparr>) now d))"

definition update_project_key_id :: "string \<Rightarrow> string option \<Rightarrow> i64 \<Rightarrow> db \<Rightarrow> db" where
  "update_project_key_id pid key = update_project pid (\<lambda>p. p\<lparr>project_key_id := map_option c_str key\<rparr>)"

definition update_id_scheme :: "string \<Rightarrow> id_scheme \<Rightarrow> i64 \<Rightarrow> db \<Rightarrow> db" where
  "update_id_scheme pid scheme = update_project pid (\<lambda>p. p\<lparr>id_scheme := scheme\<rparr>)"

definition touch_project :: "string \<Rightarrow> i64 \<Rightarrow> db \<Rightarrow> db" where
  "touch_project pid = update_project pid (\<lambda>p. p)"

text \<open>
  The cascades, newest table first as SQLite runs them: threads with their messages, assets with their placements,
  storage locations, which must not be in use by what is left, resources with their metadata, then the cards one by
  one and the remaining rows that name the project.
\<close>

definition drop_project_cards :: "string \<Rightarrow> db \<Rightarrow> db" where
  "drop_project_cards k d = fold (\<lambda>c. cards_remove (card_id c)) (filter (\<lambda>c. project_id c = k) (cards d)) d"

definition drop_project_tables :: "string \<Rightarrow> db \<Rightarrow> db result" where
  "drop_project_tables k d =
     (let d1 = delete_threads (\<lambda>t. th_project_id t = k) d
      in rbind (delete_locations (\<lambda>l. lr_project_id l = k) (SqliteError ''delete project failed'')
                  (d1\<lparr>db_res := delete_assets (\<lambda>a. ar_project_id a = k) (db_res d1)\<rparr>))
         (\<lambda>d2. Inr (delete_resources (\<lambda>r. rr_project_id r = k) d2)))"

definition drop_project_rows :: "string \<Rightarrow> db \<Rightarrow> db" where
  "drop_project_rows k d =
     d\<lparr>projects := delete_where (\<lambda>p. proj_id p = k) (projects d),
       card_links := delete_where (\<lambda>l. link_project_id l = k) (card_links d),
       card_tags := delete_where (\<lambda>t. tag_project_id t = k) (card_tags d),
       milestones := delete_where (\<lambda>m. ms_project_id m = k) (milestones d),
       sync_states := delete_where (\<lambda>s. ss_project_id s = k) (sync_states d)\<rparr>"

definition projects_remove :: "string \<Rightarrow> db \<Rightarrow> db result" where
  "projects_remove pid d =
     (if c_str pid \<notin> proj_id ` set (projects d) then Inr d
      else rbind (drop_project_tables (c_str pid) d)
             (\<lambda>d1. Inr (drop_project_rows (c_str pid) (drop_project_cards (c_str pid) d1))))"

section \<open>The schema's constraints\<close>

definition project_ok :: "project \<Rightarrow> bool" where
  "project_ok p \<longleftrightarrow> nul_free (proj_id p) \<and> privacy_mode p \<in> set privacy_modes"

definition wf_projects :: "db \<Rightarrow> bool" where
  "wf_projects d \<longleftrightarrow> distinct (map proj_id (projects d)) \<and> list_all project_ok (projects d) \<and> wf_db d"

text \<open>The constraints of all tables.\<close>

definition wf_tables :: "db \<Rightarrow> bool" where
  "wf_tables d \<longleftrightarrow> wf_projects d \<and> wf_ai d \<and> wf_resources d"

inductive project_step :: "db \<Rightarrow> db \<Rightarrow> bool" where
  "projects_create p d = Inr d' \<Longrightarrow> project_step d d'"
| "project_step d (update_name pid name now d)"
| "project_step d (update_root_path pid dir now d)"
| "project_step d (update_git_remote pid url now d)"
| "project_step d (update_git_provider pid provider now d)"
| "update_privacy_mode pid mode now d = Inr d' \<Longrightarrow> project_step d d'"
| "project_step d (update_project_key_id pid key now d)"
| "project_step d (update_id_scheme pid scheme now d)"
| "project_step d (touch_project pid now d)"
| "projects_remove pid d = Inr d' \<Longrightarrow> project_step d d'"

lemma wf_db_projects:
  assumes "wf_db d" and "proj_id ` set (projects d) \<subseteq> proj_id ` set ps"
  shows "wf_db (d\<lparr>projects := ps\<rparr>)"
  using assms by (fastforce simp: wf_db_defs list_all_iff row_ok_def parent_row_exists_def split: option.splits)

lemma projects_cards_remove [simp]: "projects (cards_remove cid d) = projects d"
  by (simp add: cards_remove_def Let_def)

text \<open>A row that is an old one, possibly with its parent reference cleared.\<close>

definition same_row :: "card \<Rightarrow> card \<Rightarrow> bool" where
  "same_row c c0 \<longleftrightarrow> c\<lparr>parent_card_id := None\<rparr> = c0\<lparr>parent_card_id := None\<rparr>
     \<and> (parent_card_id c = parent_card_id c0 \<or> parent_card_id c = None)"

lemma same_row_refl [simp]: "same_row c c"
  by (simp add: same_row_def)

lemma same_row_trans: "same_row a b \<Longrightarrow> same_row b c \<Longrightarrow> same_row a c"
  by (auto simp: same_row_def)

lemma same_row_fields:
  assumes "same_row c c0"
  shows "card_id c = card_id c0" and "project_id c = project_id c0"
proof -
  from assms have e: "c\<lparr>parent_card_id := None\<rparr> = c0\<lparr>parent_card_id := None\<rparr>" by (simp add: same_row_def)
  from arg_cong [OF e, of card_id] show "card_id c = card_id c0" by simp
  from arg_cong [OF e, of project_id] show "project_id c = project_id c0" by simp
qed

lemma cards_remove_rows:
  assumes "c \<in> set (cards (cards_remove cid d))"
  shows "\<exists>c0 \<in> set (cards d). card_id c0 \<noteq> c_str cid \<and> same_row c c0"
  using assms by (fastforce simp: cards_remove_def Let_def update_where_def same_row_def)

lemma fold_cards_remove_wf:
  "wf_db d \<Longrightarrow> wf_db (fold (\<lambda>c. cards_remove (card_id c)) cs d)"
  "projects (fold (\<lambda>c. cards_remove (card_id c)) cs d) = projects d"
  by (induction cs arbitrary: d) (auto simp: wf_cards_remove)

lemma fold_cards_remove_rows:
  assumes "c \<in> set (cards (fold (\<lambda>c. cards_remove (card_id c)) cs d))"
  shows "\<exists>c0 \<in> set (cards d). card_id c0 \<notin> (\<lambda>c. c_str (card_id c)) ` set cs \<and> same_row c c0"
  using assms
proof (induction cs arbitrary: d)
  case (Cons x cs)
  from Cons.prems have "c \<in> set (cards (fold (\<lambda>c. cards_remove (card_id c)) cs (cards_remove (card_id x) d)))" by simp
  from Cons.IH [OF this] obtain c1 where c1: "c1 \<in> set (cards (cards_remove (card_id x) d))"
    "card_id c1 \<notin> (\<lambda>c. c_str (card_id c)) ` set cs" "same_row c c1" by blast
  from cards_remove_rows [OF c1(1)] obtain c0 where "c0 \<in> set (cards d)" "card_id c0 \<noteq> c_str (card_id x)" "same_row c1 c0"
    by blast
  with c1 same_row_trans [OF c1(3)] same_row_fields(1) show ?case by (intro bexI [of _ c0]) auto
qed (auto intro!: bexI [of _ c])

lemma cascade_rows:
  assumes w: "wf_db d"
    and c: "c \<in> set (cards (fold (\<lambda>c. cards_remove (card_id c)) (filter (\<lambda>c. project_id c = k) (cards d)) d))"
  shows "project_id c \<noteq> k" and "\<exists>c0 \<in> set (cards d). same_row c c0"
proof -
  from fold_cards_remove_rows [OF c] obtain c0 where c0: "c0 \<in> set (cards d)" "same_row c c0"
    "card_id c0 \<notin> (\<lambda>c. c_str (card_id c)) ` set (filter (\<lambda>c. project_id c = k) (cards d))" by blast
  then show "\<exists>c0 \<in> set (cards d). same_row c c0" by blast
  from cards_row_ok [OF w c0(1)] have "c_str (card_id c0) = card_id c0" by (simp add: row_ok_def)
  with c0 have "project_id c0 \<noteq> k" by force
  with same_row_fields [OF c0(2)] show "project_id c \<noteq> k" by simp
qed

lemma wf_delete_index_rows:
  "wf_db d \<Longrightarrow> wf_db (d\<lparr>card_links := delete_where p (card_links d), card_tags := delete_where q (card_tags d),
     milestones := delete_where m (milestones d), sync_states := delete_where s (sync_states d)\<rparr>)"
  by (auto simp: wf_db_defs list_all_iff row_ok_def parent_row_exists_def split: option.splits)

lemma wf_drop_project:
  assumes w: "wf_db d" and n: "\<forall>c \<in> set (cards d). project_id c \<noteq> k"
  shows "wf_db (d\<lparr>projects := delete_where (\<lambda>p. proj_id p = k) (projects d)\<rparr>)"
  using assms by (fastforce simp: wf_db_defs list_all_iff row_ok_def parent_row_exists_def split: option.splits)

lemma drop_project_tables_sel:
  assumes "drop_project_tables k d = Inr d'"
  shows "projects d' = projects d" "cards d' = cards d" "card_links d' = card_links d" "card_tags d' = card_tags d"
    "milestones d' = milestones d" "cards_fts d' = cards_fts d" "sync_states d' = sync_states d"
  using assms by (auto simp: drop_project_tables_def rbind_eq_Inr delete_locations_def delete_resources_def delete_threads_def
      set_threads_def set_messages_def set_locations_def Let_def split: if_splits)

lemma wf_db_sel:
  assumes "wf_db d" and "projects d' = projects d" and "cards d' = cards d" and "card_links d' = card_links d"
    and "card_tags d' = card_tags d" and "milestones d' = milestones d"
  shows "wf_db d'"
  using assms by (simp add: wf_db_defs list_all_iff row_ok_def)

lemma wf_ai_drop_cards: "wf_ai d \<Longrightarrow> wf_ai (drop_project_cards k d)"
proof -
  have "wf_ai d \<Longrightarrow> wf_ai (fold (\<lambda>c. cards_remove (card_id c)) cs d)" for cs
    by (induction cs arbitrary: d) (auto simp: wf_ai_cards_remove)
  then show "wf_ai d \<Longrightarrow> wf_ai (drop_project_cards k d)" by (simp add: drop_project_cards_def)
qed

lemma fold_cards_remove_sel:
  "db_res (fold (\<lambda>c. cards_remove (card_id c)) cs d) = db_res d"
  "map th_project_id (threads (fold (\<lambda>c. cards_remove (card_id c)) cs d)) = map th_project_id (threads d)"
  by (induction cs arbitrary: d) (simp_all add: cards_remove_def Let_def)

lemma drop_project_cards_sel:
  "projects (drop_project_cards k d) = projects d" "db_res (drop_project_cards k d) = db_res d"
  "map th_project_id (threads (drop_project_cards k d)) = map th_project_id (threads d)"
  by (simp_all only: drop_project_cards_def fold_cards_remove_wf(2) fold_cards_remove_sel)

text \<open>After the cascades no row of the AI and resource tables names the project.\<close>

lemma drop_project_tables_rows:
  assumes "drop_project_tables k d = Inr d'" and "wf_ai d" and "wf_resources d"
  shows "wf_ai d'" and "wf_resources d'" and "k \<notin> th_project_id ` set (threads d')"
    and "k \<notin> rr_project_id ` set (resources (db_res d'))" and "k \<notin> lr_project_id ` set (locations d')"
    and "k \<notin> ar_project_id ` set (assets (db_res d'))"
proof -
  define d1 where "d1 = delete_threads (\<lambda>t. th_project_id t = k) d"
  define d2 where "d2 = d1\<lparr>db_res := delete_assets (\<lambda>a. ar_project_id a = k) (db_res d1)\<rparr>"
  from assms(1) obtain d3 where d3: "delete_locations (\<lambda>l. lr_project_id l = k) (SqliteError ''delete project failed'') d2 = Inr d3"
    "d' = delete_resources (\<lambda>r. rr_project_id r = k) d3"
    by (auto simp: drop_project_tables_def d1_def d2_def rbind_eq_Inr Let_def)
  from d3(1) have eq: "d3 = set_locations (delete_where (\<lambda>l. lr_project_id l = k) (locations d2)) d2"
    by (auto simp: delete_locations_def split: if_splits)
  have "wf_ai d1" "db_res d1 = db_res d" "projects d1 = projects d"
    unfolding d1_def by (rule wf_delete_threads [OF assms(2)], simp_all add: delete_threads_def Let_def)
  with assms(3) show "wf_resources d'"
    using wf_delete_assets [of d1] wf_delete_locations [OF _ d3(1)] wf_resources_cong [of d d1]
    by (simp add: d3(2) d2_def wf_delete_resources)
  show "wf_ai d'"
    using \<open>wf_ai d1\<close> by (rule wf_ai_cong [rotated 2]) (simp_all add: d3(2) eq d2_def delete_resources_def set_locations_def Let_def)
  show "k \<notin> th_project_id ` set (threads d')" "k \<notin> rr_project_id ` set (resources (db_res d'))"
    "k \<notin> lr_project_id ` set (locations d')" "k \<notin> ar_project_id ` set (assets (db_res d'))"
    by (auto simp: d3(2) eq d2_def d1_def delete_resources_def delete_assets_def set_locations_def delete_threads_def Let_def)
qed

lemma wf_ai_drop_rows:
  assumes "wf_ai d" and "k \<notin> th_project_id ` set (threads d)"
  shows "wf_ai (drop_project_rows k d)"
proof -
  have "th_project_id t \<in> proj_id ` set (delete_where (\<lambda>p. proj_id p = k) (projects d))" if "t \<in> set (threads d)" for t
    using assms that unfolding wf_ai_def list_all_iff image_set_delete_where by blast
  moreover have "card_exists (drop_project_rows k d) c = card_exists d c" for c
    by (simp add: card_exists_def drop_project_rows_def split: option.splits)
  ultimately show ?thesis using assms(1) unfolding wf_ai_def list_all_iff by (simp add: drop_project_rows_def)
qed

lemma wf_resources_drop_rows:
  assumes "wf_resources d" and "k \<notin> rr_project_id ` set (resources (db_res d))" and "k \<notin> lr_project_id ` set (locations d)"
    and "k \<notin> ar_project_id ` set (assets (db_res d))"
  shows "wf_resources (drop_project_rows k d)"
proof -
  have "proj_id ` set (projects (drop_project_rows k d)) = proj_id ` set (projects d) - {k}"
    by (auto simp: drop_project_rows_def)
  moreover have "db_res (drop_project_rows k d) = db_res d" by (simp add: drop_project_rows_def)
  ultimately show ?thesis using assms unfolding wf_resources_def Let_def by auto
qed

lemma wf_projects_remove:
  assumes wf: "wf_tables d" and ok: "projects_remove pid d = Inr d'"
  shows "wf_tables d'"
proof (cases "c_str pid \<in> proj_id ` set (projects d)")
  case True
  let ?k = "c_str pid"
  from ok True obtain d1 where t: "drop_project_tables ?k d = Inr d1" and d': "d' = drop_project_rows ?k (drop_project_cards ?k d1)"
    by (auto simp: projects_remove_def rbind_eq_Inr)
  define d2 where "d2 = drop_project_cards ?k d1"
  have w: "wf_db d1" using wf drop_project_tables_sel [OF t] by (intro wf_db_sel [of d d1]) (simp_all add: wf_tables_def wf_projects_def)
  note rows = drop_project_tables_rows [OF t]
  have ai: "wf_ai d1" "wf_resources d1" "?k \<notin> th_project_id ` set (threads d1)"
    "?k \<notin> rr_project_id ` set (resources (db_res d1))" "?k \<notin> lr_project_id ` set (locations d1)"
    "?k \<notin> ar_project_id ` set (assets (db_res d1))"
    using rows wf by (simp_all add: wf_tables_def)
  have sel: "projects d2 = projects d" "db_res d2 = db_res d1" "set (map th_project_id (threads d2)) = set (map th_project_id (threads d1))"
    by (simp_all only: d2_def drop_project_cards_sel drop_project_tables_sel(1) [OF t])
  have "\<forall>c \<in> set (cards d2). project_id c \<noteq> ?k"
    unfolding d2_def drop_project_cards_def by (intro ballI) (rule cascade_rows(1) [OF w])
  moreover have "wf_db d2" unfolding d2_def drop_project_cards_def by (rule fold_cards_remove_wf(1) [OF w])
  ultimately have "wf_db (d2\<lparr>projects := delete_where (\<lambda>p. proj_id p = ?k) (projects d2)\<rparr>)" by (rule wf_drop_project [rotated])
  from wf_delete_index_rows [OF this, where p = "\<lambda>l. link_project_id l = ?k" and q = "\<lambda>t. tag_project_id t = ?k"
      and m = "\<lambda>m. ms_project_id m = ?k" and s = "\<lambda>s. ss_project_id s = ?k"]
  have "wf_db d'" by (simp add: d' drop_project_rows_def d2_def)
  moreover have "distinct (map proj_id (projects d'))" "list_all project_ok (projects d')"
    using wf sel(1) by (auto simp: d' drop_project_rows_def d2_def wf_tables_def wf_projects_def list_all_iff)
  moreover have "wf_ai d'"
    unfolding d' d2_def [symmetric]
  proof (rule wf_ai_drop_rows)
    show "wf_ai d2" using ai(1) by (simp add: d2_def wf_ai_drop_cards)
    show "?k \<notin> th_project_id ` set (threads d2)" using ai(3) sel(3) by simp
  qed
  moreover have "wf_resources d'"
    unfolding d' d2_def [symmetric]
  proof (rule wf_resources_drop_rows)
    show "wf_resources d2" using ai(2) sel(1,2) drop_project_tables_sel(1) [OF t] by (simp add: wf_resources_cong [of d1])
  qed (use ai(4-6) sel(2) in simp_all)
  ultimately show ?thesis by (simp add: wf_tables_def wf_projects_def)
qed (use assms in \<open>simp add: projects_remove_def\<close>)

lemma wf_update_project:
  assumes "wf_projects d" and "\<And>p. proj_id (f p) = proj_id p"
    and "\<And>p. p \<in> set (projects d) \<Longrightarrow> proj_id p = c_str pid \<Longrightarrow> privacy_mode (f p) \<in> set privacy_modes"
  shows "wf_projects (update_project pid f now d)"
proof -
  have m: "map proj_id (projects (update_project pid f now d)) = map proj_id (projects d)"
    using assms(2) by (simp add: update_project_def update_where_def)
  have i: "distinct (map proj_id (projects (update_project pid f now d)))"
    using assms(1) unfolding m by (simp add: wf_projects_def)
  have j: "proj_id ` set (projects (update_project pid f now d)) = proj_id ` set (projects d)"
    using arg_cong [OF m, of set] by simp
  note i
  moreover have "list_all project_ok (projects (update_project pid f now d))"
    using assms by (auto simp: wf_projects_def update_project_def update_where_def list_all_iff project_ok_def)
  moreover have "wf_db (update_project pid f now d)"
    using assms(1) j wf_db_projects [of d "projects (update_project pid f now d)"]
    by (simp add: wf_projects_def update_project_def)
  ultimately show ?thesis by (simp add: wf_projects_def)
qed

lemma wf_projects_modes: "wf_projects d \<Longrightarrow> p \<in> set (projects d) \<Longrightarrow> privacy_mode p \<in> set privacy_modes"
  by (simp add: wf_projects_def list_all_iff project_ok_def)

lemma wf_tables_projects:
  assumes "wf_tables d" and "wf_projects d'" and "db_ai d' = db_ai d" and "db_res d' = db_res d" and "cards d' = cards d"
    and "proj_id ` set (projects d) \<subseteq> proj_id ` set (projects d')"
  shows "wf_tables d'"
  using assms wf_ai_cong [of d' d] wf_resources_cong [of d d'] by (simp add: wf_tables_def)

lemma wf_tables_update_project:
  assumes "wf_tables d" and "\<And>p. proj_id (f p) = proj_id p"
    and "\<And>p. p \<in> set (projects d) \<Longrightarrow> proj_id p = c_str pid \<Longrightarrow> privacy_mode (f p) \<in> set privacy_modes"
  shows "wf_tables (update_project pid f now d)"
proof (rule wf_tables_projects [OF assms(1)])
  show "wf_projects (update_project pid f now d)" using assms by (auto simp: wf_tables_def intro: wf_update_project)
  show "proj_id ` set (projects d) \<subseteq> proj_id ` set (projects (update_project pid f now d))"
    using assms(2) by (simp add: update_project_def)
qed (simp_all add: update_project_def)

lemma wf_tables_modes: "wf_tables d \<Longrightarrow> p \<in> set (projects d) \<Longrightarrow> privacy_mode p \<in> set privacy_modes"
  unfolding wf_tables_def by (blast dest: wf_projects_modes)

lemma wf_project_step:
  assumes "project_step d d'" and "wf_tables d"
  shows "wf_tables d'"
  using assms
proof (induction rule: project_step.induct)
  case (1 p d d')
  then have d': "d' = d\<lparr>projects := projects d @ [bind_project p]\<rparr>" "proj_id (bind_project p) \<notin> proj_id ` set (projects d)"
    "privacy_mode (bind_project p) \<in> set privacy_modes"
    by (auto simp: projects_create_def Let_def split: if_splits)
  moreover have "nul_free (proj_id (bind_project p))" by (simp add: bind_project_def)
  ultimately have "wf_projects d'" using 1 by (auto simp: wf_tables_def wf_projects_def project_ok_def intro: wf_db_projects)
  with 1(2) show ?case by (rule wf_tables_projects) (auto simp: d'(1))
next
  case (6 pid mode now d d')
  then show ?case
    by (auto simp: update_privacy_mode_def intro!: wf_tables_update_project dest: wf_tables_modes split: if_splits)
      (metis imageI)
next
  case 10
  then show ?case by (rule wf_projects_remove [rotated])
qed (auto simp: update_name_def update_root_path_def update_git_remote_def update_git_provider_def
  update_project_key_id_def update_id_scheme_def touch_project_def intro!: wf_tables_update_project dest: wf_tables_modes)

text \<open>An asset of another project is stored in a location of the project.\<close>

definition foreign_use :: "string \<Rightarrow> db \<Rightarrow> bool" where
  "foreign_use k d \<longleftrightarrow> list_ex (\<lambda>l. lr_project_id l = k \<and> list_ex (\<lambda>p. plc_location_id p = lr_id l
     \<and> list_ex (\<lambda>a. ar_id a = plc_asset_id p \<and> ar_project_id a \<noteq> k) (assets (db_res d))) (placement_rows d)) (locations d)"

lemma drop_project_tables_fails:
  assumes "wf_resources d"
  shows "(\<exists>e. drop_project_tables k d = Inl e) \<longleftrightarrow> foreign_use k d"
proof -
  let ?t = "db_res d"
  have kept: "plc_asset_id p \<notin> ar_id ` set (filter (\<lambda>a. ar_project_id a = k) (assets ?t)) \<longleftrightarrow>
      (\<exists>a \<in> set (assets ?t). ar_id a = plc_asset_id p \<and> ar_project_id a \<noteq> k)" if "p \<in> set (placement_rows d)" for p
  proof -
    from assms that obtain a where a: "a \<in> set (assets ?t)" "ar_id a = plc_asset_id p" by (force simp: wf_res_defs)
    have "b = a" if "b \<in> set (assets ?t)" "ar_id b = plc_asset_id p" for b
    proof -
      from assms have "inj_on ar_id (set (assets ?t))" by (simp add: wf_resources_def Let_def distinct_map)
      with a that show ?thesis by (simp add: inj_on_def)
    qed
    with a have "plc_asset_id p \<in> ar_id ` set (filter (\<lambda>a. ar_project_id a = k) (assets ?t)) \<longleftrightarrow> ar_project_id a = k"
      unfolding image_iff set_filter mem_Collect_eq Bex_def by metis
    with a \<open>\<And>b. \<lbrakk>b \<in> set (assets ?t); ar_id b = plc_asset_id p\<rbrakk> \<Longrightarrow> b = a\<close> show ?thesis by metis
  qed
  have ids: "c_str (lr_id l) = lr_id l" if "l \<in> set (locations d)" for l using assms that by (simp add: wf_res_defs)
  have "(\<exists>e. drop_project_tables k d = Inl e) \<longleftrightarrow>
      list_ex (\<lambda>l. lr_project_id l = k \<and> list_ex (\<lambda>p. plc_location_id p = c_str (lr_id l))
        (delete_where (\<lambda>p. plc_asset_id p \<in> ar_id ` set (filter (\<lambda>a. ar_project_id a = k) (assets ?t))) (placement_rows d))) (locations d)"
    by (simp add: drop_project_tables_def delete_locations_def is_in_use_def delete_assets_def delete_threads_def Let_def)
  also have "\<dots> \<longleftrightarrow> (\<exists>l \<in> set (locations d). lr_project_id l = k \<and>
      (\<exists>p \<in> set (placement_rows d). plc_asset_id p \<notin> ar_id ` set (filter (\<lambda>a. ar_project_id a = k) (assets ?t)) \<and> plc_location_id p = c_str (lr_id l)))"
    by (simp add: list_ex_iff Bex_def conj_ac)
  also have "\<dots> \<longleftrightarrow> foreign_use k d"
    unfolding foreign_use_def list_ex_iff using kept ids by (metis (no_types, lifting))
  finally show ?thesis .
qed


text \<open>A project whose storage location holds an asset of another project cannot be deleted.\<close>

definition demo_shared :: db where
  "demo_shared = demo_db\<lparr>projects := [demo_project, demo_project\<lparr>proj_id := ''q''\<rparr>],
     db_res := \<lparr>resources = [\<lparr>rr_id = ''r'', rr_project_id = ''q'', rr_type = ''t'', rr_label = ''l'', rr_created_at = 0, rr_updated_at = 0\<rparr>],
       resource_metadata = [], storage_locations = [\<lparr>lr_id = ''s'', lr_project_id = ''p'', lr_name = ''n'', lr_provider = ''v'',
         lr_config_json = [], lr_created_at = 0, lr_updated_at = 0\<rparr>],
       assets = [\<lparr>ar_id = ''a'', ar_resource_id = ''r'', ar_project_id = ''q'', ar_original_filename = [], ar_media_type = [],
         ar_byte_size = 0, ar_plaintext_sha256 = ''h'', ar_created_at = 0, ar_updated_at = 0\<rparr>],
       asset_placements = [\<lparr>plc_id = ''o'', plc_asset_id = ''a'', plc_location_id = ''s'', object_key = ''k'', plc_encoding = ''e'',
         stored_byte_size = 0, stored_sha256 = [], plc_created_at = 0\<rparr>]\<rparr>\<rparr>"


end
