(* ===== verification/Privacy.thy ===== *)
theory Privacy
  imports Project_Repo Json_Value
begin

text \<open>
  Encrypted projects: the envelope of \<open>src/src/privacy/CryptoService.cpp\<close> and the keys, recovery
  tokens and safety checks of \<open>src/src/privacy/ProjectPrivacy.cpp\<close>. libsodium, OpenSSL and the JSON
  library are records of functions; random bytes are arguments; the platform keyring is a map from
  project and key id to the stored secret.
\<close>

section \<open>Libraries\<close>

record crypto_lib =
  sodium_b64 :: "bytes \<Rightarrow> string"
  sodium_unb64 :: "string \<Rightarrow> bytes option"
  aead_encrypt :: "bytes \<Rightarrow> bytes \<Rightarrow> bytes \<Rightarrow> bytes"
  aead_decrypt :: "bytes \<Rightarrow> bytes \<Rightarrow> bytes \<Rightarrow> bytes option"
  evp_encode :: "bytes \<Rightarrow> string"
  evp_decode :: "string \<Rightarrow> bytes option"
  pbkdf2 :: "string \<Rightarrow> bytes \<Rightarrow> int \<Rightarrow> bytes"

section \<open>The envelope\<close>

definition envelope_magic :: string where "envelope_magic = ''HolderPriv1''"
definition cipher_name :: string where "cipher_name = ''xchacha20poly1305''"

definition iv_bytes :: nat where "iv_bytes = 24"
definition tag_bytes :: nat where "tag_bytes = 16"
definition key_bytes :: nat where "key_bytes = 32"

definition invalid_envelope :: "string \<Rightarrow> exn" where
  "invalid_envelope msg = PrivacyError EnvelopeInvalid msg"

definition strip_cr :: "string \<Rightarrow> string" where
  "strip_cr line = (if line \<noteq> [] \<and> last line = CHR 0x0D then butlast line else line)"

text \<open>\<open>std::getline\<close>: fails only at the end of the input.\<close>

definition getline :: "string \<Rightarrow> (string \<times> string) option" where
  "getline s =
     (if s = [] then None
      else Some (takeWhile (\<lambda>c. c \<noteq> newline) s, drop 1 (dropWhile (\<lambda>c. c \<noteq> newline) s)))"

definition next_line :: "string \<Rightarrow> string \<Rightarrow> (string \<times> string) result" where
  "next_line msg s = (case getline s of None \<Rightarrow> Inl (invalid_envelope msg) | Some r \<Rightarrow> Inr r)"

definition b64_decode :: "crypto_lib \<Rightarrow> string \<Rightarrow> bytes result" where
  "b64_decode cl t =
     (case sodium_unb64 cl t of
        None \<Rightarrow> Inl (invalid_envelope ''invalid base64 in privacy envelope'')
      | Some b \<Rightarrow> Inr b)"

record envelope_parts =
  ep_key_id :: string
  ep_iv_b64 :: string
  ep_ciphertext_b64 :: string

definition check_meta :: "json_lib \<Rightarrow> json \<Rightarrow> unit result" where
  "check_meta jl meta =
     rbind (require (case meta of JObj _ \<Rightarrow> True | _ \<Rightarrow> False) (invalid_envelope ''privacy envelope metadata is not an object''))
     (\<lambda>_. rbind (case json_get meta ''version'' of
                   None \<Rightarrow> Inl (invalid_envelope ''unsupported privacy envelope version'')
                 | Some v \<Rightarrow> rbind (get_int jl v)
                     (\<lambda>i. require (i = 1) (invalid_envelope ''unsupported privacy envelope version'')))
     (\<lambda>_. rbind (case json_get meta ''cipher'' of
                   None \<Rightarrow> Inl (invalid_envelope ''unsupported privacy envelope cipher'')
                 | Some v \<Rightarrow> rbind (get_string v)
                     (\<lambda>c. require (c = cipher_name) (invalid_envelope ''unsupported privacy envelope cipher'')))
     (\<lambda>_. require (json_get meta ''key_id'' \<noteq> None \<and> json_get meta ''iv_b64'' \<noteq> None)
            (invalid_envelope ''privacy envelope missing key_id or iv_b64''))))"

definition parse_envelope :: "json_lib \<Rightarrow> string \<Rightarrow> envelope_parts result" where
  "parse_envelope jl envelope =
     rbind (next_line ''invalid privacy envelope magic'' envelope)
     (\<lambda>(magic, rest). rbind (require (strip_cr magic = envelope_magic) (invalid_envelope ''invalid privacy envelope magic''))
     (\<lambda>_. rbind (next_line ''privacy envelope metadata missing'' rest)
     (\<lambda>(meta_line, rest). rbind (next_line ''privacy envelope ciphertext missing'' rest)
     (\<lambda>(cipher_line, _). rbind (parse_json jl (strip_cr meta_line))
     (\<lambda>meta. rbind (check_meta jl meta)
     (\<lambda>_. rbind (string_at meta ''key_id'')
     (\<lambda>key_id. rbind (string_at meta ''iv_b64'')
     (\<lambda>iv. Inr \<lparr>ep_key_id = key_id, ep_iv_b64 = iv, ep_ciphertext_b64 = strip_cr cipher_line\<rparr>))))))))"

definition key_from_base64 :: "crypto_lib \<Rightarrow> string \<Rightarrow> bytes result" where
  "key_from_base64 cl t =
     rbind (b64_decode cl t)
       (\<lambda>raw. if length raw = key_bytes then Inr raw else Inl (invalid_envelope ''privacy key has wrong length''))"

definition envelope_meta :: "crypto_lib \<Rightarrow> bytes \<Rightarrow> string \<Rightarrow> json" where
  "envelope_meta cl iv key_id = JObj
     [(''cipher'', JStr cipher_name), (''iv_b64'', JStr (sodium_b64 cl iv)), (''key_id'', JStr key_id),
      (''version'', JInt 1)]"

definition encrypt_envelope_v1 ::
  "crypto_lib \<Rightarrow> json_lib \<Rightarrow> bytes \<Rightarrow> bytes \<Rightarrow> bytes \<Rightarrow> string \<Rightarrow> string result"
where
  "encrypt_envelope_v1 cl jl iv plaintext key key_id =
     rbind (require (key_id \<noteq> []) (invalid_envelope ''privacy key_id must not be empty''))
     (\<lambda>_. rbind (dump jl (envelope_meta cl iv key_id))
     (\<lambda>meta. Inr (envelope_magic @ [newline] @ meta @ [newline]
                   @ sodium_b64 cl (aead_encrypt cl key iv plaintext) @ [newline])))"

definition decrypt_envelope_v1 ::
  "crypto_lib \<Rightarrow> json_lib \<Rightarrow> string \<Rightarrow> bytes \<Rightarrow> string \<Rightarrow> bytes result"
where
  "decrypt_envelope_v1 cl jl envelope key expected_key_id =
     rbind (parse_envelope jl envelope)
     (\<lambda>parts. rbind (require (expected_key_id = [] \<or> ep_key_id parts = expected_key_id)
                (PrivacyError EnvelopeMetadataMismatch ''privacy envelope key_id mismatch''))
     (\<lambda>_. rbind (b64_decode cl (ep_iv_b64 parts))
     (\<lambda>iv. rbind (require (length iv = iv_bytes) (invalid_envelope ''privacy envelope iv length is invalid''))
     (\<lambda>_. rbind (b64_decode cl (ep_ciphertext_b64 parts))
     (\<lambda>ciphertext. rbind (require (tag_bytes \<le> length ciphertext) (invalid_envelope ''privacy envelope ciphertext is too short''))
     (\<lambda>_. case aead_decrypt cl key iv ciphertext of
            None \<Rightarrow> Inl (invalid_envelope ''privacy envelope authentication failed'')
          | Some plaintext \<Rightarrow> Inr plaintext))))))"

section \<open>Project keys\<close>

type_synonym keyring = "string \<times> string \<Rightarrow> string option"

definition load_key_material :: "keyring \<Rightarrow> string \<Rightarrow> string \<Rightarrow> string result" where
  "load_key_material keys pid key_id =
     (case keys (pid, key_id) of
        None \<Rightarrow> Inl (PrivacyError KeyMaterialMissing ''project key material not found in platform keyring'')
      | Some b64 \<Rightarrow> Inr b64)"

definition store_key_material :: "string \<Rightarrow> string \<Rightarrow> string \<Rightarrow> keyring \<Rightarrow> keyring" where
  "store_key_material pid key_id b64 keys = keys((pid, key_id) := Some b64)"

text \<open>A library exception becomes a privacy error; a privacy error is passed on.\<close>

definition crypto_failed :: "string \<Rightarrow> 'a result \<Rightarrow> 'a result" where
  "crypto_failed msg m =
     (case m of
        Inl (PrivacyError code text) \<Rightarrow> Inl (PrivacyError code text)
      | Inl _ \<Rightarrow> Inl (PrivacyError PrivacyCryptoFailed msg)
      | Inr x \<Rightarrow> Inr x)"

definition encrypt_project_blob ::
  "crypto_lib \<Rightarrow> json_lib \<Rightarrow> keyring \<Rightarrow> bytes \<Rightarrow> string \<Rightarrow> string \<Rightarrow> bytes \<Rightarrow> string result"
where
  "encrypt_project_blob cl jl keys iv pid key_id plaintext =
     crypto_failed ''failed to encrypt project blob''
       (rbind (load_key_material keys pid key_id)
         (\<lambda>b64. rbind (key_from_base64 cl b64) (\<lambda>key. encrypt_envelope_v1 cl jl iv plaintext key key_id)))"

definition decrypt_project_blob ::
  "crypto_lib \<Rightarrow> json_lib \<Rightarrow> keyring \<Rightarrow> string \<Rightarrow> string \<Rightarrow> string \<Rightarrow> bytes result"
where
  "decrypt_project_blob cl jl keys pid key_id envelope =
     crypto_failed ''failed to decrypt project blob''
       (rbind (load_key_material keys pid key_id)
         (\<lambda>b64. rbind (key_from_base64 cl b64) (\<lambda>key. decrypt_envelope_v1 cl jl envelope key key_id)))"

section \<open>Setting up and recovering keys\<close>

text \<open>\<open>write_privacy_meta\<close>: the metadata file holds the JSON text.\<close>

definition privacy_meta :: "string \<Rightarrow> string \<Rightarrow> json" where
  "privacy_meta pid key_id = JObj
     [(''key_id'', JStr key_id), (''mode'', JStr ''encrypted_git''), (''project_id'', JStr pid), (''version'', JInt 1)]"

definition ensure_project_key_material ::
  "crypto_lib \<Rightarrow> string \<Rightarrow> string option \<Rightarrow> i64 \<Rightarrow> string \<Rightarrow> bytes \<Rightarrow> keyring \<times> db \<Rightarrow> string \<times> keyring \<times> db"
where
  "ensure_project_key_material cl pid key_opt now uuid random_key s =
     (case key_opt of
        Some k \<Rightarrow> if k \<noteq> [] then (k, s)
          else (uuid, store_key_material pid uuid (sodium_b64 cl random_key) (fst s),
                 update_project_key_id pid (Some uuid) now (snd s))
      | None \<Rightarrow> (uuid, store_key_material pid uuid (sodium_b64 cl random_key) (fst s),
                 update_project_key_id pid (Some uuid) now (snd s)))"

text \<open>OpenSSL's decoder leaves the padding in; it is cut off by hand.\<close>

definition padding :: "string \<Rightarrow> nat" where
  "padding t =
     (if t \<noteq> [] \<and> last t = CHR ''=''
      then if 1 < length t \<and> t ! (length t - 2) = CHR ''='' then 2 else 1 else 0)"

definition evp_b64_decode :: "crypto_lib \<Rightarrow> string \<Rightarrow> bytes result" where
  "evp_b64_decode cl t =
     (case evp_decode cl t of
        None \<Rightarrow> Inl (RuntimeError ''EVP_DecodeBlock failed'')
      | Some b \<Rightarrow> Inr (take (length b - padding t) b))"

definition recovery_wrap_key_id :: string where
  "recovery_wrap_key_id = ''holder-recovery-token-v1''"

definition kdf_iterations :: int where "kdf_iterations = 210000"

record recovery_metadata =
  rm_project_id :: string
  rm_project_key_id :: string
  rm_project_name :: "string option"
  rm_git_remote_url :: "string option"

definition json_opt :: "string option \<Rightarrow> json" where
  "json_opt v = (case v of None \<Rightarrow> JNull | Some s \<Rightarrow> JStr s)"

definition recovery_payload ::
  "string \<Rightarrow> string \<Rightarrow> string \<Rightarrow> string option \<Rightarrow> string option \<Rightarrow> i64 \<Rightarrow> json"
where
  "recovery_payload pid key_id material name url now = JObj
     [(''exported_at'', JInt now), (''git_remote_url'', json_opt url), (''project_id'', JStr pid),
      (''project_key_id'', JStr key_id), (''project_key_material_b64'', JStr material),
      (''project_name'', json_opt name)]"

definition recovery_token :: "crypto_lib \<Rightarrow> bytes \<Rightarrow> string \<Rightarrow> json" where
  "recovery_token cl salt wrapped = JObj
     [(''cipher'', JObj [(''name'', JStr ''holder-privacy-envelope-v1''), (''wrapped'', JStr wrapped)]),
      (''kdf'', JObj [(''iterations'', JInt kdf_iterations), (''name'', JStr ''PBKDF2-HMAC-SHA256''),
                      (''salt_b64'', JStr (evp_encode cl salt))]),
      (''version'', JInt 1)]"

definition export_recovery_token ::
  "crypto_lib \<Rightarrow> json_lib \<Rightarrow> keyring \<Rightarrow> bytes \<Rightarrow> bytes \<Rightarrow> i64 \<Rightarrow> string \<Rightarrow> string \<Rightarrow> string
     \<Rightarrow> string option \<Rightarrow> string option \<Rightarrow> string result"
where
  "export_recovery_token cl jl keys salt iv now pid key_id pin name url =
     rbind (require (pin \<noteq> []) (RuntimeError ''pin must not be empty''))
     (\<lambda>_. rbind (load_key_material keys pid key_id)
     (\<lambda>material. rbind (key_from_base64 cl material)
     (\<lambda>_. rbind (dump jl (recovery_payload pid key_id material name url now))
     (\<lambda>payload. rbind (encrypt_envelope_v1 cl jl iv payload (pbkdf2 cl pin salt kdf_iterations) recovery_wrap_key_id)
     (\<lambda>wrapped. dump jl (recovery_token cl salt wrapped))))))"

definition optional_at :: "json \<Rightarrow> string \<Rightarrow> string option result" where
  "optional_at j k =
     (case json_get j k of
        None \<Rightarrow> Inr None
      | Some JNull \<Rightarrow> Inr None
      | Some v \<Rightarrow> rbind (get_string v) (\<lambda>s. Inr (Some s)))"

definition read_payload :: "json \<Rightarrow> (recovery_metadata \<times> string) result" where
  "read_payload payload =
     rbind (string_at payload ''project_id'')
     (\<lambda>pid. rbind (string_at payload ''project_key_id'')
     (\<lambda>key_id. rbind (optional_at payload ''project_name'')
     (\<lambda>name. rbind (optional_at payload ''git_remote_url'')
     (\<lambda>url. rbind (string_at payload ''project_key_material_b64'')
     (\<lambda>material. Inr (\<lparr>rm_project_id = pid, rm_project_key_id = key_id, rm_project_name = name,
          rm_git_remote_url = url\<rparr>, material))))))"

definition decrypt_recovery_payload ::
  "crypto_lib \<Rightarrow> json_lib \<Rightarrow> string \<Rightarrow> string \<Rightarrow> (recovery_metadata \<times> string) result"
where
  "decrypt_recovery_payload cl jl pin token_json =
     rbind (require (pin \<noteq> []) (RuntimeError ''pin must not be empty''))
     (\<lambda>_. rbind (parse_json jl token_json)
     (\<lambda>token. rbind (case json_get token ''version'' of
                        None \<Rightarrow> Inl (RuntimeError ''unsupported recovery token version'')
                      | Some v \<Rightarrow> rbind (get_int jl v)
                          (\<lambda>i. require (i = 1) (RuntimeError ''unsupported recovery token version'')))
     (\<lambda>_. rbind (json_at token ''kdf'')
     (\<lambda>kdf. rbind (rbind (json_at kdf ''iterations'') (get_int jl))
     (\<lambda>iterations. rbind (rbind (string_at kdf ''salt_b64'') (evp_b64_decode cl))
     (\<lambda>salt. rbind (json_at token ''cipher'')
     (\<lambda>cipher. rbind (string_at cipher ''wrapped'')
     (\<lambda>wrapped. rbind (decrypt_envelope_v1 cl jl wrapped (pbkdf2 cl pin salt iterations) recovery_wrap_key_id)
     (\<lambda>payload. rbind (parse_json jl payload) read_payload)))))))))"

text \<open>The handlers of \<open>import_recovery_token\<close> and \<open>inspect_recovery_token\<close>.\<close>

definition token_invalid :: "'a result \<Rightarrow> 'a result" where
  "token_invalid m =
     (case m of
        Inl (PrivacyError code text) \<Rightarrow>
          Inl (if code \<in> {EnvelopeInvalid, EnvelopeMetadataMismatch, PrivacyCryptoFailed}
               then PrivacyError RecoveryTokenInvalid (''invalid recovery token: '' @ text)
               else PrivacyError code text)
      | Inl _ \<Rightarrow> Inl (PrivacyError RecoveryTokenInvalid ''invalid recovery token'')
      | Inr x \<Rightarrow> Inr x)"

definition import_recovery_token ::
  "crypto_lib \<Rightarrow> json_lib \<Rightarrow> string \<Rightarrow> string \<Rightarrow> string \<Rightarrow> i64 \<Rightarrow> keyring \<times> db \<Rightarrow> (keyring \<times> db) result"
where
  "import_recovery_token cl jl pid pin token now s =
     token_invalid
       (rbind (decrypt_recovery_payload cl jl pin token)
       (\<lambda>(meta, material).
          rbind (require (rm_project_id meta = pid) (RuntimeError ''recovery token project_id mismatch''))
          (\<lambda>_. rbind (key_from_base64 cl material)
          (\<lambda>_. let keys = store_key_material pid (rm_project_key_id meta) material (fst s);
                   d = update_project_key_id pid (Some (rm_project_key_id meta)) now (snd s)
               in Inr (keys, case rm_git_remote_url meta of
                               None \<Rightarrow> d
                             | Some remote \<Rightarrow> if remote = [] then d else update_git_remote pid (Some remote) now d)))))"

definition inspect_recovery_token :: "crypto_lib \<Rightarrow> json_lib \<Rightarrow> string \<Rightarrow> string \<Rightarrow> recovery_metadata result" where
  "inspect_recovery_token cl jl pin token =
     token_invalid (rbind (decrypt_recovery_payload cl jl pin token) (\<lambda>(meta, _). Inr meta))"

section \<open>What the libraries promise\<close>

definition one_line :: "string \<Rightarrow> bool" where
  "one_line t \<longleftrightarrow> newline \<notin> set t \<and> CHR 0x0D \<notin> set t"

text \<open>Base64 text is decoded to what was encoded; an authentic ciphertext, 16 bytes longer than the
  plaintext, is decrypted to it; OpenSSL's decoder yields the bytes and the padding.\<close>

definition crypto_ok :: "crypto_lib \<Rightarrow> bool" where
  "crypto_ok cl \<longleftrightarrow>
     (\<forall>b. sodium_unb64 cl (sodium_b64 cl b) = Some b \<and> one_line (sodium_b64 cl b))
     \<and> (\<forall>k iv p. aead_decrypt cl k iv (aead_encrypt cl k iv p) = Some p
          \<and> length (aead_encrypt cl k iv p) = length p + tag_bytes)
     \<and> (\<forall>b. \<exists>z. evp_decode cl (evp_encode cl b) = Some (b @ z) \<and> length z = padding (evp_encode cl b))"

text \<open>A JSON value is printed on one line and parsed back.\<close>

definition json_keeps :: "json_lib \<Rightarrow> json \<Rightarrow> bool" where
  "json_keeps jl j \<longleftrightarrow>
     (case json_dump jl j of None \<Rightarrow> False | Some t \<Rightarrow> one_line t \<and> json_parse jl t = Some j)"

lemma json_keepsE:
  assumes "json_keeps jl j"
  obtains t where "dump jl j = Inr t" and "one_line t" and "parse_json jl t = Inr j"
  using assms by (auto simp: json_keeps_def dump_def parse_json_def split: option.splits)

lemma getline_append: "newline \<notin> set a \<Longrightarrow> getline (a @ newline # r) = Some (a, r)"
  by (induction a) (auto simp: getline_def)

lemma strip_cr_one_line [simp]: "one_line t \<Longrightarrow> strip_cr t = t"
  by (auto simp: strip_cr_def one_line_def dest: last_in_set)

lemma get_int_small [simp]: "- 2147483648 \<le> i \<Longrightarrow> i < 2147483648 \<Longrightarrow> get_int jl (JInt i) = Inr i"
  by (simp add: get_int_def to_int32_def)

lemma get_int_iterations: "get_int jl (JInt kdf_iterations) = Inr kdf_iterations"
  by (simp add: kdf_iterations_def)

lemma parse_envelope_written:
  assumes "dump jl (envelope_meta cl iv key_id) = Inr t" and "one_line t"
    and "parse_json jl t = Inr (envelope_meta cl iv key_id)" and "one_line b"
  shows "parse_envelope jl (envelope_magic @ [newline] @ t @ [newline] @ b @ [newline])
     = Inr \<lparr>ep_key_id = key_id, ep_iv_b64 = sodium_b64 cl iv, ep_ciphertext_b64 = b\<rparr>"
proof -
  have "one_line envelope_magic" by (simp add: one_line_def envelope_magic_def)
  moreover have "check_meta jl (envelope_meta cl iv key_id) = Inr ()"
    by (simp add: check_meta_def envelope_meta_def json_get_def get_string_def)
  ultimately show ?thesis
    using assms getline_append
    by (simp add: parse_envelope_def next_line_def one_line_def envelope_meta_def string_at_def json_at_def
        json_get_def get_string_def)
qed

lemma envelope_decrypts:
  assumes c: "crypto_ok cl" and j: "json_keeps jl (envelope_meta cl iv key_id)"
    and iv: "length iv = iv_bytes" and k: "key_id \<noteq> []"
  obtains e where "encrypt_envelope_v1 cl jl iv plain key key_id = Inr e"
    and "decrypt_envelope_v1 cl jl e key key_id = Inr plain" and "starts_with e (envelope_magic @ [newline])"
proof -
  obtain t where t: "dump jl (envelope_meta cl iv key_id) = Inr t" "one_line t"
    "parse_json jl t = Inr (envelope_meta cl iv key_id)" by (rule json_keepsE [OF j])
  let ?b = "sodium_b64 cl (aead_encrypt cl key iv plain)"
  let ?e = "envelope_magic @ [newline] @ t @ [newline] @ ?b @ [newline]"
  from c have "one_line ?b" "sodium_unb64 cl ?b = Some (aead_encrypt cl key iv plain)"
    "sodium_unb64 cl (sodium_b64 cl iv) = Some iv" "aead_decrypt cl key iv (aead_encrypt cl key iv plain) = Some plain"
    "tag_bytes \<le> length (aead_encrypt cl key iv plain)"
    by (simp_all add: crypto_ok_def)
  with parse_envelope_written [OF t, of ?b] iv have "decrypt_envelope_v1 cl jl ?e key key_id = Inr plain"
    by (simp add: decrypt_envelope_v1_def b64_decode_def)
  moreover have "encrypt_envelope_v1 cl jl iv plain key key_id = Inr ?e"
    using k t by (simp add: encrypt_envelope_v1_def)
  moreover have "starts_with ?e (envelope_magic @ [newline])" by (simp add: starts_with_iff)
  ultimately show thesis using that by blast
qed

lemma project_blob_opens:
  assumes "crypto_ok cl" and "json_keeps jl (envelope_meta cl iv key_id)" and "length iv = iv_bytes"
    and "key_id \<noteq> []" and "keys (pid, key_id) = Some (sodium_b64 cl key)" and "length key = key_bytes"
  shows "\<exists>e. encrypt_project_blob cl jl keys iv pid key_id plain = Inr e
     \<and> starts_with e (envelope_magic @ [newline]) \<and> decrypt_project_blob cl jl keys pid key_id e = Inr plain"
proof -
  from assms(1,5,6) have "load_key_material keys pid key_id = Inr (sodium_b64 cl key)"
    "key_from_base64 cl (sodium_b64 cl key) = Inr key"
    by (simp_all add: load_key_material_def key_from_base64_def b64_decode_def crypto_ok_def)
  moreover obtain e where "encrypt_envelope_v1 cl jl iv plain key key_id = Inr e"
    "decrypt_envelope_v1 cl jl e key key_id = Inr plain" "starts_with e (envelope_magic @ [newline])"
    by (rule envelope_decrypts [OF assms(1-4)])
  ultimately show ?thesis
    by (auto simp: encrypt_project_blob_def decrypt_project_blob_def crypto_failed_def)
qed

text \<open>
  C32: Encrypted project files are read back. Under a stored project key of the right length, sealing
  any bytes succeeds, the blob begins with the envelope header that the safety checks look for, and
  opening it gives the bytes back.
\<close>

theorem project_blob_roundtrip:
  assumes "crypto_ok cl" and "json_keeps jl (envelope_meta cl iv key_id)" and "length iv = iv_bytes"
    and "key_id \<noteq> []" and "keys (pid, key_id) = Some (sodium_b64 cl key)" and "length key = key_bytes"
  shows "\<exists>e. encrypt_project_blob cl jl keys iv pid key_id plain = Inr e
     \<and> starts_with e (envelope_magic @ [newline]) \<and> decrypt_project_blob cl jl keys pid key_id e = Inr plain"
  using assms by (rule project_blob_opens)

lemma evp_roundtrip:
  assumes "crypto_ok cl"
  shows "evp_b64_decode cl (evp_encode cl b) = Inr b"
proof -
  from assms obtain z where "evp_decode cl (evp_encode cl b) = Some (b @ z)" "length z = padding (evp_encode cl b)"
    unfolding crypto_ok_def by blast
  then show ?thesis by (simp add: evp_b64_decode_def)
qed

lemma read_recovery_payload:
  "read_payload (recovery_payload pid key_id material name url now)
     = Inr (\<lparr>rm_project_id = pid, rm_project_key_id = key_id, rm_project_name = name, rm_git_remote_url = url\<rparr>, material)"
  by (simp add: read_payload_def recovery_payload_def string_at_def json_at_def json_get_def get_string_def
      optional_at_def json_opt_def split: option.splits)

lemma exported_token_decrypts:
  assumes c: "crypto_ok cl" and iv: "length iv = iv_bytes"
    and k: "keys (pid, key_id) = Some material" "key_from_base64 cl material = Inr key" and pin: "pin \<noteq> []"
    and m: "json_keeps jl (envelope_meta cl iv recovery_wrap_key_id)"
    and p: "json_keeps jl (recovery_payload pid key_id material name url now)"
    and t: "\<forall>w. json_keeps jl (recovery_token cl salt w)"
  obtains token where "export_recovery_token cl jl keys salt iv now pid key_id pin name url = Inr token"
    and "decrypt_recovery_payload cl jl pin token = Inr (\<lparr>rm_project_id = pid, rm_project_key_id = key_id,
      rm_project_name = name, rm_git_remote_url = url\<rparr>, material)"
proof -
  obtain pt where pt: "dump jl (recovery_payload pid key_id material name url now) = Inr pt"
    "parse_json jl pt = Inr (recovery_payload pid key_id material name url now)" by (rule json_keepsE [OF p])
  let ?wrap = "pbkdf2 cl pin salt kdf_iterations"
  have "recovery_wrap_key_id \<noteq> []" by (simp add: recovery_wrap_key_id_def)
  then obtain w where w: "encrypt_envelope_v1 cl jl iv pt ?wrap recovery_wrap_key_id = Inr w"
    "decrypt_envelope_v1 cl jl w ?wrap recovery_wrap_key_id = Inr pt"
    using envelope_decrypts [OF c m iv] by metis
  obtain tok where tok: "dump jl (recovery_token cl salt w) = Inr tok" "parse_json jl tok = Inr (recovery_token cl salt w)"
    using json_keepsE [OF t [rule_format]] by metis
  have load: "load_key_material keys pid key_id = Inr material" using k by (simp add: load_key_material_def)
  have "export_recovery_token cl jl keys salt iv now pid key_id pin name url = Inr tok"
    using pin load k pt w tok by (simp add: export_recovery_token_def)
  moreover have "decrypt_recovery_payload cl jl pin tok = Inr (\<lparr>rm_project_id = pid, rm_project_key_id = key_id,
      rm_project_name = name, rm_git_remote_url = url\<rparr>, material)"
    using pin tok w pt evp_roundtrip [OF c, of salt]
    by (simp add: decrypt_recovery_payload_def recovery_token_def json_get_def json_at_def string_at_def get_string_def
        read_recovery_payload get_int_iterations)
  ultimately show thesis by (rule that)
qed

lemma recovered_key_id:
  assumes "d' = update_project_key_id pid (Some key_id) later d
     \<or> d' = update_git_remote pid u later (update_project_key_id pid (Some key_id) later d)"
  shows "map_option project_key_id (projects_get pid d') = map_option (\<lambda>_. Some (c_str key_id)) (projects_get pid d)"
  using assms by (auto simp: projects_get_def update_project_key_id_def update_git_remote_def update_project_def
      find_update_where_same option.map_comp comp_def)


section \<open>Example libraries\<close>

text \<open>Bytes as two letters each stand in for base64, sixteen leading bytes for the authentication tag.\<close>

definition letters :: "char \<Rightarrow> string" where
  "letters c = [char_of (of_char c div 16 + 65 :: nat), char_of (of_char c mod 16 + 65 :: nat)]"

fun unletters :: "string \<Rightarrow> bytes option" where
  "unletters [] = Some []"
| "unletters [c] = None"
| "unletters (a # b # cs) =
     map_option (Cons (char_of ((of_char a - 65) * 16 + (of_char b - 65) :: nat))) (unletters cs)"

definition demo_crypto :: crypto_lib where
  "demo_crypto = \<lparr>sodium_b64 = \<lambda>b. concat (map letters b), sodium_unb64 = unletters,
     aead_encrypt = \<lambda>k iv p. replicate 16 (CHR ''t'') @ p, aead_decrypt = \<lambda>k iv c. Some (drop 16 c),
     evp_encode = \<lambda>b. concat (map letters b), evp_decode = unletters, pbkdf2 = \<lambda>pin salt n. replicate 32 (CHR ''k'')\<rparr>"

lemma of_char_div: "(of_char c :: nat) div 16 < 16"
proof -
  have "(of_char c :: nat) < 256" using of_char_mod_256 [of c] by (metis mod_less_divisor zero_less_numeral)
  then show ?thesis by (simp add: less_mult_imp_div_less)
qed

lemma of_letters:
  "(of_char (char_of (of_char c div 16 + 65 :: nat)) :: nat) = of_char c div 16 + 65"
  "(of_char (char_of (of_char c mod 16 + 65 :: nat)) :: nat) = of_char c mod 16 + 65"
proof -
  have "(of_char c :: nat) div 16 + 65 < 256" "(of_char c :: nat) mod 16 + 65 < 256"
    using of_char_div [of c] mod_less_divisor [of 16 "of_char c :: nat"] by linarith+
  then show "(of_char (char_of (of_char c div 16 + 65 :: nat)) :: nat) = of_char c div 16 + 65"
    "(of_char (char_of (of_char c mod 16 + 65 :: nat)) :: nat) = of_char c mod 16 + 65"
    by (simp_all only: of_char_of mod_less)
qed

lemma unletters_letters: "unletters (concat (map letters b)) = Some b"
proof (induction b)
  case (Cons c b)
  have "(of_char c div 16) * 16 + of_char c mod 16 = (of_char c :: nat)" by simp
  with Cons show ?case by (simp add: letters_def of_letters del: of_char_of)
qed simp

lemma letters_plain: "x \<in> set (letters c) \<Longrightarrow> 65 \<le> (of_char x :: nat) \<and> (of_char x :: nat) < 81"
  using of_char_div [of c] mod_less_divisor [of 16 "of_char c :: nat"]
  by (auto simp only: letters_def of_letters set_simps insert_iff empty_iff)

lemma letters_one_line: "one_line (concat (map letters b))" "padding (concat (map letters b)) = 0"
proof -
  have p: "65 \<le> (of_char x :: nat) \<and> (of_char x :: nat) < 81" if "x \<in> set (concat (map letters b))" for x
    using that letters_plain by auto
  have "newline \<notin> set (concat (map letters b))" "CHR 0x0D \<notin> set (concat (map letters b))"
    using p [of newline] p [of "CHR 0x0D"] by auto
  then show "one_line (concat (map letters b))" by (simp only: one_line_def simp_thms)
  have "CHR ''='' \<notin> set (concat (map letters b))" using p [of "CHR ''=''"] by auto
  then have "concat (map letters b) = [] \<or> last (concat (map letters b)) \<noteq> CHR ''=''" by (metis last_in_set)
  then show "padding (concat (map letters b)) = 0" by (simp only: padding_def) auto
qed

lemma demo_crypto_ok: "crypto_ok demo_crypto"
  by (simp add: crypto_ok_def demo_crypto_def unletters_letters letters_one_line tag_bytes_def)

text \<open>A JSON library that knows the metadata and recovery documents of one project.\<close>

definition demo_meta :: "string \<Rightarrow> json" where
  "demo_meta key_id = envelope_meta demo_crypto (replicate 24 (CHR ''i'')) key_id"

definition demo_json :: json_lib where
  "demo_json = \<lparr>
     json_dump = \<lambda>j. if j = demo_meta ''k'' then Some ''m'' else if j = demo_meta recovery_wrap_key_id then Some ''r''
       else if j = recovery_payload ''p'' ''k'' (sodium_b64 demo_crypto (replicate 32 (CHR ''s''))) None None 0 then Some ''q''
       else case json_get j ''cipher'' of Some c \<Rightarrow>
           (case json_get c ''wrapped'' of Some (JStr w) \<Rightarrow> Some (CHR ''t'' # concat (map letters w)) | _ \<Rightarrow> None)
         | None \<Rightarrow> None,
     json_pretty = \<lambda>_. None,
     json_parse = \<lambda>t. if t = ''m'' then Some (demo_meta ''k'') else if t = ''r'' then Some (demo_meta recovery_wrap_key_id)
       else if t = ''q'' then Some (recovery_payload ''p'' ''k'' (sodium_b64 demo_crypto (replicate 32 (CHR ''s''))) None None 0)
       else map_option (recovery_token demo_crypto ''salt'') (unletters (tl t)),
     float_to_int = \<lambda>_. 0\<rparr>"

lemma demo_json_meta: "json_keeps demo_json (demo_meta ''k'')" "json_keeps demo_json (demo_meta recovery_wrap_key_id)"
  by (simp_all add: json_keeps_def demo_json_def one_line_def demo_meta_def envelope_meta_def recovery_wrap_key_id_def)

theorem project_blob_roundtrip_witness:
  "\<exists>e. encrypt_project_blob demo_crypto demo_json [(''p'', ''k'') \<mapsto> sodium_b64 demo_crypto (replicate 32 (CHR ''s''))]
         (replicate 24 (CHR ''i'')) ''p'' ''k'' ''hello'' = Inr e
     \<and> decrypt_project_blob demo_crypto demo_json [(''p'', ''k'') \<mapsto> sodium_b64 demo_crypto (replicate 32 (CHR ''s''))]
         ''p'' ''k'' e = Inr ''hello''"
  using project_blob_roundtrip [OF demo_crypto_ok demo_json_meta(1) [unfolded demo_meta_def], where pid = "''p''"
      and keys = "[(''p'', ''k'') \<mapsto> sodium_b64 demo_crypto (replicate 32 (CHR ''s''))]" and key = "replicate 32 (CHR ''s'')"
      and plain = "''hello''"]
  by (auto simp: iv_bytes_def key_bytes_def)

lemma demo_json_recovery:
  "json_keeps demo_json (recovery_payload ''p'' ''k'' (sodium_b64 demo_crypto (replicate 32 (CHR ''s''))) None None 0)"
  "json_keeps demo_json (recovery_token demo_crypto ''salt'' w)"
proof -
  show "json_keeps demo_json (recovery_payload ''p'' ''k'' (sodium_b64 demo_crypto (replicate 32 (CHR ''s''))) None None 0)"
    by (simp add: json_keeps_def demo_json_def one_line_def demo_meta_def envelope_meta_def recovery_payload_def)
  have t: "json_dump demo_json (recovery_token demo_crypto ''salt'' w) = Some (CHR ''t'' # concat (map letters w))"
    by (simp add: demo_json_def demo_meta_def envelope_meta_def recovery_token_def recovery_payload_def json_get_def)
  have "json_parse demo_json (CHR ''t'' # concat (map letters w)) = Some (recovery_token demo_crypto ''salt'' w)"
    by (simp add: demo_json_def unletters_letters)
  with t letters_one_line(1) [of w] show "json_keeps demo_json (recovery_token demo_crypto ''salt'' w)"
    by (simp add: json_keeps_def one_line_def)
qed


end
