(* ===== verification/Store_Monad.thy ===== *)
theory Store_Monad
  imports Card_Lifecycle Card_Front_Matter Card_Index Privacy Identity
begin

text \<open>
  Operations of \<open>CardStore\<close> work on the database and on project directories and may throw in the
  middle: an exception keeps the changes made before it. An operation is a function from the state to
  a result and the state after it. Libraries, keys, random bytes and the clock are the environment.
\<close>

section \<open>State and environment\<close>

record store =
  st_db :: db
  st_disks :: "path \<Rightarrow> disk"

type_synonym 'a op = "store \<Rightarrow> 'a result \<times> store"

text \<open>
  \<open>e_iv\<close> is the nonce drawn when the file at a path is sealed, \<open>e_fault\<close> the step of a journaled change
  at which an I/O failure strikes, \<open>e_walk\<close> the regular files of a directory in the order of a recursive
  directory iterator and \<open>e_mtime\<close> the modification time of a file.
\<close>

record env =
  e_git :: git_lib
  e_yaml :: yaml_lib
  e_crypto :: crypto_lib
  e_json :: json_lib
  e_keys :: keyring
  e_iv :: "path \<Rightarrow> bytes"
  e_md :: "string \<Rightarrow> md_event list"
  e_fts :: bool
  e_now :: i64
  e_fault :: "nat option"
  e_walk :: "(path \<Rightarrow> bytes option) \<Rightarrow> path list"
  e_mtime :: "path \<Rightarrow> i64"

section \<open>Combinators\<close>

named_theorems op_simps \<open>evaluation of store operations\<close>

definition op_return :: "'a \<Rightarrow> 'a op" where
  "op_return x s = (Inr x, s)"

definition op_bind :: "'a op \<Rightarrow> ('a \<Rightarrow> 'b op) \<Rightarrow> 'b op" where
  "op_bind m f s = (case m s of (Inl e, t) \<Rightarrow> (Inl e, t) | (Inr x, t) \<Rightarrow> f x t)"

abbreviation op_then :: "unit op \<Rightarrow> 'b op \<Rightarrow> 'b op" where
  "op_then m k \<equiv> op_bind m (\<lambda>_. k)"

text \<open>A pure computation that may throw.\<close>

definition op_lift :: "'a result \<Rightarrow> 'a op" where
  "op_lift r s = (r, s)"

definition db_read :: "(db \<Rightarrow> 'a) \<Rightarrow> 'a op" where
  "db_read f s = (Inr (f (st_db s)), s)"

definition db_write :: "(db \<Rightarrow> db) \<Rightarrow> unit op" where
  "db_write f s = (Inr (), s\<lparr>st_db := f (st_db s)\<rparr>)"

definition db_try :: "(db \<Rightarrow> db result) \<Rightarrow> unit op" where
  "db_try f s = (case f (st_db s) of Inl e \<Rightarrow> (Inl e, s) | Inr d \<Rightarrow> (Inr (), s\<lparr>st_db := d\<rparr>))"

definition disk_read :: "path \<Rightarrow> (disk \<Rightarrow> 'a) \<Rightarrow> 'a op" where
  "disk_read dir f s = (Inr (f (st_disks s dir)), s)"

definition disk_check :: "path \<Rightarrow> (disk \<Rightarrow> 'a result) \<Rightarrow> 'a op" where
  "disk_check dir f s = (f (st_disks s dir), s)"

definition disk_try :: "path \<Rightarrow> (disk \<Rightarrow> disk result) \<Rightarrow> unit op" where
  "disk_try dir f s =
     (case f (st_disks s dir) of
        Inl e \<Rightarrow> (Inl e, s)
      | Inr d \<Rightarrow> (Inr (), s\<lparr>st_disks := (st_disks s)(dir := d)\<rparr>))"

text \<open>\<open>holder::platform::Tx\<close>: the database goes back when the block throws.\<close>

definition op_tx :: "'a op \<Rightarrow> 'a op" where
  "op_tx m s = (case m s of (Inl e, t) \<Rightarrow> (Inl e, t\<lparr>st_db := st_db s\<rparr>) | (Inr x, t) \<Rightarrow> (Inr x, t))"

text \<open>\<open>catch\<close>: the handler runs in the state the exception left; \<open>None\<close> lets the exception pass.\<close>

definition op_handle :: "'a op \<Rightarrow> (exn \<Rightarrow> 'a op option) \<Rightarrow> 'a op" where
  "op_handle m h s =
     (case m s of
        (Inl e, t) \<Rightarrow> (case h e of None \<Rightarrow> (Inl e, t) | Some k \<Rightarrow> k t)
      | (Inr x, t) \<Rightarrow> (Inr x, t))"

abbreviation op_catch :: "'a op \<Rightarrow> (exn \<Rightarrow> 'a op) \<Rightarrow> 'a op" where
  "op_catch m h \<equiv> op_handle m (\<lambda>e. Some (h e))"

text \<open>A \<open>try\<close> block whose outcome is inspected afterwards.\<close>

definition op_attempt :: "'a op \<Rightarrow> 'a result op" where
  "op_attempt m s = (case m s of (r, t) \<Rightarrow> (Inr r, t))"

primrec op_each :: "('a \<Rightarrow> unit op) \<Rightarrow> 'a list \<Rightarrow> unit op" where
  "op_each f [] = op_return ()"
| "op_each f (x # xs) = op_then (f x) (op_each f xs)"

primrec op_map :: "('a \<Rightarrow> 'b op) \<Rightarrow> 'a list \<Rightarrow> 'b list op" where
  "op_map f [] = op_return []"
| "op_map f (x # xs) = op_bind (f x) (\<lambda>y. op_bind (op_map f xs) (\<lambda>ys. op_return (y # ys)))"

abbreviation op_when :: "bool \<Rightarrow> unit op \<Rightarrow> unit op" where
  "op_when b m \<equiv> (if b then m else op_return ())"

abbreviation op_require :: "bool \<Rightarrow> exn \<Rightarrow> unit op" where
  "op_require b e \<equiv> op_lift (require b e)"

section \<open>Evaluation\<close>

lemma op_return_eq [op_simps]: "op_return x s = (r, t) \<longleftrightarrow> r = Inr x \<and> t = s"
  by (auto simp: op_return_def)

lemma op_bind_Inr [op_simps]:
  "op_bind m f s = (Inr y, t) \<longleftrightarrow> (\<exists>x u. m s = (Inr x, u) \<and> f x u = (Inr y, t))"
  by (auto simp: op_bind_def split: prod.splits sum.splits)

lemma op_bind_Inl [op_simps]:
  "op_bind m f s = (Inl e, t) \<longleftrightarrow> m s = (Inl e, t) \<or> (\<exists>x u. m s = (Inr x, u) \<and> f x u = (Inl e, t))"
  by (auto simp: op_bind_def split: prod.splits sum.splits)

lemma op_bind_step: "m s = (Inr x, u) \<Longrightarrow> op_bind m f s = f x u"
  by (simp add: op_bind_def)

lemma op_bind_fail: "m s = (Inl e, u) \<Longrightarrow> op_bind m f s = (Inl e, u)"
  by (simp add: op_bind_def)

lemma op_lift_eq [op_simps]: "op_lift r s = (r', t) \<longleftrightarrow> r = r' \<and> t = s"
  by (auto simp: op_lift_def)

lemma db_read_eq [op_simps]: "db_read f s = (r, t) \<longleftrightarrow> r = Inr (f (st_db s)) \<and> t = s"
  by (auto simp: db_read_def)

lemma db_write_eq [op_simps]: "db_write f s = (r, t) \<longleftrightarrow> r = Inr () \<and> t = s\<lparr>st_db := f (st_db s)\<rparr>"
  by (auto simp: db_write_def)

lemma db_try_Inr [op_simps]: "db_try f s = (Inr u, t) \<longleftrightarrow> (\<exists>d. f (st_db s) = Inr d \<and> t = s\<lparr>st_db := d\<rparr>)"
  by (auto simp: db_try_def split: sum.splits)

lemma db_try_Inl [op_simps]: "db_try f s = (Inl e, t) \<longleftrightarrow> f (st_db s) = Inl e \<and> t = s"
  by (auto simp: db_try_def split: sum.splits)

lemma disk_read_eq [op_simps]: "disk_read dir f s = (r, t) \<longleftrightarrow> r = Inr (f (st_disks s dir)) \<and> t = s"
  by (auto simp: disk_read_def)

lemma disk_check_eq [op_simps]: "disk_check dir f s = (r, t) \<longleftrightarrow> f (st_disks s dir) = r \<and> t = s"
  by (auto simp: disk_check_def)

lemma disk_try_Inr [op_simps]:
  "disk_try dir f s = (Inr u, t) \<longleftrightarrow>
     (\<exists>d. f (st_disks s dir) = Inr d \<and> t = s\<lparr>st_disks := (st_disks s)(dir := d)\<rparr>)"
  by (auto simp: disk_try_def split: sum.splits)

lemma disk_try_Inl [op_simps]: "disk_try dir f s = (Inl e, t) \<longleftrightarrow> f (st_disks s dir) = Inl e \<and> t = s"
  by (auto simp: disk_try_def split: sum.splits)

lemma op_tx_Inr [op_simps]: "op_tx m s = (Inr x, t) \<longleftrightarrow> m s = (Inr x, t)"
  by (auto simp: op_tx_def split: prod.splits sum.splits)

lemma op_tx_Inl [op_simps]: "op_tx m s = (Inl e, t) \<longleftrightarrow> (\<exists>u. m s = (Inl e, u) \<and> t = u\<lparr>st_db := st_db s\<rparr>)"
  by (auto simp: op_tx_def split: prod.splits sum.splits)

lemma op_handle_eq [op_simps]:
  "op_handle m h s = (r, t) \<longleftrightarrow>
     (\<exists>x. m s = (Inr x, t) \<and> r = Inr x) \<or>
     (\<exists>e u. m s = (Inl e, u) \<and> (case h e of None \<Rightarrow> r = Inl e \<and> t = u | Some k \<Rightarrow> k u = (r, t)))"
  by (auto simp: op_handle_def split: prod.splits sum.splits option.splits)

lemma op_attempt_eq [op_simps]: "op_attempt m s = (r, t) \<longleftrightarrow> (\<exists>x. m s = (x, t) \<and> r = Inr x)"
  by (auto simp: op_attempt_def split: prod.splits)

section \<open>Operations that leave something alone\<close>

text \<open>An operation whose runs, failed ones too, relate the states before and after.\<close>

definition op_keeps :: "(store \<Rightarrow> store \<Rightarrow> bool) \<Rightarrow> 'a op \<Rightarrow> bool" where
  "op_keeps R m \<longleftrightarrow> (\<forall>s. R s (snd (m s)))"

named_theorems keeps_intros \<open>operations that keep a relation between the states\<close>

lemma op_keepsD: "op_keeps R m \<Longrightarrow> m s = (r, t) \<Longrightarrow> R s t"
  unfolding op_keeps_def by (metis snd_conv)

lemma op_keepsI: "(\<And>s r t. m s = (r, t) \<Longrightarrow> R s t) \<Longrightarrow> op_keeps R m"
  unfolding op_keeps_def by (metis prod.collapse)

lemma op_keeps_bind [keeps_intros]:
  assumes "transp R" and "op_keeps R m" and "\<And>x. op_keeps R (f x)"
  shows "op_keeps R (op_bind m f)"
proof (rule op_keepsI)
  fix s r t assume "op_bind m f s = (r, t)"
  then consider (fail) e where "m s = (Inl e, t)" | (ok) x u where "m s = (Inr x, u)" "f x u = (r, t)"
    by (cases r) (auto simp: op_simps)
  then show "R s t"
    by cases (use assms op_keepsD transpD in metis)+
qed

lemma op_keeps_handle [keeps_intros]:
  assumes "transp R" and "op_keeps R m" and "\<And>e k. h e = Some k \<Longrightarrow> op_keeps R k"
  shows "op_keeps R (op_handle m h)"
proof (rule op_keepsI)
  fix s r t assume "op_handle m h s = (r, t)"
  then consider x where "m s = (Inr x, t)" | e where "m s = (Inl e, t)" | e u k where "m s = (Inl e, u)" "h e = Some k" "k u = (r, t)"
    by (auto simp: op_handle_eq split: option.splits)
  then show "R s t"
    by cases (use assms op_keepsD transpD in metis)+
qed

lemma op_keeps_attempt [keeps_intros]: "op_keeps R m \<Longrightarrow> op_keeps R (op_attempt m)"
  by (auto simp: op_keeps_def op_attempt_def split: prod.splits) (metis snd_conv)

lemma op_keeps_return [keeps_intros]: "reflp R \<Longrightarrow> op_keeps R (op_return x)"
  by (auto simp: op_keeps_def op_return_def dest: reflpD)

lemma op_keeps_lift [keeps_intros]: "reflp R \<Longrightarrow> op_keeps R (op_lift r)"
  by (auto simp: op_keeps_def op_lift_def dest: reflpD)

lemma op_keeps_db_read [keeps_intros]: "reflp R \<Longrightarrow> op_keeps R (db_read f)"
  by (auto simp: op_keeps_def db_read_def dest: reflpD)

lemma op_keeps_disk_read [keeps_intros]: "reflp R \<Longrightarrow> op_keeps R (disk_read dir f)"
  by (auto simp: op_keeps_def disk_read_def dest: reflpD)

lemma op_keeps_disk_check [keeps_intros]: "reflp R \<Longrightarrow> op_keeps R (disk_check dir f)"
  by (auto simp: op_keeps_def disk_check_def dest: reflpD)

lemma op_keeps_each [keeps_intros]:
  "reflp R \<Longrightarrow> transp R \<Longrightarrow> (\<And>x. op_keeps R (f x)) \<Longrightarrow> op_keeps R (op_each f xs)"
  by (induction xs) (auto intro: keeps_intros)

lemma op_keeps_map [keeps_intros]:
  "reflp R \<Longrightarrow> transp R \<Longrightarrow> (\<And>x. op_keeps R (f x)) \<Longrightarrow> op_keeps R (op_map f xs)"
  by (induction xs) (auto intro!: keeps_intros)

lemma op_keeps_tx [keeps_intros]:
  assumes "op_keeps R m" and "\<And>s t. R s t \<Longrightarrow> R s (t\<lparr>st_db := st_db s\<rparr>)"
  shows "op_keeps R (op_tx m)"
proof (rule op_keepsI)
  fix s r t assume "op_tx m s = (r, t)"
  then show "R s t" using assms op_keepsD by (cases r) (fastforce simp: op_simps)+
qed

text \<open>The two relations used below: the database is untouched, the directories are untouched.\<close>

abbreviation same_db :: "store \<Rightarrow> store \<Rightarrow> bool" where
  "same_db s t \<equiv> st_db t = st_db s"

abbreviation same_disks :: "store \<Rightarrow> store \<Rightarrow> bool" where
  "same_disks s t \<equiv> st_disks t = st_disks s"

lemma same_relations [keeps_intros]: "reflp same_db" "transp same_db" "reflp same_disks" "transp same_disks" "reflp (=)" "transp (=)"
  by (auto intro: reflpI transpI)

lemma op_keeps_db_ops [keeps_intros]:
  "op_keeps same_disks (db_write f)" "op_keeps same_disks (db_try g)"
  "op_keeps same_db (disk_try dir h)"
  by (auto intro!: op_keepsI simp: db_write_def db_try_def disk_try_def split: sum.splits)

end
