(* ===== verification/Ai_Files.thy ===== *)
theory Ai_Files
  imports Card_Front_Matter Privacy
begin

text \<open>
  The durable form of AI threads and messages: message files with a YAML front matter
  (\<open>src/src/ai/AiMessageFrontMatter.cpp\<close>), thread manifests in JSON (\<open>src/src/ai/AiThreadManifest.cpp\<close>) and their paths
  (\<open>src/src/ai/AiMessagePaths.cpp\<close>). Thread manifests of an encrypted project are sealed; message files are not.
\<close>

section \<open>Paths\<close>

definition ai_message_rel_path :: "string \<Rightarrow> path result" where
  "ai_message_rel_path mid =
     (if length mid < 4 then Inl (RuntimeError ''message_id too short for path sharding'')
      else Inr (''ai_messages/'' @ take 2 mid @ ''/'' @ take 2 (drop 2 mid) @ ''/'' @ mid @ ''.md''))"

definition ai_message_trash_rel_path :: "string \<Rightarrow> path result" where
  "ai_message_trash_rel_path mid = rbind (ai_message_rel_path mid) (\<lambda>p. Inr (''trash/'' @ p))"

definition ai_thread_manifest_rel_path :: "string \<Rightarrow> path result" where
  "ai_thread_manifest_rel_path tid =
     (if length tid < 4 then Inl (InvalidArgument ''thread_id too short for path sharding'')
      else Inr (''ai_threads/'' @ take 2 tid @ ''/'' @ take 2 (drop 2 tid) @ ''/'' @ tid @ ''.json''))"

section \<open>Message files\<close>

definition emit_message :: "ai_message \<Rightarrow> string \<Rightarrow> card_link list \<Rightarrow> emitted" where
  "emit_message m pid links = EMap
     [(''message_id'', EStr (msg_id m)),
      (''project_id'', EStr pid),
      (''thread_id'', EStr (msg_thread_id m)),
      (''role'', EStr (msg_role m)),
      (''source'', EStr (msg_source m)),
      (''provider'', emit_opt EStr (msg_provider m)),
      (''model'', emit_opt EStr (msg_model m)),
      (''created_at'', EInt (msg_created_at m)),
      (''prompt_hash'', emit_opt EStr (msg_prompt_hash m)),
      (''meta_json'', emit_opt EStr (msg_meta_json m)),
      (''links'', ESeq (map emit_link links))]"

definition render_ai_message_front_matter :: "yaml_lib \<Rightarrow> ai_message \<Rightarrow> string \<Rightarrow> card_link list \<Rightarrow> string" where
  "render_ai_message_front_matter lib m pid links = lf_opening @ emit_text lib (emit_message m pid links) @ lf_closing"

record message_file =
  mf_message :: ai_message
  mf_project_id :: string
  mf_links :: "card_link list"
  mf_body :: string
  mf_front_matter :: bool

definition empty_message :: ai_message where
  "empty_message = \<lparr>msg_id = [], msg_thread_id = [], msg_role = [], msg_source = [], msg_provider = None, msg_model = None,
     msg_content = [], msg_created_at = 0, msg_deleted_at = None, msg_prompt_hash = None, msg_meta_json = None\<rparr>"

definition unread_message :: "string \<Rightarrow> message_file" where
  "unread_message raw = \<lparr>mf_message = empty_message, mf_project_id = [], mf_links = [], mf_body = raw, mf_front_matter = False\<rparr>"

text \<open>The text between the markers and what follows them.\<close>

definition split_front_matter :: "string \<Rightarrow> (string \<times> string) option" where
  "split_front_matter raw =
     (let cut = (\<lambda>opening closing. let rest = drop (length opening) raw
                  in map_option (\<lambda>n. (take n rest, drop (n + length closing) rest)) (find_text closing rest))
      in if starts_with raw crlf_opening then cut crlf_opening crlf_closing
         else if starts_with raw lf_opening then cut lf_opening lf_closing
         else None)"

abbreviation on_message :: "(ai_message \<Rightarrow> ai_message) \<Rightarrow> message_file \<Rightarrow> message_file" where
  "on_message f p \<equiv> p\<lparr>mf_message := f (mf_message p)\<rparr>"

definition message_fields :: "yaml_lib \<Rightarrow> node \<Rightarrow> (message_file \<Rightarrow> unit + message_file) list" where
  "message_fields lib n =
     [field n ''message_id'' (node_string lib) (\<lambda>x. on_message (msg_id_update (\<lambda>_. x))),
      field n ''thread_id'' (node_string lib) (\<lambda>x. on_message (msg_thread_id_update (\<lambda>_. x))),
      field n ''project_id'' (node_string lib) (\<lambda>x. mf_project_id_update (\<lambda>_. x)),
      field n ''role'' (node_string lib) (\<lambda>x. on_message (msg_role_update (\<lambda>_. x))),
      field n ''source'' (node_string lib) (\<lambda>x. on_message (msg_source_update (\<lambda>_. x))),
      field n ''created_at'' (node_scalar (as_int lib)) (\<lambda>x. on_message (msg_created_at_update (\<lambda>_. x))),
      opt_field n ''provider'' (node_string lib) (\<lambda>x. on_message (msg_provider_update (\<lambda>_. Some x))),
      opt_field n ''model'' (node_string lib) (\<lambda>x. on_message (msg_model_update (\<lambda>_. Some x))),
      opt_field n ''prompt_hash'' (node_string lib) (\<lambda>x. on_message (msg_prompt_hash_update (\<lambda>_. Some x))),
      opt_field n ''meta_json'' (node_string lib) (\<lambda>x. on_message (msg_meta_json_update (\<lambda>_. Some x)))]"

text \<open>Links are read as in card files, filed under the message.\<close>

definition link_owner :: "string \<Rightarrow> string \<Rightarrow> card" where
  "link_owner pid from = empty_card\<lparr>project_id := pid, card_id := from\<rparr>"

definition parse_message_node :: "yaml_lib \<Rightarrow> node \<Rightarrow> message_file \<Rightarrow> message_file + message_file" where
  "parse_message_node lib n p0 =
     (case read_fields (message_fields lib n) p0 of
        Inl p \<Rightarrow> Inl p
      | Inr p \<Rightarrow>
          (case parse_seq n ''links'' (parse_link lib (link_owner (mf_project_id p) (msg_id (mf_message p)))) (\<lambda>l. to_card_id l \<noteq> []) of
             Inl ls \<Rightarrow> Inl (p\<lparr>mf_links := ls\<rparr>)
           | Inr ls \<Rightarrow> Inr (p\<lparr>mf_links := ls\<rparr>)))"

definition parse_ai_message_file :: "yaml_lib \<Rightarrow> string \<Rightarrow> message_file" where
  "parse_ai_message_file lib raw =
     (case split_front_matter raw of
        None \<Rightarrow> unread_message raw
      | Some (yaml, body) \<Rightarrow>
          (case load_text lib yaml of
             Some (NMap kvs) \<Rightarrow>
               (case parse_message_node lib (NMap kvs) ((unread_message raw)\<lparr>mf_front_matter := True\<rparr>) of
                  Inl p \<Rightarrow> p
                | Inr p \<Rightarrow> p\<lparr>mf_body := body\<rparr>)
           | _ \<Rightarrow> unread_message raw))"

section \<open>Thread manifests\<close>

definition project_key :: "project \<Rightarrow> string result" where
  "project_key p =
     (case project_key_id p of
        None \<Rightarrow> Inl (InvalidArgument ''encrypted project has no key id'')
      | Some k \<Rightarrow> if k = [] then Inl (InvalidArgument ''encrypted project has no key id'') else Inr k)"

definition thread_matches :: "project \<Rightarrow> ai_thread \<Rightarrow> bool" where
  "thread_matches p t \<longleftrightarrow> th_id t \<noteq> [] \<and> th_project_id t = proj_id p \<and> th_title t \<noteq> []"

definition thread_json :: "ai_thread \<Rightarrow> json" where
  "thread_json t = JObj
     [(''card_id'', json_opt (th_card_id t)), (''created_at'', JInt (th_created_at t)), (''project_id'', JStr (th_project_id t)),
      (''thread_id'', JStr (th_id t)), (''title'', JStr (th_title t)), (''updated_at'', JInt (th_updated_at t)),
      (''version'', JInt 1)]"

definition render_ai_thread_manifest ::
  "crypto_lib \<Rightarrow> json_lib \<Rightarrow> keyring \<Rightarrow> bytes \<Rightarrow> project \<Rightarrow> ai_thread \<Rightarrow> string result"
where
  "render_ai_thread_manifest cl jl keys iv p t =
     rbind (require (thread_matches p t) (InvalidArgument ''invalid AI thread manifest fields''))
     (\<lambda>_. rbind (dump_pretty jl (thread_json t))
     (\<lambda>plain. if privacy_mode p \<noteq> ''encrypted_git'' then Inr plain
              else rbind (project_key p) (\<lambda>k. encrypt_project_blob cl jl keys iv (proj_id p) k plain)))"

text \<open>\<open>body.value("version", 0)\<close>: an error for anything but an object.\<close>

definition manifest_version :: "json_lib \<Rightarrow> json \<Rightarrow> int result" where
  "manifest_version jl body =
     (case body of
        JObj _ \<Rightarrow> (case json_get body ''version'' of None \<Rightarrow> Inr 0 | Some v \<Rightarrow> get_int jl v)
      | _ \<Rightarrow> Inl (JsonError ''type_error''))"

definition parse_ai_thread_manifest ::
  "crypto_lib \<Rightarrow> json_lib \<Rightarrow> keyring \<Rightarrow> project \<Rightarrow> string \<Rightarrow> ai_thread result"
where
  "parse_ai_thread_manifest cl jl keys p raw =
     rbind (if privacy_mode p \<noteq> ''encrypted_git'' then Inr raw
            else rbind (project_key p) (\<lambda>k. decrypt_project_blob cl jl keys (proj_id p) k raw))
     (\<lambda>plain. rbind (parse_json jl plain)
     (\<lambda>body. rbind (manifest_version jl body)
     (\<lambda>v. rbind (require (v = 1) (RuntimeError ''unsupported AI thread manifest version''))
     (\<lambda>_. rbind (string_at body ''thread_id'')
     (\<lambda>tid. rbind (string_at body ''project_id'')
     (\<lambda>pid. rbind (string_at body ''title'')
     (\<lambda>ttl. rbind (int64_at jl body ''created_at'')
     (\<lambda>created. rbind (int64_at jl body ''updated_at'')
     (\<lambda>updated. rbind (optional_at body ''card_id'')
     (\<lambda>cid. let t = \<lparr>th_id = tid, th_project_id = pid, th_card_id = cid, th_title = ttl, th_created_at = created, th_updated_at = updated\<rparr>
            in rbind (require (thread_matches p t) (RuntimeError ''AI thread manifest does not match project''))
               (\<lambda>_. Inr t)))))))))))"

section \<open>What is read back\<close>

lemma read_message_fields:
  assumes "reads lib (emit_message m pid links) n"
  shows "read_fields (message_fields lib n) ((unread_message raw)\<lparr>mf_front_matter := True\<rparr>)
    = Inr \<lparr>mf_message = m\<lparr>msg_content := [], msg_deleted_at := None\<rparr>, mf_project_id = pid, mf_links = [], mf_body = raw,
        mf_front_matter = True\<rparr>"
proof -
  from assms obtain t v1 v2 v3 v4 lv where n: "n = NMap [(NScalar ''message_id'', NScalar (msg_id m)),
      (NScalar ''project_id'', NScalar pid), (NScalar ''thread_id'', NScalar (msg_thread_id m)),
      (NScalar ''role'', NScalar (msg_role m)), (NScalar ''source'', NScalar (msg_source m)), (NScalar ''provider'', v1),
      (NScalar ''model'', v2), (NScalar ''created_at'', NScalar t), (NScalar ''prompt_hash'', v3), (NScalar ''meta_json'', v4),
      (NScalar ''links'', lv)]"
    and t: "as_int lib t = Some (msg_created_at m)"
    and o: "reads lib (emit_opt EStr (msg_provider m)) v1" "reads lib (emit_opt EStr (msg_model m)) v2"
      "reads lib (emit_opt EStr (msg_prompt_hash m)) v3" "reads lib (emit_opt EStr (msg_meta_json m)) v4"
    by (auto simp: emit_message_def reads_map_ConsD)
  have "opt_field n key (node_string lib) upd s = Inr (case x of None \<Rightarrow> s | Some y \<Rightarrow> upd y s)"
    if "node_get n key = Some v" "reads lib (emit_opt EStr x) v" for key upd x v and s :: message_file
    by (rule opt_field_reads [OF that]) (auto simp: node_string_def)
  note opt = this [OF _ o(1)] this [OF _ o(2)] this [OF _ o(3)] this [OF _ o(4)]
  show ?thesis
    using t opt by (auto simp: n message_fields_def field_def node_get_def node_string_def node_scalar_def unread_message_def
        empty_message_def split: option.splits)
qed

lemma parse_message_links:
  assumes "reads lib (emit_message m pid links) n"
  shows "parse_seq n ''links'' (parse_link lib c) keep = Inr (filter keep (map (filed_link c) links))"
proof -
  from assms obtain lv where lv: "node_get n ''links'' = Some (NSeq lv)" "list_all2 (reads lib) (map emit_link links) lv"
    by (auto simp: emit_message_def reads_map_ConsD node_get_def)
  then show ?thesis
    using parse_items_reads [OF lv(2) _ parse_link_reads, where acc = "[]"] by (simp add: parse_seq_def emit_link_def)
qed

lemma split_rendered:
  assumes "find_text ([CHR 0x0A] @ ''---'') t = None"
  shows "split_front_matter (lf_opening @ t @ lf_closing @ body) = Some (t, body)"
proof -
  have "\<not> starts_with (lf_opening @ t @ lf_closing @ body) crlf_opening" "starts_with (lf_opening @ t @ lf_closing @ body) lf_opening"
    by (simp_all add: starts_with_def crlf_opening_def lf_opening_def)
  then show ?thesis by (simp add: split_front_matter_def find_closing [OF assms])
qed

lemma message_file_parses:
  assumes "faithful lib (emit_message m pid links)"
  shows "parse_ai_message_file lib (render_ai_message_front_matter lib m pid links @ body) =
    \<lparr>mf_message = m\<lparr>msg_content := [], msg_deleted_at := None\<rparr>, mf_project_id = pid,
     mf_links = filter (\<lambda>l. to_card_id l \<noteq> []) (map (filed_link (link_owner pid (msg_id m))) links), mf_body = body,
     mf_front_matter = True\<rparr>"
proof -
  let ?t = "emit_text lib (emit_message m pid links)"
  from assms obtain n where n: "load_text lib ?t = Some n" "reads lib (emit_message m pid links) n"
    and f: "split_front_matter (lf_opening @ ?t @ lf_closing @ body) = Some (?t, body)"
    unfolding faithful_def by (blast intro: split_rendered)
  from n(2) obtain kvs where kvs: "n = NMap kvs" by (auto simp: emit_message_def)
  show ?thesis
    using n(1) f read_message_fields [OF n(2)] parse_message_links [OF n(2)]
    by (simp add: parse_ai_message_file_def render_ai_message_front_matter_def parse_message_node_def kvs)
qed

lemma parse_thread_json:
  assumes "thread_matches p t" and "is_i64 (th_created_at t)" and "is_i64 (th_updated_at t)"
    and "parse_json jl plain = Inr (thread_json t)" and "privacy_mode p \<noteq> ''encrypted_git''"
  shows "parse_ai_thread_manifest cl jl keys p plain = Inr t"
  using assms by (simp add: parse_ai_thread_manifest_def thread_json_def manifest_version_def string_at_def int64_at_def json_at_def
      json_get_def optional_at_def json_opt_def require_def thread_matches_def split: option.splits)

text \<open>
  C13: AI threads and messages survive in files. A message file is read back with every field of its front matter, its links
  filed under the message and its body to the byte. A thread manifest is read back whole: in a plain project as JSON, in
  an encrypted project from a blob that only the project key opens. The libraries read what they print.
\<close>

theorem ai_files_roundtrip:
  assumes "faithful lib (emit_message m pid links)"
    and "thread_matches p t" and "is_i64 (th_created_at t)" and "is_i64 (th_updated_at t)" and "pretty_keeps jl (thread_json t)"
    and "privacy_mode p = ''encrypted_git'' \<Longrightarrow> crypto_ok cl \<and> length iv = iv_bytes \<and> (\<exists>k key. project_key_id p = Some k \<and> k \<noteq> []
       \<and> keys (proj_id p, k) = Some (sodium_b64 cl key) \<and> length key = key_bytes \<and> json_keeps jl (envelope_meta cl iv k))"
  shows "parse_ai_message_file lib (render_ai_message_front_matter lib m pid links @ body) =
      \<lparr>mf_message = m\<lparr>msg_content := [], msg_deleted_at := None\<rparr>, mf_project_id = pid,
       mf_links = filter (\<lambda>l. to_card_id l \<noteq> []) (map (filed_link (link_owner pid (msg_id m))) links), mf_body = body,
       mf_front_matter = True\<rparr>
    \<and> (\<exists>raw. render_ai_thread_manifest cl jl keys iv p t = Inr raw \<and> parse_ai_thread_manifest cl jl keys p raw = Inr t)"
proof
  obtain plain where plain: "dump_pretty jl (thread_json t) = Inr plain" "parse_json jl plain = Inr (thread_json t)"
    by (rule pretty_keepsE [OF assms(5)])
  show "\<exists>raw. render_ai_thread_manifest cl jl keys iv p t = Inr raw \<and> parse_ai_thread_manifest cl jl keys p raw = Inr t"
  proof (cases "privacy_mode p = ''encrypted_git''")
    case False
    with assms plain parse_thread_json [of p t] show ?thesis by (simp add: render_ai_thread_manifest_def require_def)
  next
    case True
    with assms(6) obtain k key where k: "crypto_ok cl" "length iv = iv_bytes" "project_key_id p = Some k" "k \<noteq> []"
      "keys (proj_id p, k) = Some (sodium_b64 cl key)" "length key = key_bytes" "json_keeps jl (envelope_meta cl iv k)" by blast
    obtain e where e: "encrypt_project_blob cl jl keys iv (proj_id p) k plain = Inr e"
      "decrypt_project_blob cl jl keys (proj_id p) k e = Inr plain"
      using project_blob_opens [where keys = keys and pid = "proj_id p", OF k(1,7,2,4,5,6)] by blast
    have "parse_ai_thread_manifest cl jl keys p e = parse_ai_thread_manifest cl jl keys (p\<lparr>privacy_mode := ''plain''\<rparr>) plain"
      using True k(3,4) e(2) by (simp add: parse_ai_thread_manifest_def project_key_def thread_matches_def)
    also have "\<dots> = Inr t"
      using assms(2-4) plain(2) by (intro parse_thread_json) (simp_all add: thread_matches_def)
    finally show ?thesis
      using True k(3,4) e(1) plain(1) assms(2) by (simp add: render_ai_thread_manifest_def project_key_def require_def)
  qed
qed (rule message_file_parses [OF assms(1)])

section \<open>A message and the manifest of its thread\<close>

definition demo_message :: ai_message where
  "demo_message = empty_message\<lparr>msg_id := ''mmmm'', msg_thread_id := ''tttt'', msg_role := ''user'', msg_source := ''api'', msg_model := Some ''x''\<rparr>"

definition demo_thread :: ai_thread where
  "demo_thread = \<lparr>th_id = ''tttt'', th_project_id = ''p'', th_card_id = None, th_title = ''T'', th_created_at = 1, th_updated_at = 2\<rparr>"

definition demo_message_yaml :: yaml_lib where
  "demo_message_yaml = demo_yaml\<lparr>emit_text := \<lambda>_. ''message'', load_text := \<lambda>_. Some (NMap
     [(NScalar ''message_id'', NScalar ''mmmm''), (NScalar ''project_id'', NScalar ''p''), (NScalar ''thread_id'', NScalar ''tttt''),
      (NScalar ''role'', NScalar ''user''), (NScalar ''source'', NScalar ''api''), (NScalar ''provider'', NNull),
      (NScalar ''model'', NScalar ''x''), (NScalar ''created_at'', NScalar ''0''), (NScalar ''prompt_hash'', NNull),
      (NScalar ''meta_json'', NNull), (NScalar ''links'', NSeq [])])\<rparr>"

definition demo_thread_json :: json_lib where
  "demo_thread_json = demo_json\<lparr>json_pretty := \<lambda>j. if j = thread_json demo_thread then Some ''th'' else None,
     json_parse := (json_parse demo_json)(''th'' @ [newline] := Some (thread_json demo_thread))\<rparr>"

theorem ai_files_roundtrip_witness:
  "parse_ai_message_file demo_message_yaml (render_ai_message_front_matter demo_message_yaml demo_message ''p'' [] @ ''Hi'') =
      \<lparr>mf_message = demo_message, mf_project_id = ''p'', mf_links = [], mf_body = ''Hi'', mf_front_matter = True\<rparr>
    \<and> (\<exists>raw. render_ai_thread_manifest demo_crypto demo_thread_json [(''p'', ''k'') \<mapsto> sodium_b64 demo_crypto (replicate 32 (CHR ''s''))]
           (replicate 24 (CHR ''i'')) (demo_project\<lparr>privacy_mode := ''encrypted_git'', project_key_id := Some ''k''\<rparr>) demo_thread = Inr raw
         \<and> parse_ai_thread_manifest demo_crypto demo_thread_json [(''p'', ''k'') \<mapsto> sodium_b64 demo_crypto (replicate 32 (CHR ''s''))]
           (demo_project\<lparr>privacy_mode := ''encrypted_git'', project_key_id := Some ''k''\<rparr>) raw = Inr demo_thread)"
proof -
  have f: "faithful demo_message_yaml (emit_message demo_message ''p'' [])"
    by (simp add: faithful_def demo_message_yaml_def demo_yaml_def emit_message_def demo_message_def empty_message_def emit_opt_def
        starts_with_def)
  have k: "json_keeps demo_thread_json (envelope_meta demo_crypto (replicate 24 (CHR ''i'')) ''k'')"
    using demo_json_meta(1) by (auto simp: demo_thread_json_def json_keeps_def demo_meta_def demo_json_def)
  have e: "\<exists>kk key. project_key_id (demo_project\<lparr>privacy_mode := ''encrypted_git'', project_key_id := Some ''k''\<rparr>) = Some kk \<and> kk \<noteq> []
       \<and> [(''p'', ''k'') \<mapsto> sodium_b64 demo_crypto (replicate 32 (CHR ''s''))]
           (proj_id (demo_project\<lparr>privacy_mode := ''encrypted_git'', project_key_id := Some ''k''\<rparr>), kk) = Some (sodium_b64 demo_crypto key)
       \<and> length key = key_bytes \<and> json_keeps demo_thread_json (envelope_meta demo_crypto (replicate 24 (CHR ''i'')) kk)"
    using k by (intro exI [of _ "''k''"] exI [of _ "replicate 32 (CHR ''s'')"]) (simp add: demo_project_def key_bytes_def)
  have "thread_matches (demo_project\<lparr>privacy_mode := ''encrypted_git'', project_key_id := Some ''k''\<rparr>) demo_thread"
    by (simp add: thread_matches_def demo_thread_def demo_project_def)
  moreover have "is_i64 (th_created_at demo_thread)" "is_i64 (th_updated_at demo_thread)" by (simp_all add: is_i64_def demo_thread_def)
  moreover have "pretty_keeps demo_thread_json (thread_json demo_thread)" by (simp add: pretty_keeps_def demo_thread_json_def)
  ultimately show ?thesis
    using ai_files_roundtrip [OF f, where body = "''Hi''" and p = "demo_project\<lparr>privacy_mode := ''encrypted_git'', project_key_id := Some ''k''\<rparr>"
        and t = demo_thread and jl = demo_thread_json and cl = demo_crypto and iv = "replicate 24 (CHR ''i'')"
        and keys = "[(''p'', ''k'') \<mapsto> sodium_b64 demo_crypto (replicate 32 (CHR ''s''))]"] e demo_crypto_ok
    by (simp add: iv_bytes_def demo_message_def empty_message_def)
qed

end
