(* ===== verification/Resource_Manifest.thy ===== *)
theory Resource_Manifest
  imports Card_Model Json_Value
begin

text \<open>
  The durable form of resources and storage locations: JSON manifests (\<open>src/src/resource/ResourceManifest.cpp\<close>) at
  paths derived from the id (\<open>src/src/resource/ResourcePaths.cpp\<close>). The members of an object are listed in the order
  of their keys, as the library keeps them.
\<close>

section \<open>Paths\<close>

definition sharded_path :: "string \<Rightarrow> string \<Rightarrow> string \<Rightarrow> path result" where
  "sharded_path dir i extension =
     (if length i < 4 then Inl (RuntimeError ''id too short for path sharding'')
      else Inr (dir @ ''/'' @ take 2 i @ ''/'' @ take 2 (drop 2 i) @ ''/'' @ i @ extension))"

definition resource_rel_path :: "string \<Rightarrow> path result" where
  "resource_rel_path rid = sharded_path ''resources'' rid ''.json''"

definition location_rel_path :: "string \<Rightarrow> path result" where
  "location_rel_path lid = sharded_path ''locations'' lid ''.json''"

lemma sharded_path_inj:
  assumes "sharded_path dir a ext = Inr p" and "sharded_path dir b ext = Inr p"
  shows "a = b"
proof -
  from assms have "length a = length b"
    by (auto simp: sharded_path_def split: if_splits dest: arg_cong [where f = length])
  with assms show ?thesis by (auto simp: sharded_path_def split: if_splits)
qed

section \<open>Rendering\<close>

definition require_non_empty :: "string \<Rightarrow> string \<Rightarrow> unit result" where
  "require_non_empty v f = require (v \<noteq> []) (RuntimeError (''resource manifest missing '' @ f))"

definition placement_json :: "placement \<Rightarrow> json" where
  "placement_json p = JObj
     [(''created_at'', JInt (plc_created_at p)), (''encoding'', JStr (plc_encoding p)),
      (''location_id'', JStr (plc_location_id p)), (''object_key'', JStr (object_key p)),
      (''placement_id'', JStr (plc_id p)), (''stored_byte_size'', JInt (stored_byte_size p)),
      (''stored_sha256'', JStr (stored_sha256 p))]"

definition asset_fields :: "asset \<Rightarrow> json list \<Rightarrow> json" where
  "asset_fields a ps = JObj
     [(''asset_id'', JStr (asset_id a)), (''byte_size'', JInt (byte_size a)), (''created_at'', JInt (as_created_at a)),
      (''media_type'', JStr (media_type a)), (''original_filename'', JStr (original_filename a)),
      (''placements'', JArr ps), (''plaintext_sha256'', JStr (plaintext_sha256 a)),
      (''updated_at'', JInt (as_updated_at a))]"

definition asset_json :: "asset \<Rightarrow> json result" where
  "asset_json a =
     rbind (rmap (\<lambda>p. rbind (require (plc_asset_id p = asset_id a) (RuntimeError ''placement asset_id mismatch''))
                      (\<lambda>_. Inr (placement_json p))) (as_placements a))
     (\<lambda>ps. Inr (asset_fields a ps))"

definition metadata_json :: "(string \<times> string list) list \<Rightarrow> json" where
  "metadata_json m = JObj (map (\<lambda>(k, vs). (k, JArr (map JStr vs))) m)"

definition resource_json :: "resource \<Rightarrow> json" where
  "resource_json r = JObj
     [(''created_at'', JInt (res_created_at r)), (''label'', JStr (res_label r)), (''metadata'', metadata_json (res_metadata r)),
      (''project_id'', JStr (res_project_id r)), (''resource_id'', JStr (res_id r)), (''type'', JStr (res_type r)),
      (''updated_at'', JInt (res_updated_at r))]"

definition bundle_json :: "resource \<Rightarrow> json list \<Rightarrow> json" where
  "bundle_json r items = JObj [(''assets'', JArr items), (''format_version'', JInt 1), (''resource'', resource_json r)]"

definition require_resource :: "resource \<Rightarrow> unit result" where
  "require_resource r =
     rbind (require_non_empty (res_id r) ''resource_id'')
     (\<lambda>_. rbind (require_non_empty (res_project_id r) ''project_id'')
     (\<lambda>_. rbind (require_non_empty (res_type r) ''type'')
     (\<lambda>_. require_non_empty (res_label r) ''label'')))"

definition render_resource_manifest :: "json_lib \<Rightarrow> resource_bundle \<Rightarrow> string result" where
  "render_resource_manifest jl b =
     (let r = rb_resource b
      in rbind (require_resource r)
      (\<lambda>_. rbind (rmap (\<lambda>a. rbind (require (as_resource_id a = res_id r) (RuntimeError ''asset resource_id mismatch''))
                            (\<lambda>_. asset_json a)) (rb_assets b))
      (\<lambda>items. dump_pretty jl (bundle_json r items))))"

definition require_location :: "location \<Rightarrow> unit result" where
  "require_location l =
     rbind (require_non_empty (loc_id l) ''location_id'')
     (\<lambda>_. rbind (require_non_empty (loc_project_id l) ''project_id'')
     (\<lambda>_. rbind (require_non_empty (loc_name l) ''name'')
     (\<lambda>_. require_non_empty (loc_provider l) ''provider'')))"

definition location_json :: "location \<Rightarrow> json" where
  "location_json l = JObj [(''format_version'', JInt 1), (''location'', JObj
     [(''configuration'', string_map (loc_configuration l)), (''created_at'', JInt (loc_created_at l)),
      (''location_id'', JStr (loc_id l)), (''name'', JStr (loc_name l)), (''project_id'', JStr (loc_project_id l)),
      (''provider'', JStr (loc_provider l)), (''updated_at'', JInt (loc_updated_at l))])]"

definition render_location_manifest :: "json_lib \<Rightarrow> location \<Rightarrow> string result" where
  "render_location_manifest jl l = rbind (require_location l) (\<lambda>_. dump_pretty jl (location_json l))"

section \<open>Parsing\<close>

definition parse_placement :: "json_lib \<Rightarrow> string \<Rightarrow> json \<Rightarrow> placement result" where
  "parse_placement jl aid item =
     rbind (string_at item ''placement_id'')
     (\<lambda>pid. rbind (string_at item ''location_id'')
     (\<lambda>lid. rbind (string_at item ''object_key'')
     (\<lambda>key. rbind (string_at item ''encoding'')
     (\<lambda>enc. rbind (int64_at jl item ''stored_byte_size'')
     (\<lambda>size. rbind (string_at item ''stored_sha256'')
     (\<lambda>sha. rbind (int64_at jl item ''created_at'')
     (\<lambda>created. rbind (require_non_empty pid ''placement_id'')
     (\<lambda>_. rbind (require_non_empty lid ''location_id'')
     (\<lambda>_. rbind (require_non_empty key ''object_key'')
     (\<lambda>_. rbind (require_non_empty enc ''encoding'')
     (\<lambda>_. rbind (require (0 \<le> size) (RuntimeError ''resource manifest has negative stored_byte_size''))
     (\<lambda>_. Inr \<lparr>plc_id = pid, plc_asset_id = aid, plc_location_id = lid, object_key = key, plc_encoding = enc,
        stored_byte_size = size, stored_sha256 = sha, plc_created_at = created\<rparr>))))))))))))"

definition array_at :: "json \<Rightarrow> string \<Rightarrow> exn \<Rightarrow> json list result" where
  "array_at j k e = rbind (json_at j k) (\<lambda>v. case v of JArr xs \<Rightarrow> Inr xs | _ \<Rightarrow> Inl e)"

definition parse_asset :: "json_lib \<Rightarrow> string \<Rightarrow> json \<Rightarrow> asset result" where
  "parse_asset jl rid item =
     rbind (string_at item ''asset_id'')
     (\<lambda>aid. rbind (string_at item ''original_filename'')
     (\<lambda>name. rbind (string_at item ''media_type'')
     (\<lambda>media. rbind (int64_at jl item ''byte_size'')
     (\<lambda>size. rbind (string_at item ''plaintext_sha256'')
     (\<lambda>sha. rbind (int64_at jl item ''created_at'')
     (\<lambda>created. rbind (int64_at jl item ''updated_at'')
     (\<lambda>updated. rbind (require_non_empty aid ''asset_id'')
     (\<lambda>_. rbind (require_non_empty sha ''plaintext_sha256'')
     (\<lambda>_. rbind (require (0 \<le> size) (RuntimeError ''resource manifest has negative byte_size''))
     (\<lambda>_. rbind (array_at item ''placements'' (RuntimeError ''resource manifest placements must be an array''))
     (\<lambda>items. rbind (rmap (parse_placement jl aid) items)
     (\<lambda>ps. Inr \<lparr>asset_id = aid, as_resource_id = rid, original_filename = name, media_type = media, byte_size = size,
        plaintext_sha256 = sha, as_created_at = created, as_updated_at = updated, as_placements = ps\<rparr>))))))))))))"

definition require_version :: "json_lib \<Rightarrow> json \<Rightarrow> exn \<Rightarrow> unit result" where
  "require_version jl body e =
     (case body of
        JObj _ \<Rightarrow> rbind (rbind (json_at body ''format_version'') (get_int jl)) (\<lambda>v. require (v = 1) e)
      | _ \<Rightarrow> Inl e)"

definition parse_resource :: "json_lib \<Rightarrow> json \<Rightarrow> resource result" where
  "parse_resource jl item =
     rbind (string_at item ''resource_id'')
     (\<lambda>rid. rbind (string_at item ''project_id'')
     (\<lambda>pid. rbind (string_at item ''type'')
     (\<lambda>ty. rbind (string_at item ''label'')
     (\<lambda>lab. rbind (rbind (json_at item ''metadata'') (get_map (get_list get_string)))
     (\<lambda>meta. rbind (int64_at jl item ''created_at'')
     (\<lambda>created. rbind (int64_at jl item ''updated_at'')
     (\<lambda>updated. let r = \<lparr>res_id = rid, res_project_id = pid, res_type = ty, res_label = lab, res_metadata = meta,
                    res_created_at = created, res_updated_at = updated\<rparr>
                in rbind (require_resource r) (\<lambda>_. Inr r))))))))"

definition parse_resource_manifest :: "json_lib \<Rightarrow> string \<Rightarrow> resource_bundle result" where
  "parse_resource_manifest jl text =
     rbind (parse_json jl text)
     (\<lambda>body. rbind (require_version jl body (RuntimeError ''unsupported resource manifest version''))
     (\<lambda>_. rbind (json_at body ''resource'')
     (\<lambda>item. rbind (parse_resource jl item)
     (\<lambda>r. rbind (array_at body ''assets'' (RuntimeError ''resource manifest assets must be an array''))
     (\<lambda>items. rbind (rmap (parse_asset jl (res_id r)) items)
     (\<lambda>as. Inr \<lparr>rb_resource = r, rb_assets = as\<rparr>))))))"

definition parse_location_manifest :: "json_lib \<Rightarrow> string \<Rightarrow> location result" where
  "parse_location_manifest jl text =
     rbind (parse_json jl text)
     (\<lambda>body. rbind (require_version jl body (RuntimeError ''unsupported location manifest version''))
     (\<lambda>_. rbind (json_at body ''location'')
     (\<lambda>item. rbind (string_at item ''location_id'')
     (\<lambda>lid. rbind (string_at item ''project_id'')
     (\<lambda>pid. rbind (string_at item ''name'')
     (\<lambda>name. rbind (string_at item ''provider'')
     (\<lambda>provider. rbind (rbind (json_at item ''configuration'') (get_map get_string))
     (\<lambda>config. rbind (int64_at jl item ''created_at'')
     (\<lambda>created. rbind (int64_at jl item ''updated_at'')
     (\<lambda>updated. let l = \<lparr>loc_id = lid, loc_project_id = pid, loc_name = name, loc_provider = provider,
                    loc_configuration = config, loc_created_at = created, loc_updated_at = updated\<rparr>
                in rbind (require_location l) (\<lambda>_. Inr l)))))))))))"

section \<open>What is read back\<close>

text \<open>A bundle with the fields the parser asks for, all numbers of 64 bits.\<close>

definition placement_ok :: "string \<Rightarrow> placement \<Rightarrow> bool" where
  "placement_ok aid p \<longleftrightarrow> plc_asset_id p = aid \<and> plc_id p \<noteq> [] \<and> plc_location_id p \<noteq> [] \<and> object_key p \<noteq> []
     \<and> plc_encoding p \<noteq> [] \<and> 0 \<le> stored_byte_size p \<and> is_i64 (stored_byte_size p) \<and> is_i64 (plc_created_at p)"

definition asset_ok :: "string \<Rightarrow> asset \<Rightarrow> bool" where
  "asset_ok rid a \<longleftrightarrow> as_resource_id a = rid \<and> asset_id a \<noteq> [] \<and> plaintext_sha256 a \<noteq> [] \<and> 0 \<le> byte_size a
     \<and> is_i64 (byte_size a) \<and> is_i64 (as_created_at a) \<and> is_i64 (as_updated_at a)
     \<and> list_all (placement_ok (asset_id a)) (as_placements a)"

definition bundle_ok :: "resource_bundle \<Rightarrow> bool" where
  "bundle_ok b \<longleftrightarrow> (let r = rb_resource b in
     res_id r \<noteq> [] \<and> res_project_id r \<noteq> [] \<and> res_type r \<noteq> [] \<and> res_label r \<noteq> []
     \<and> is_i64 (res_created_at r) \<and> is_i64 (res_updated_at r) \<and> list_all (asset_ok (res_id r)) (rb_assets b))"

definition location_ok :: "location \<Rightarrow> bool" where
  "location_ok l \<longleftrightarrow> loc_id l \<noteq> [] \<and> loc_project_id l \<noteq> [] \<and> loc_name l \<noteq> [] \<and> loc_provider l \<noteq> []
     \<and> is_i64 (loc_created_at l) \<and> is_i64 (loc_updated_at l)"

lemmas json_reading = string_at_def int64_at_def json_at_def json_get_def array_at_def require_non_empty_def require_def

lemma parse_placement_json: "placement_ok aid p \<Longrightarrow> parse_placement jl aid (placement_json p) = Inr p"
  by (simp add: parse_placement_def placement_json_def placement_ok_def json_reading)

definition asset_value :: "asset \<Rightarrow> json" where
  "asset_value a = asset_fields a (map placement_json (as_placements a))"

lemma asset_json_ok: "asset_ok rid a \<Longrightarrow> asset_json a = Inr (asset_value a)"
proof -
  assume "asset_ok rid a"
  then have "rmap (\<lambda>p. rbind (require (plc_asset_id p = asset_id a) (RuntimeError ''placement asset_id mismatch''))
      (\<lambda>_. Inr (placement_json p))) ps = Inr (map placement_json ps)" if "set ps \<subseteq> set (as_placements a)" for ps
    using that by (induction ps) (auto simp: asset_ok_def placement_ok_def list_all_iff require_def)
  then show ?thesis by (simp add: asset_json_def asset_value_def)
qed

lemma parse_asset_value:
  assumes "asset_ok rid a"
  shows "parse_asset jl rid (asset_value a) = Inr a"
proof -
  have "rmap (parse_placement jl (asset_id a)) (map placement_json (as_placements a)) = Inr (as_placements a)"
    using assms by (intro rmap_map_Inr parse_placement_json) (simp add: asset_ok_def list_all_iff)
  with assms show ?thesis by (simp add: parse_asset_def asset_value_def asset_fields_def asset_ok_def json_reading)
qed

lemma get_metadata_json [simp]: "get_map (get_list get_string) (metadata_json m) = Inr m"
  unfolding metadata_json_def by (rule get_map_map) (auto intro: get_list_map)

lemma require_version_ok [simp]:
  "require_version jl (bundle_json r items) e = Inr ()" "require_version jl (location_json l) e = Inr ()"
  by (simp_all add: require_version_def bundle_json_def location_json_def json_reading get_int_def to_int32_def)

lemma parse_resource_json:
  assumes "bundle_ok b"
  shows "parse_resource jl (resource_json (rb_resource b)) = Inr (rb_resource b)" "require_resource (rb_resource b) = Inr ()"
  using assms by (simp_all add: parse_resource_def resource_json_def bundle_ok_def require_resource_def json_reading Let_def)

lemma rendered_manifest_parses:
  assumes "bundle_ok b" and "pretty_keeps jl (bundle_json (rb_resource b) (map asset_value (rb_assets b)))"
  shows "\<exists>text. render_resource_manifest jl b = Inr text \<and> parse_resource_manifest jl text = Inr b"
proof -
  let ?j = "bundle_json (rb_resource b) (map asset_value (rb_assets b))"
  obtain t where t: "dump_pretty jl ?j = Inr t" "parse_json jl t = Inr ?j" by (rule pretty_keepsE [OF assms(2)])
  have ok: "asset_ok (res_id (rb_resource b)) a" if "a \<in> set (rb_assets b)" for a
    using assms(1) that by (simp add: bundle_ok_def list_all_iff Let_def)
  have "rmap (\<lambda>a. rbind (require (as_resource_id a = res_id (rb_resource b)) (RuntimeError ''asset resource_id mismatch''))
      (\<lambda>_. asset_json a)) as = Inr (map asset_value as)" if "set as \<subseteq> set (rb_assets b)" for as
    using that by (induction as) (auto simp: ok [unfolded asset_ok_def] asset_json_ok [OF ok] require_def)
  then have "render_resource_manifest jl b = Inr t"
    using parse_resource_json [OF assms(1)] t by (simp add: render_resource_manifest_def Let_def)
  moreover have "rmap (parse_asset jl (res_id (rb_resource b))) (map asset_value (rb_assets b)) = Inr (rb_assets b)"
    by (intro rmap_map_Inr parse_asset_value ok)
  then have "parse_resource_manifest jl t = Inr b"
    using parse_resource_json [OF assms(1)] t
    by (simp add: parse_resource_manifest_def) (simp add: bundle_json_def json_reading)
  ultimately show ?thesis by blast
qed

lemma rendered_location_parses:
  assumes "location_ok l" and "pretty_keeps jl (location_json l)"
  shows "\<exists>text. render_location_manifest jl l = Inr text \<and> parse_location_manifest jl text = Inr l"
proof -
  obtain t where t: "dump_pretty jl (location_json l) = Inr t" "parse_json jl t = Inr (location_json l)"
    by (rule pretty_keepsE [OF assms(2)])
  have "require_location l = Inr ()"
    using assms(1) by (simp add: require_location_def location_ok_def json_reading)
  with t have "render_location_manifest jl l = Inr t" by (simp add: render_location_manifest_def)
  moreover have "parse_location_manifest jl t = Inr l"
    using assms(1) t
    by (simp add: parse_location_manifest_def)
      (simp add: location_json_def json_reading location_ok_def require_location_def Let_def)
  ultimately show ?thesis by blast
qed

text \<open>
  C12: Resource manifests carry the whole bundle. A resource with its assets and placements, all of whose required fields
  are present, is rendered, and parsing the text gives the bundle back: ids, metadata with every value in order, assets
  and placements in order. The same holds for the manifest of a storage location.
\<close>

theorem manifest_roundtrip:
  assumes "bundle_ok b" and "pretty_keeps jl (bundle_json (rb_resource b) (map asset_value (rb_assets b)))"
    and "location_ok l" and "pretty_keeps jl (location_json l)"
  shows "(\<exists>text. render_resource_manifest jl b = Inr text \<and> parse_resource_manifest jl text = Inr b)
     \<and> (\<exists>text. render_location_manifest jl l = Inr text \<and> parse_location_manifest jl text = Inr l)"
  using rendered_manifest_parses [OF assms(1,2)] rendered_location_parses [OF assms(3,4)] by blast

text \<open>A bundle with metadata, an asset and its placement, and the location it is stored in.\<close>

definition demo_manifest_bundle :: resource_bundle where
  "demo_manifest_bundle = \<lparr>rb_resource = \<lparr>res_id = ''rrrr'', res_project_id = ''p'', res_type = ''image'', res_label = ''L'',
       res_metadata = [(''author'', [''x'', ''y''])], res_created_at = 1, res_updated_at = 2\<rparr>,
     rb_assets = [\<lparr>asset_id = ''a'', as_resource_id = ''rrrr'', original_filename = [], media_type = [], byte_size = 5,
       plaintext_sha256 = ''s'', as_created_at = 1, as_updated_at = 1, as_placements = [\<lparr>plc_id = ''o'', plc_asset_id = ''a'',
         plc_location_id = ''llll'', object_key = ''k'', plc_encoding = ''e'', stored_byte_size = 5, stored_sha256 = [],
         plc_created_at = 1\<rparr>]\<rparr>]\<rparr>"

definition demo_manifest_location :: location where
  "demo_manifest_location = \<lparr>loc_id = ''llll'', loc_project_id = ''p'', loc_name = ''n'', loc_provider = ''local'',
     loc_configuration = [(''kind'', ''dir'')], loc_created_at = 1, loc_updated_at = 1\<rparr>"

definition demo_manifest_json :: json_lib where
  "demo_manifest_json =
     (let b = bundle_json (rb_resource demo_manifest_bundle) (map asset_value (rb_assets demo_manifest_bundle))
      in \<lparr>json_dump = \<lambda>_. None, json_pretty = \<lambda>j. if j = b then Some ''b'' else if j = location_json demo_manifest_location then Some ''l'' else None,
          json_parse = \<lambda>t. if t = ''b'' @ [newline] then Some b
            else if t = ''l'' @ [newline] then Some (location_json demo_manifest_location) else None,
          float_to_int = \<lambda>_. 0\<rparr>)"

theorem manifest_roundtrip_witness:
  "(\<exists>text. render_resource_manifest demo_manifest_json demo_manifest_bundle = Inr text
      \<and> parse_resource_manifest demo_manifest_json text = Inr demo_manifest_bundle)
   \<and> (\<exists>text. render_location_manifest demo_manifest_json demo_manifest_location = Inr text
      \<and> parse_location_manifest demo_manifest_json text = Inr demo_manifest_location)"
proof (rule manifest_roundtrip)
  show "pretty_keeps demo_manifest_json (location_json demo_manifest_location)"
    by (simp add: pretty_keeps_def demo_manifest_json_def Let_def)
  show "pretty_keeps demo_manifest_json (bundle_json (rb_resource demo_manifest_bundle) (map asset_value (rb_assets demo_manifest_bundle)))"
    by (simp add: pretty_keeps_def demo_manifest_json_def Let_def)
qed code_simp+

end
