(* ===== verification/Rebuilder.thy ===== *)
theory Rebuilder
  imports Store_Monad Ai_Files Resource_Manifest
begin

text \<open>
  The reconstruction of a project's index from its files: \<open>src/src/project/Rebuilder.cpp\<close>. The rows of the project are
  deleted; locations, resources, cards and AI threads with their messages are read and checked, each file at the path
  of its id, and inserted: cards parents first in rounds over the records that are left, links after the cards. The
  project's directory exists. Threads without a manifest are created in the order in which messages name them, where
  the code takes the unspecified order of a hash table.
\<close>

section \<open>Files\<close>

definition path_filename :: "path \<Rightarrow> string" where
  "path_filename p = rev (takeWhile (\<lambda>c. c \<noteq> CHR ''/'') (rev p))"

text \<open>\<open>std::filesystem::path::extension\<close>: from the last dot of the file name, unless it starts the name.\<close>

definition path_extension :: "path \<Rightarrow> string" where
  "path_extension p =
     (let f = path_filename p; suffix = rev (takeWhile (\<lambda>c. c \<noteq> CHR ''.'') (rev f))
      in if length suffix + 1 < length f then CHR ''.'' # suffix else [])"

definition path_stem :: "path \<Rightarrow> string" where
  "path_stem p = (let f = path_filename p in take (length f - length (path_extension p)) f)"

definition collect_files :: "env \<Rightarrow> disk \<Rightarrow> path \<Rightarrow> string \<Rightarrow> path list" where
  "collect_files env d base ext =
     filter (\<lambda>q. starts_with q (base @ ''/'') \<and> path_extension q = ext) (e_walk env (d_files d))"

definition derive_title :: "string \<Rightarrow> string \<Rightarrow> string" where
  "derive_title body fallback =
     (let first = dropWhile (\<lambda>c. c \<in> {CHR '' '', CHR 0x09, CHR 0x0D}) (takeWhile (\<lambda>c. c \<noteq> newline) body)
      in if first \<noteq> [] \<and> hd first = CHR ''#''
         then let heading = dropWhile (\<lambda>c. c \<in> {CHR ''#'', CHR '' '', CHR 0x09}) first
              in if heading \<noteq> [] then heading else fallback
         else fallback)"

definition decode_blob_for_project :: "env \<Rightarrow> project \<Rightarrow> bytes \<Rightarrow> string result" where
  "decode_blob_for_project env p raw =
     (if privacy_mode p \<noteq> ''encrypted_git'' then Inr raw
      else case project_key_id p of
             None \<Rightarrow> Inr raw
           | Some k \<Rightarrow> if k = [] then Inr raw
                       else decrypt_project_blob (e_crypto env) (e_json env) (e_keys env) (proj_id p) k raw)"

section \<open>Reading a card\<close>

record card_record =
  cr_card :: card
  cr_body :: string
  cr_links :: "card_link list"
  cr_milestones :: "milestone list"

definition record_link :: "card \<Rightarrow> card_link \<Rightarrow> card_link" where
  "record_link c l = l\<lparr>link_project_id := project_id c, from_card_id := card_id c,
     to_type := (if to_type l = [] then ''card'' else to_type l),
     link_kind := (if link_kind l = [] then ''ref'' else link_kind l),
     link_created_at := (if link_created_at l \<le> 0 then created_at c else link_created_at l)\<rparr>"

definition record_milestone :: "card \<Rightarrow> milestone \<Rightarrow> milestone" where
  "record_milestone c m =
     (let created = (if ms_created_at m \<le> 0 then created_at c else ms_created_at m)
      in m\<lparr>ms_project_id := project_id c, ms_card_id := card_id c, ms_created_at := created,
           ms_updated_at := (if ms_updated_at m \<le> 0 then created else ms_updated_at m)\<rparr>)"

text \<open>The card a file stands for, once its id and path have been checked.\<close>

definition record_card :: "project \<Rightarrow> bool \<Rightarrow> i64 \<Rightarrow> string \<Rightarrow> path \<Rightarrow> string \<Rightarrow> card \<Rightarrow> card" where
  "record_card p is_trash mtime cid live body c =
     (let created = (if created_at c \<le> 0 then mtime else created_at c)
      in c\<lparr>card_id := cid, project_id := proj_id p, rel_path := live,
           title := (if title c = [] then derive_title body cid else title c),
           created_at := created,
           updated_at := (if updated_at c \<le> 0 then created else updated_at c),
           deleted_at := (if \<not> is_trash then None
                          else if deleted_at c = None then Some mtime else deleted_at c)\<rparr>)"

definition load_card_file :: "env \<Rightarrow> project \<Rightarrow> disk \<Rightarrow> bool \<Rightarrow> path \<Rightarrow> card_record result" where
  "load_card_file env p d is_trash path =
     (case d_files d path of
        None \<Rightarrow> Inl (RuntimeError ''Failed to open for read'')
      | Some raw \<Rightarrow>
     rbind (decode_blob_for_project env p raw)
     (\<lambda>plain. let parsed = parse_card_file (e_yaml env) plain;
                  given = card_id (pf_card parsed);
                  cid = (if given = [] then path_stem path else given)
     in rbind (require (\<not> (starts_with raw lf_opening \<and> \<not> has_front_matter parsed)) (RuntimeError ''invalid card front matter''))
     (\<lambda>_. rbind (require (\<not> (has_front_matter parsed \<and> given = [])) (RuntimeError ''card_id missing in front matter''))
     (\<lambda>_. rbind (require (is_valid_uuid cid) (RuntimeError ''invalid card_id in file: expected UUIDv4 or UUIDv7''))
     (\<lambda>_. rbind (if is_trash then card_trash_rel_path cid else card_rel_path cid)
     (\<lambda>expected. rbind (require (path = expected) (RuntimeError ''card path does not match card_id''))
     (\<lambda>_. rbind (card_rel_path cid)
     (\<lambda>live. let c = record_card p is_trash (e_mtime env path) cid live (pf_body parsed) (pf_card parsed)
             in Inr \<lparr>cr_card = c, cr_body = pf_body parsed, cr_links = map (record_link c) (pf_links parsed),
                     cr_milestones = map (record_milestone c) (pf_milestones parsed)\<rparr>))))))))"

definition load_cards :: "env \<Rightarrow> project \<Rightarrow> disk \<Rightarrow> card_record list result" where
  "load_cards env p d =
     rbind (rmap (load_card_file env p d False) (collect_files env d ''cards'' ''.md''))
     (\<lambda>live. rbind (rmap (load_card_file env p d True) (collect_files env d ''trash/cards'' ''.md''))
     (\<lambda>trashed. Inr (live @ trashed)))"

section \<open>Rows\<close>

definition clear_project :: "string \<Rightarrow> db \<Rightarrow> db result" where
  "clear_project pid d =
     (let k = c_str pid;
          d1 = d\<lparr>card_links := delete_where (\<lambda>l. link_project_id l = k) (card_links d)\<rparr>;
          d2 = delete_threads (\<lambda>t. th_project_id t = k) (drop_project_cards k d1);
          d3 = d2\<lparr>cards_fts := delete_where (\<lambda>r. fts_project_id r = k) (cards_fts d2),
                 db_ai := (db_ai d2)\<lparr>ai_fts := delete_where (\<lambda>r. af_project_id r = k) (ai_fts (db_ai d2))\<rparr>\<rparr>
      in delete_locations (\<lambda>l. lr_project_id l = k) (RuntimeError ''delete failed'')
           (delete_resources (\<lambda>r. rr_project_id r = k) d3))"

definition insert_record :: "env \<Rightarrow> card_record \<Rightarrow> db \<Rightarrow> db result" where
  "insert_record env r d =
     (let c = cr_card r
      in rbind (cards_create c d)
      (\<lambda>d1. if deleted_at c \<noteq> None then Inr d1
            else let d2 = (if e_fts env then fts_upsert_card (card_id c) (project_id c) (title c) (cr_body r) d1 else d1)
                 in rbind (set_tags_for_card (project_id c) (card_id c) (extract_tags (e_md env) (cr_body r)) (created_at c) d2)
                    (\<lambda>d3. if cr_milestones r \<noteq> [] then replace_milestones (project_id c) (card_id c) (cr_milestones r) d3
                          else Inr d3)))"

text \<open>One round of the insertion loop: the records left over, the ids inserted so far, the database.\<close>

fun insert_round ::
  "env \<Rightarrow> card_record list \<Rightarrow> string list \<Rightarrow> db \<Rightarrow> (card_record list \<times> string list \<times> db) result"
where
  "insert_round env [] ins d = Inr ([], ins, d)"
| "insert_round env (r # rs) ins d =
     (if (case parent_card_id (cr_card r) of None \<Rightarrow> False | Some p \<Rightarrow> p \<notin> set ins)
      then rbind (insert_round env rs ins d) (\<lambda>(left, ins', d'). Inr (r # left, ins', d'))
      else rbind (insert_record env r d) (\<lambda>d'. insert_round env rs (card_id (cr_card r) # ins) d'))"

lemma insert_round_shrinks:
  "insert_round env rs ins d = Inr (left, ins', d') \<Longrightarrow> length left \<le> length rs"
  by (induction env rs ins d arbitrary: left ins' d' rule: insert_round.induct)
    (fastforce simp: rbind_eq_Inr split: if_splits)+

function insert_rounds :: "env \<Rightarrow> card_record list \<Rightarrow> string list \<Rightarrow> db \<Rightarrow> db result" where
  "insert_rounds env rs ins d =
     (if rs = [] then Inr d
      else case insert_round env rs ins d of
             Inl e \<Rightarrow> Inl e
           | Inr (left, ins', d') \<Rightarrow>
               if length left = length rs then Inl (RuntimeError ''unresolved parent_card_id during rebuild'')
               else insert_rounds env left ins' d')"
  by pat_completeness auto
termination
  by (relation "measure (\<lambda>(env, rs, ins, d). length rs)") (auto dest!: sym [of "insert_round _ _ _ _"] insert_round_shrinks)

declare insert_rounds.simps [simp del]

definition write_links :: "card_record list \<Rightarrow> db \<Rightarrow> db result" where
  "write_links rs d =
     rfold (\<lambda>r d. if cr_links r \<noteq> [] then upsert_links (project_id (cr_card r)) (card_id (cr_card r)) (cr_links r) d else Inr d) rs d"

section \<open>Locations and resources\<close>

definition is_sha256 :: "string \<Rightarrow> bool" where
  "is_sha256 v \<longleftrightarrow> length v = 64 \<and> list_all is_hex_digit v"

definition fail_at :: "path \<Rightarrow> string \<Rightarrow> exn" where
  "fail_at path m = RuntimeError (path @ '': '' @ m)"

text \<open>An exception while a manifest is read is thrown again with the path in front.\<close>

definition read_manifest :: "disk \<Rightarrow> (string \<Rightarrow> 'a result) \<Rightarrow> path \<Rightarrow> 'a result" where
  "read_manifest d parse path =
     (case (case d_files d path of None \<Rightarrow> Inl (RuntimeError ''Failed to open for read'') | Some raw \<Rightarrow> parse raw) of
        Inl e \<Rightarrow> Inl (fail_at path (what e))
      | Inr x \<Rightarrow> Inr x)"

definition load_location_file :: "env \<Rightarrow> project \<Rightarrow> disk \<Rightarrow> path \<Rightarrow> location list \<Rightarrow> location list result" where
  "load_location_file env p d path ls =
     rbind (read_manifest d (\<lambda>raw. rbind (decode_blob_for_project env p raw) (parse_location_manifest (e_json env))) path)
     (\<lambda>l. rbind (location_rel_path (loc_id l))
     (\<lambda>expected. rbind (require (path = expected) (fail_at path ''location path does not match id''))
     (\<lambda>_. rbind (require (loc_project_id l = proj_id p) (fail_at path ''location belongs to another project''))
     (\<lambda>_. rbind (require (loc_id l \<notin> loc_id ` set ls) (fail_at path ''duplicate location_id''))
     (\<lambda>_. Inr (ls @ [l]))))))"

text \<open>The ids of assets and placements seen so far grow with every asset checked.\<close>

definition check_placement :: "path \<Rightarrow> placement \<Rightarrow> string list \<Rightarrow> string list result" where
  "check_placement path x seen =
     rbind (require (plc_id x \<notin> set seen) (fail_at path ''duplicate placement_id''))
     (\<lambda>_. rbind (require (is_sha256 (stored_sha256 x)) (fail_at path ''invalid stored_sha256''))
     (\<lambda>_. Inr (plc_id x # seen)))"

definition check_asset :: "path \<Rightarrow> asset \<Rightarrow> string list \<times> string list \<Rightarrow> (string list \<times> string list) result" where
  "check_asset path a seen =
     rbind (require (asset_id a \<notin> set (fst seen)) (fail_at path ''duplicate asset_id''))
     (\<lambda>_. rbind (require (is_sha256 (plaintext_sha256 a)) (fail_at path ''invalid plaintext_sha256''))
     (\<lambda>_. rbind (rfold (check_placement path) (as_placements a) (snd seen))
     (\<lambda>placed. Inr (asset_id a # fst seen, placed))))"

record resource_scan =
  rc_bundles :: "resource_bundle list"
  rc_assets :: "string list"
  rc_placements :: "string list"

definition load_resource_file :: "env \<Rightarrow> project \<Rightarrow> disk \<Rightarrow> path \<Rightarrow> resource_scan \<Rightarrow> resource_scan result" where
  "load_resource_file env p d path sc =
     rbind (read_manifest d (\<lambda>raw. rbind (decode_blob_for_project env p raw) (parse_resource_manifest (e_json env))) path)
     (\<lambda>b. rbind (resource_rel_path (res_id (rb_resource b)))
     (\<lambda>expected. rbind (require (path = expected) (fail_at path ''resource path does not match id''))
     (\<lambda>_. rbind (require (res_project_id (rb_resource b) = proj_id p) (fail_at path ''resource belongs to another project''))
     (\<lambda>_. rbind (require (res_id (rb_resource b) \<notin> (\<lambda>x. res_id (rb_resource x)) ` set (rc_bundles sc)) (fail_at path ''duplicate resource_id''))
     (\<lambda>_. rbind (rfold (check_asset path) (rb_assets b) (rc_assets sc, rc_placements sc))
     (\<lambda>(as, ps). Inr \<lparr>rc_bundles = rc_bundles sc @ [b], rc_assets = as, rc_placements = ps\<rparr>))))))"

definition placed_in :: "resource_bundle \<Rightarrow> placement list" where
  "placed_in b = concat (map as_placements (rb_assets b))"

definition check_locations :: "location list \<Rightarrow> resource_bundle list \<Rightarrow> unit result" where
  "check_locations ls bs =
     rfold (\<lambda>b _. rfold (\<lambda>x _. require (plc_location_id x \<in> loc_id ` set ls)
         (case resource_rel_path (res_id (rb_resource b)) of
            Inl e \<Rightarrow> e
          | Inr path \<Rightarrow> fail_at path (''placement refers to unknown location '' @ plc_location_id x))) (placed_in b) ()) bs ()"

definition load_resources :: "env \<Rightarrow> project \<Rightarrow> disk \<Rightarrow> (location list \<times> resource_bundle list) result" where
  "load_resources env p d =
     rbind (rfold (load_location_file env p d) (collect_files env d ''locations'' ''.json'') [])
     (\<lambda>ls. rbind (rfold (load_resource_file env p d) (collect_files env d ''resources'' ''.json'')
                    \<lparr>rc_bundles = [], rc_assets = [], rc_placements = []\<rparr>)
     (\<lambda>sc. rbind (check_locations ls (rc_bundles sc))
     (\<lambda>_. Inr (ls, rc_bundles sc))))"

definition put_resources :: "env \<Rightarrow> location list \<Rightarrow> resource_bundle list \<Rightarrow> db \<Rightarrow> db result" where
  "put_resources env ls bs d = rbind (rfold (locations_put (e_json env)) ls d) (rfold put_bundle bs)"

section \<open>AI threads and messages\<close>

definition read_ai_thread_manifest :: "env \<Rightarrow> project \<Rightarrow> path \<Rightarrow> string \<Rightarrow> ai_thread result" where
  "read_ai_thread_manifest env p path raw =
     rbind (parse_ai_thread_manifest (e_crypto env) (e_json env) (e_keys env) p raw)
     (\<lambda>t. rbind (require (path_filename path = th_id t @ ''.json'') (RuntimeError ''AI thread manifest path does not match thread_id''))
     (\<lambda>_. Inr t))"

definition load_thread_file :: "env \<Rightarrow> project \<Rightarrow> disk \<Rightarrow> path \<Rightarrow> ai_thread list \<Rightarrow> ai_thread list result" where
  "load_thread_file env p d path ts =
     rbind (read_manifest d (read_ai_thread_manifest env p path) path)
     (\<lambda>t. rbind (ai_thread_manifest_rel_path (th_id t))
     (\<lambda>expected. rbind (require (path = expected) (fail_at path ''AI thread path does not match id''))
     (\<lambda>_. rbind (require (th_id t \<notin> th_id ` set ts) (fail_at path ''duplicate thread_id''))
     (\<lambda>_. Inr (ts @ [t])))))"

record message_record =
  mr_message :: ai_message
  mr_links :: "card_link list"

definition record_message :: "bool \<Rightarrow> i64 \<Rightarrow> string \<Rightarrow> string \<Rightarrow> ai_message \<Rightarrow> ai_message" where
  "record_message is_trash mtime mid body m =
     m\<lparr>msg_id := mid, msg_content := body,
       msg_thread_id := (if msg_thread_id m = [] then mid else msg_thread_id m),
       msg_role := (if msg_role m = [] then ''assistant'' else msg_role m),
       msg_source := (if msg_source m = [] then ''manual_paste'' else msg_source m),
       msg_created_at := (if msg_created_at m \<le> 0 then mtime else msg_created_at m),
       msg_deleted_at := (if \<not> is_trash then None else if msg_deleted_at m = None then Some mtime else msg_deleted_at m)\<rparr>"

definition record_message_link :: "string \<Rightarrow> ai_message \<Rightarrow> card_link \<Rightarrow> card_link" where
  "record_message_link pid m l = l\<lparr>link_project_id := pid, from_card_id := msg_id m,
     to_type := (if to_type l = [] then ''card'' else to_type l),
     link_kind := (if link_kind l = [] then ''ref'' else link_kind l),
     link_created_at := (if link_created_at l \<le> 0 then msg_created_at m else link_created_at l)\<rparr>"

definition rebuild_message_file :: "env \<Rightarrow> project \<Rightarrow> disk \<Rightarrow> bool \<Rightarrow> path \<Rightarrow> message_record result" where
  "rebuild_message_file env p d is_trash path =
     (case d_files d path of
        None \<Rightarrow> Inl (RuntimeError ''Failed to open for read'')
      | Some raw \<Rightarrow>
     rbind (decode_blob_for_project env p raw)
     (\<lambda>plain. let parsed = parse_ai_message_file (e_yaml env) plain;
                  given = msg_id (mf_message parsed);
                  mid = (if given = [] then path_stem path else given)
     in rbind (require (\<not> (starts_with raw lf_opening \<and> \<not> mf_front_matter parsed)) (RuntimeError ''invalid ai message front matter''))
     (\<lambda>_. rbind (require (\<not> (mf_front_matter parsed \<and> given = [])) (RuntimeError ''message_id missing in front matter''))
     (\<lambda>_. rbind (require (4 \<le> length mid) (RuntimeError ''invalid message_id in file''))
     (\<lambda>_. rbind (if is_trash then ai_message_trash_rel_path mid else ai_message_rel_path mid)
     (\<lambda>expected. rbind (require (path = expected) (RuntimeError ''ai message path does not match message_id''))
     (\<lambda>_. let m = record_message is_trash (e_mtime env path) mid (mf_body parsed) (mf_message parsed)
          in Inr \<lparr>mr_message = m, mr_links = map (record_message_link (proj_id p) m) (mf_links parsed)\<rparr>)))))))"

record rebuild_options =
  tolerate_invalid_ai_messages :: bool
  require_ai_thread_manifests :: bool

definition default_options :: rebuild_options where
  "default_options = \<lparr>tolerate_invalid_ai_messages = False, require_ai_thread_manifests = False\<rparr>"

text \<open>A message that cannot be read is skipped when invalid messages are tolerated.\<close>

definition load_message_files :: "rebuild_options \<Rightarrow> (path \<Rightarrow> message_record result) \<Rightarrow> path list \<Rightarrow> message_record list result" where
  "load_message_files opts load files =
     (if tolerate_invalid_ai_messages opts
      then Inr (concat (map (\<lambda>q. case load q of Inl _ \<Rightarrow> [] | Inr r \<Rightarrow> [r]) files))
      else rmap load files)"

definition load_ai :: "rebuild_options \<Rightarrow> env \<Rightarrow> project \<Rightarrow> disk \<Rightarrow> (ai_thread list \<times> message_record list) result" where
  "load_ai opts env p d =
     rbind (rfold (load_thread_file env p d) (collect_files env d ''ai_threads'' ''.json'') [])
     (\<lambda>ts. rbind (load_message_files opts (rebuild_message_file env p d False) (collect_files env d ''ai_messages'' ''.md''))
     (\<lambda>live. rbind (load_message_files opts (rebuild_message_file env p d True) (collect_files env d ''trash/ai_messages'' ''.md''))
     (\<lambda>trashed. Inr (ts, live @ trashed))))"

text \<open>The first and last time of a thread's messages; a new entry starts with zeros.\<close>

fun note_time :: "ai_message \<Rightarrow> (string \<times> i64 \<times> i64) list \<Rightarrow> (string \<times> i64 \<times> i64) list" where
  "note_time m [] = [(msg_thread_id m, msg_created_at m, max 0 (msg_created_at m))]"
| "note_time m ((tid, a, b) # rest) =
     (if tid = msg_thread_id m
      then (tid, if a = 0 \<or> msg_created_at m < a then msg_created_at m else a, if b < msg_created_at m then msg_created_at m else b) # rest
      else (tid, a, b) # note_time m rest)"

definition thread_times :: "message_record list \<Rightarrow> (string \<times> i64 \<times> i64) list" where
  "thread_times rs = fold (\<lambda>r. note_time (mr_message r)) rs []"

definition inferred_thread :: "string \<Rightarrow> string \<times> i64 \<times> i64 \<Rightarrow> ai_thread" where
  "inferred_thread pid x = \<lparr>th_id = fst x, th_project_id = pid, th_card_id = None, th_title = ''AI Thread '' @ take 8 (fst x),
     th_created_at = fst (snd x), th_updated_at = snd (snd x)\<rparr>"

definition rebuilt_threads :: "rebuild_options \<Rightarrow> project \<Rightarrow> ai_thread list \<Rightarrow> message_record list \<Rightarrow> ai_thread list result" where
  "rebuilt_threads opts p durable rs =
     (if durable \<noteq> []
      then rbind (rfold (\<lambda>x _. require (fst x \<in> th_id ` set durable)
               (RuntimeError (''AI message refers to thread without durable manifest: '' @ fst x))) (thread_times rs) ())
           (\<lambda>_. Inr (sort_by (\<lambda>a b. th_id a < th_id b) durable))
      else if require_ai_thread_manifests opts \<and> thread_times rs \<noteq> []
      then Inl (RuntimeError ''AI messages exist without durable thread manifests'')
      else Inr (map (inferred_thread (proj_id p)) (thread_times rs)))"

definition insert_message_record :: "env \<Rightarrow> project \<Rightarrow> message_record \<Rightarrow> db \<Rightarrow> db result" where
  "insert_message_record env p r d =
     (let m = mr_message r
      in case insert_message m d of
           Inl _ \<Rightarrow> Inl (RuntimeError ''insert ai message failed'')
         | Inr d1 \<Rightarrow>
             rbind (if mr_links r \<noteq> [] then upsert_links (proj_id p) (msg_id m) (mr_links r) d1 else Inr d1)
             (\<lambda>d2. Inr (if e_fts env \<and> msg_deleted_at m = None
                        then fts_upsert_message (msg_id m) (msg_thread_id m) (proj_id p) (msg_content m) d2 else d2)))"

definition put_ai :: "env \<Rightarrow> project \<Rightarrow> ai_thread list \<Rightarrow> message_record list \<Rightarrow> db \<Rightarrow> db result" where
  "put_ai env p ts rs d = rbind (rfold threads_create ts d) (rfold (insert_message_record env p) rs)"

section \<open>The operation\<close>

record rebuild_stats =
  rs_cards :: nat
  rs_links :: nat
  rs_tags :: nat
  rs_milestones :: nat
  rs_ai_threads :: nat
  rs_ai_messages :: nat
  rs_resources :: nat
  rs_assets :: nat
  rs_placements :: nat
  rs_locations :: nat

definition stats_of ::
  "env \<Rightarrow> location list \<Rightarrow> resource_bundle list \<Rightarrow> card_record list \<Rightarrow> ai_thread list \<Rightarrow> message_record list \<Rightarrow> rebuild_stats"
where
  "stats_of env ls bs rs ts ms =
     (let live = filter (\<lambda>r. deleted_at (cr_card r) = None) rs
      in \<lparr>rs_cards = length rs,
          rs_links = sum_list (map (\<lambda>r. length (cr_links r)) rs) + sum_list (map (\<lambda>r. length (mr_links r)) ms),
          rs_tags = sum_list (map (\<lambda>r. length (extract_tags (e_md env) (cr_body r))) live),
          rs_milestones = sum_list (map (\<lambda>r. length (cr_milestones r)) live),
          rs_ai_threads = length ts, rs_ai_messages = length ms, rs_resources = length bs,
          rs_assets = sum_list (map (\<lambda>b. length (rb_assets b)) bs),
          rs_placements = sum_list (map (\<lambda>b. length (placed_in b)) bs), rs_locations = length ls\<rparr>)"

definition rebuild_project_in_transaction ::
  "rebuild_options \<Rightarrow> env \<Rightarrow> project \<Rightarrow> disk \<Rightarrow> db \<Rightarrow> (rebuild_stats \<times> db) result"
where
  "rebuild_project_in_transaction opts env p disk d =
     rbind (clear_project (proj_id p) d)
     (\<lambda>d0. rbind (load_resources env p disk)
     (\<lambda>(ls, bs). rbind (put_resources env ls bs d0)
     (\<lambda>d1. rbind (load_cards env p disk)
     (\<lambda>records. rbind (insert_rounds env records [] d1)
     (\<lambda>d2. rbind (write_links records d2)
     (\<lambda>d3. rbind (load_ai opts env p disk)
     (\<lambda>(durable, messages). rbind (rebuilt_threads opts p durable messages)
     (\<lambda>ts. rbind (put_ai env p ts messages d3)
     (\<lambda>d4. Inr (stats_of env ls bs records ts messages, d4))))))))))"

definition rebuild_project_with :: "rebuild_options \<Rightarrow> env \<Rightarrow> project \<Rightarrow> rebuild_stats op" where
  "rebuild_project_with opts env p =
     op_then (disk_try (root_path p) (recover_files (e_git env)))
     (op_bind (disk_read (root_path p) (\<lambda>disk. disk))
     (\<lambda>disk. op_bind (op_tx (op_bind (db_read (rebuild_project_in_transaction opts env p disk))
         (\<lambda>built. op_bind (op_lift built)
         (\<lambda>(stats, d'). op_then (db_write (\<lambda>_. d')) (op_return stats)))))
     (\<lambda>stats. op_then (disk_try (root_path p) (\<lambda>d. Inr (mutation_finish d))) (op_return stats))))"

definition rebuild_project :: "env \<Rightarrow> project \<Rightarrow> rebuild_stats op" where
  "rebuild_project = rebuild_project_with default_options"

end
