(* ===== verification/Card_Store.thy ===== *)
theory Card_Store
  imports Rebuilder Hierarchy_Repair Card_Placement Tag_Line_Editor
begin

text \<open>
  The card operations of \<open>src/src/card/CardStore.cpp\<close>: they validate a request, write card files, stage
  and commit them, and keep the database rows in step. The per-project lock is not modelled: an
  operation runs alone.
\<close>

section \<open>Files\<close>

definition require_project_key_id :: "project \<Rightarrow> string result" where
  "require_project_key_id p =
     (case project_key_id p of
        None \<Rightarrow> Inl (RuntimeError ''encrypted project missing project_key_id'')
      | Some k \<Rightarrow> if k = [] then Inl (RuntimeError ''encrypted project missing project_key_id'') else Inr k)"

abbreviation encrypted :: "project \<Rightarrow> bool" where
  "encrypted p \<equiv> privacy_mode p = ''encrypted_git''"

definition seal_card :: "env \<Rightarrow> project \<Rightarrow> path \<Rightarrow> string \<Rightarrow> bytes result" where
  "seal_card env p path plain =
     (if encrypted p
      then rbind (require_project_key_id p)
             (\<lambda>k. encrypt_project_blob (e_crypto env) (e_json env) (e_keys env) (e_iv env path) (proj_id p) k plain)
      else Inr plain)"

definition write_card_file ::
  "env \<Rightarrow> project \<Rightarrow> card \<Rightarrow> card_link list \<Rightarrow> milestone list \<Rightarrow> string \<Rightarrow> unit op"
where
  "write_card_file env p c links ms content =
     op_bind (op_lift (seal_card env p (rel_path c) (render_card_front_matter (e_yaml env) c links ms @ content)))
       (\<lambda>bytes. disk_try (root_path p) (git_write_file (rel_path c) bytes))"

definition decode_card_blob :: "env \<Rightarrow> project \<Rightarrow> bytes \<Rightarrow> string result" where
  "decode_card_blob env p blob =
     (if \<not> encrypted p then Inr blob
      else rbind (require_project_key_id p)
             (\<lambda>k. decrypt_project_blob (e_crypto env) (e_json env) (e_keys env) (proj_id p) k blob))"

text \<open>\<open>assert_encryption_index_paths_safe\<close>: no staged file under the protected directories is plaintext.\<close>

definition staged_unsafe :: "git_lib \<Rightarrow> git_repo \<Rightarrow> path \<Rightarrow> bool" where
  "staged_unsafe lib r p \<longleftrightarrow>
     (starts_with p ''cards/'' \<or> starts_with p ''resources/'' \<or> starts_with p ''locations/'')
     \<and> (case index_of_repo r p of
          None \<Rightarrow> False
        | Some i \<Rightarrow> (case blob_lookup lib i of
                      None \<Rightarrow> True
                    | Some data \<Rightarrow> \<not> starts_with data (envelope_magic @ [newline])))"

definition assert_encryption_index_paths_safe :: "git_lib \<Rightarrow> path list \<Rightarrow> disk \<Rightarrow> unit result" where
  "assert_encryption_index_paths_safe lib paths d =
     (case d_repo d of
        None \<Rightarrow> Inl (PrivacyError EncryptionSafetyCheckFailed ''failed to open git repository for privacy safety check'')
      | Some r \<Rightarrow>
          let unsafe_paths = filter (staged_unsafe lib r) paths
          in require (unsafe_paths = [])
               (PrivacyError EncryptionSafetyCheckFailed
                  (''Privacy safety check failed: staged blobs are plaintext. Unsafe paths:''
                     @ concat (map (\<lambda>p. '' '' @ p) unsafe_paths))))"

definition assert_project_staged_blobs_safe :: "env \<Rightarrow> project \<Rightarrow> path list \<Rightarrow> disk \<Rightarrow> unit result" where
  "assert_project_staged_blobs_safe env p paths d =
     (if \<not> encrypted p then Inr () else assert_encryption_index_paths_safe (e_git env) paths d)"

definition check_rel_path :: "card \<Rightarrow> unit result" where
  "check_rel_path c =
     rbind (card_rel_path (card_id c))
       (\<lambda>expected. require (rel_path c = expected) (RuntimeError ''card rel_path does not match card_id''))"

text \<open>Reading and decoding a card file of the project; a missing file is the second argument's exception.\<close>

definition read_parsed :: "env \<Rightarrow> project \<Rightarrow> path \<Rightarrow> disk \<Rightarrow> (bytes \<times> parsed_file) result" where
  "read_parsed env p path d =
     (case d_files d path of
        None \<Rightarrow> Inl (RuntimeError ''card content missing'')
      | Some raw \<Rightarrow> rbind (decode_card_blob env p raw) (\<lambda>plain. Inr (raw, parse_card_file (e_yaml env) plain)))"

definition read_card_content_locked :: "env \<Rightarrow> project \<Rightarrow> card \<Rightarrow> disk \<Rightarrow> string option result" where
  "read_card_content_locked env p c d =
     rbind (check_rel_path c)
       (\<lambda>_. case d_files d (rel_path c) of
              None \<Rightarrow> Inr None
            | Some raw \<Rightarrow> rbind (decode_card_blob env p raw)
                (\<lambda>plain. Inr (Some (pf_body (parse_card_file (e_yaml env) plain)))))"

section \<open>Projects and cards\<close>

definition require_project :: "env \<Rightarrow> string \<Rightarrow> project op" where
  "require_project env pid =
     op_bind (db_read (projects_get pid))
       (\<lambda>po. case po of
          None \<Rightarrow> op_lift (Inl (RuntimeError (''project not found: '' @ pid)))
        | Some p \<Rightarrow>
            op_bind (disk_read (root_path p) d_journal)
              (\<lambda>j. op_then (op_when (j \<noteq> None) (op_bind (rebuild_project env p) (\<lambda>_. op_return ()))) (op_return p)))"

definition require_card :: "string \<Rightarrow> card op" where
  "require_card cid =
     op_bind (db_read (cards_get cid))
       (\<lambda>co. case co of None \<Rightarrow> op_lift (Inl (RuntimeError (''card not found: '' @ cid))) | Some c \<Rightarrow> op_return c)"

definition open_project :: "env \<Rightarrow> project \<Rightarrow> unit op" where
  "open_project env p =
     op_then (disk_try (root_path p) (\<lambda>d. Inr (open_or_init (e_git env) d)))
       (case git_remote_url p of
          None \<Rightarrow> op_return ()
        | Some url \<Rightarrow> disk_try (root_path p) (set_remote ''origin'' url))"

definition stage_and_check :: "env \<Rightarrow> project \<Rightarrow> path \<Rightarrow> unit op" where
  "stage_and_check env p path =
     op_then (disk_try (root_path p) (stage_path (e_git env) path))
       (disk_check (root_path p) (assert_project_staged_blobs_safe env p [path]))"

definition commit_op :: "env \<Rightarrow> project \<Rightarrow> string \<Rightarrow> unit op" where
  "commit_op env p msg = disk_try (root_path p) (git_commit_op (e_git env) msg (e_now env))"

definition index_card :: "env \<Rightarrow> card \<Rightarrow> string \<Rightarrow> i64 \<Rightarrow> unit op" where
  "index_card env c content now =
     op_then (op_when (e_fts env) (db_write (fts_upsert_card (card_id c) (project_id c) (title c) content)))
       (db_try (set_tags_for_card (project_id c) (card_id c) (extract_tags (e_md env) content) now))"

section \<open>Creating cards\<close>

definition remove_file :: "path \<Rightarrow> disk \<Rightarrow> disk result" where
  "remove_file p d = Inr (d\<lparr>d_files := (d_files d)(p := None)\<rparr>)"

text \<open>\<open>card_repo_.create\<close> with the handler that removes the file it was written for.\<close>

definition create_row_or_unlink :: "project \<Rightarrow> card \<Rightarrow> unit op" where
  "create_row_or_unlink p c s =
     (case db_try (cards_create c) s of
        (Inl e, t) \<Rightarrow> (case disk_try (root_path p) (remove_file (rel_path c)) t of
                         (Inl e', u) \<Rightarrow> (Inl e', u) | (Inr _, u) \<Rightarrow> (Inl e, u))
      | (Inr x, t) \<Rightarrow> (Inr x, t))"

definition create_card :: "env \<Rightarrow> card \<Rightarrow> string \<Rightarrow> double option \<Rightarrow> unit op" where
  "create_card env c0 content explicit_sort_key =
     op_bind (require_project env (project_id c0))
     (\<lambda>p. op_then (open_project env p)
     (op_bind (db_read (validate_card_parent c0))
     (\<lambda>valid. op_then (op_lift valid)
     (op_bind (db_read (next_sort_key (project_id c0) (parent_card_id c0)))
     (\<lambda>last_key.
        let c1 = c0\<lparr>sort_key := (case explicit_sort_key of Some k \<Rightarrow> k | None \<Rightarrow> last_key)\<rparr>
        in op_bind (op_lift (card_rel_path (card_id c1)))
     (\<lambda>expected. op_then (op_require (rel_path c1 = [] \<or> rel_path c1 = expected)
                            (RuntimeError ''card rel_path does not match card_id''))
     (let c = c1\<lparr>rel_path := expected\<rparr>
      in op_bind (db_read (cards_get (card_id c)))
     (\<lambda>existing. op_then (op_require (existing = None) (RuntimeError ''conflict: card_id already exists''))
     (op_bind (disk_read (root_path p) (\<lambda>d. d_files d (rel_path c)))
     (\<lambda>file. op_then (op_require (file = None) (RuntimeError ''conflict: card file already exists''))
     (op_bind (db_read (list_outgoing (project_id c) (card_id c)))
     (\<lambda>links. op_then (write_card_file env p c links [] content)
     (op_then (stage_and_check env p (rel_path c))
     (op_then (create_row_or_unlink p c)
     (op_then (index_card env c content (created_at c))
     (commit_op env p (''Add card '' @ title c)))))))))))))))))"

record batch_input =
  bi_card_id :: string
  bi_title :: string
  bi_content :: string
  bi_created_at :: i64
  bi_updated_at :: i64
  bi_links :: "card_link list"
  bi_milestones :: "milestone list"

definition batch_links :: "(string \<times> string) list \<Rightarrow> card \<Rightarrow> card_link list \<Rightarrow> card_link list" where
  "batch_links remap c links =
     concat (map (\<lambda>l. case map_of remap (to_card_id l) of
                        None \<Rightarrow> []
                      | Some target \<Rightarrow>
                          if to_type l \<noteq> ''card'' then []
                          else [l\<lparr>to_card_id := target, link_project_id := project_id c, from_card_id := card_id c,
                                  link_created_at := (if link_created_at l \<le> 0 then updated_at c else link_created_at l)\<rparr>])
       links)"

definition batch_milestones :: "string list \<Rightarrow> card \<Rightarrow> milestone list \<Rightarrow> milestone list" where
  "batch_milestones ids c ms =
     map2 (\<lambda>i m. m\<lparr>milestone_id := i, ms_project_id := project_id c, ms_card_id := card_id c,
            ms_created_at := (if ms_created_at m \<le> 0 then updated_at c else ms_created_at m),
            ms_updated_at := (if ms_updated_at m \<le> 0 then updated_at c else ms_updated_at m)\<rparr>) ids ms"

text \<open>The new id of the last item with an old id, as \<open>id_remap[item.card_id] = ...\<close> overwrites; the
  generator \<open>uuid_v4\<close> hands out the ids of one item's milestones.\<close>

definition batch_item :: "env \<Rightarrow> project \<Rightarrow> string \<Rightarrow> (string \<times> string) list \<Rightarrow> batch_input \<times> string list \<Rightarrow> path op" where
  "batch_item env p pid remap item_ids =
     (let item = fst item_ids; cid = the (map_of remap (bi_card_id item))
      in op_bind (op_lift (card_rel_path cid))
     (\<lambda>path. op_bind (db_read (next_sort_key (pid) None))
     (\<lambda>key.
        let c = empty_card\<lparr>card_id := cid, project_id := pid, title := bi_title item, rel_path := path,
                  sort_key := key, created_at := bi_created_at item, updated_at := bi_updated_at item\<rparr>;
            links = batch_links remap c (bi_links item);
            ms = batch_milestones (snd item_ids) c (bi_milestones item)
        in op_then (write_card_file env p c links ms (bi_content item))
           (op_then (db_try (cards_create c))
           (op_then (index_card env c (bi_content item) (updated_at c))
           (op_then (op_when (links \<noteq> []) (db_try (upsert_links (pid) cid links)))
           (op_then (op_when (ms \<noteq> []) (db_try (replace_milestones (pid) cid ms)))
           (op_return path))))))))"

definition create_batch ::
  "env \<Rightarrow> (int \<times> byte list) list \<Rightarrow> string list list \<Rightarrow> string \<Rightarrow> batch_input list \<Rightarrow> string \<Rightarrow> unit op"
where
  "create_batch env draws ms_ids pid items msg =
     op_bind (require_project env pid)
     (\<lambda>p. op_then (open_project env p)
     (op_bind (op_lift (rmap (\<lambda>d. generate_id (id_scheme p) (fst d) (snd d)) draws))
     (\<lambda>ids. let remap = rev (zip (map bi_card_id items) ids)
            in op_bind (op_tx (op_map (batch_item env p pid remap) (zip items ms_ids)))
     (\<lambda>staged. op_then (disk_try (root_path p) (stage_paths (e_git env) staged))
     (op_then (disk_check (root_path p) (assert_project_staged_blobs_safe env p staged))
     (op_when (items \<noteq> []) (commit_op env p msg)))))))"

section \<open>Editing one card\<close>

definition update_content :: "env \<Rightarrow> string \<Rightarrow> string \<Rightarrow> string option \<Rightarrow> i64 \<Rightarrow> unit op" where
  "update_content env cid content new_title now =
     op_bind (require_card cid)
     (\<lambda>c. op_bind (require_project env (project_id c))
     (\<lambda>p. op_then (open_project env p)
     (op_then (op_lift (check_rel_path c))
     (op_bind (disk_check (root_path p)
         (\<lambda>d. case d_files d (rel_path c) of
                None \<Rightarrow> Inr None
              | Some raw \<Rightarrow> rbind (decode_card_blob env p raw) (\<lambda>plain. Inr (Some (parse_card_file (e_yaml env) plain)))))
     (\<lambda>parsed.
        let body_unchanged = (case parsed of None \<Rightarrow> False | Some f \<Rightarrow> pf_body f = content);
            existing_milestones = (case parsed of None \<Rightarrow> [] | Some f \<Rightarrow> pf_milestones f);
            shown_title = (case new_title of None \<Rightarrow> title c | Some t \<Rightarrow> t);
            file_changed = (\<not> body_unchanged \<or> shown_title \<noteq> title c)
        in op_bind (db_read (list_outgoing (project_id c) (card_id c)))
     (\<lambda>links. op_then (op_when file_changed
                 (op_then (write_card_file env p (c\<lparr>title := shown_title, updated_at := now\<rparr>) links existing_milestones content)
                    (stage_and_check env p (rel_path c))))
     (op_then (db_write (case new_title of Some t \<Rightarrow> update_title cid t now | None \<Rightarrow> touch_updated cid now))
     (op_then (index_card env (c\<lparr>title := shown_title\<rparr>) content now)
     (op_when file_changed (commit_op env p (''Update card '' @ shown_title)))))))))))"

text \<open>Rewriting the front matter of a card's file: \<open>None\<close> when the bytes would not change.\<close>

definition rewritten ::
  "env \<Rightarrow> project \<Rightarrow> card \<Rightarrow> card_link list \<Rightarrow> milestone list \<Rightarrow> string \<Rightarrow> bytes \<Rightarrow> bytes option result"
where
  "rewritten env p c links ms body raw =
     rbind (seal_card env p (rel_path c) (render_card_front_matter (e_yaml env) c links ms @ body))
       (\<lambda>updated_raw. Inr (if updated_raw = raw then None else Some updated_raw))"

definition move_card :: "env \<Rightarrow> string \<Rightarrow> bool \<Rightarrow> string option \<Rightarrow> double option \<Rightarrow> i64 \<Rightarrow> unit op" where
  "move_card env cid has_parent parent new_key now =
     op_bind (require_card cid)
     (\<lambda>c0. op_bind (require_project env (project_id c0))
     (\<lambda>p. op_bind (require_card cid)
     (\<lambda>c. op_then (op_require (deleted_at c = None) (RuntimeError ''card already deleted''))
     (op_then (open_project env p)
     (op_then (op_lift (check_rel_path c))
     (let next_parent = (if has_parent then parent else parent_card_id c)
      in op_bind (db_read (validate_card_parent (c\<lparr>parent_card_id := next_parent\<rparr>)))
     (\<lambda>valid. op_then (op_lift valid)
     (op_bind (db_read (next_sort_key (project_id c) next_parent))
     (\<lambda>last_key.
        let next_sort = (case new_key of Some k \<Rightarrow> k
              | None \<Rightarrow> if has_parent \<and> next_parent \<noteq> parent_card_id c then last_key else sort_key c)
        in if \<not> (next_parent \<noteq> parent_card_id c \<or> \<not> deq next_sort (sort_key c)) then op_return ()
           else op_bind (disk_check (root_path p) (read_parsed env p (rel_path c)))
     (\<lambda>(raw, parsed). op_bind (db_read (list_outgoing (project_id c) (card_id c)))
     (\<lambda>links.
        let moved = c\<lparr>parent_card_id := next_parent, sort_key := next_sort, updated_at := now\<rparr>
        in op_bind (op_lift (rewritten env p moved links (pf_milestones parsed) (pf_body parsed) raw))
     (\<lambda>out. case out of
          None \<Rightarrow> op_return ()
        | Some bytes \<Rightarrow>
            op_then (disk_try (root_path p) (git_write_file (rel_path c) bytes))
            (op_then (stage_and_check env p (rel_path c))
            (op_then (db_try (cards_move cid next_parent next_sort now))
            (op_then (op_when (e_fts env) (db_write (fts_upsert_card (card_id c) (project_id c) (title c) (pf_body parsed))))
            (commit_op env p (''Move card '' @ title c)))))))))))))))))"

definition update_links :: "env \<Rightarrow> string \<Rightarrow> i64 \<Rightarrow> unit op" where
  "update_links env cid now =
     op_bind (require_card cid)
     (\<lambda>c. op_bind (require_project env (project_id c))
     (\<lambda>p. op_then (open_project env p)
     (op_then (op_lift (check_rel_path c))
     (op_bind (disk_check (root_path p) (read_parsed env p (rel_path c)))
     (\<lambda>(raw, parsed). op_bind (db_read (list_outgoing (project_id c) (card_id c)))
     (\<lambda>links. op_bind (op_lift (rewritten env p (c\<lparr>updated_at := now\<rparr>) links (pf_milestones parsed) (pf_body parsed) raw))
     (\<lambda>out. case out of
          None \<Rightarrow> op_return ()
        | Some bytes \<Rightarrow>
            op_then (disk_try (root_path p) (git_write_file (rel_path c) bytes))
            (op_then (stage_and_check env p (rel_path c))
            (op_then (db_write (touch_updated cid now))
            (commit_op env p (''Update links for '' @ title c)))))))))))"

definition update_milestones :: "env \<Rightarrow> string \<Rightarrow> i64 \<Rightarrow> unit op" where
  "update_milestones env cid now =
     op_bind (require_card cid)
     (\<lambda>c. op_bind (require_project env (project_id c))
     (\<lambda>p. op_then (open_project env p)
     (op_then (op_lift (check_rel_path c))
     (op_bind (disk_check (root_path p) (read_parsed env p (rel_path c)))
     (\<lambda>(raw, parsed). op_bind (db_read (list_milestones (project_id c) (card_id c)))
     (\<lambda>ms. op_bind (op_lift (rewritten env p (c\<lparr>updated_at := now\<rparr>) (pf_links parsed) ms (pf_body parsed) raw))
     (\<lambda>out. case out of
          None \<Rightarrow> op_return ()
        | Some bytes \<Rightarrow>
            op_then (disk_try (root_path p) (git_write_file (rel_path c) bytes))
            (op_then (stage_and_check env p (rel_path c))
            (op_then (db_write (touch_updated cid now))
            (commit_op env p (''Update milestones for '' @ title c)))))))))))"

record milestone_update =
  mu_start_at :: "i64 option"
  mu_has_end_at :: bool
  mu_end_at :: "i64 option"
  mu_all_day :: "bool option"
  mu_has_kind :: bool
  mu_kind :: "string option"
  mu_has_description :: bool
  mu_description :: "string option"

definition edit_milestone :: "milestone_update \<Rightarrow> milestone \<Rightarrow> milestone" where
  "edit_milestone u m = m\<lparr>
     start_at := (case mu_start_at u of Some t \<Rightarrow> t | None \<Rightarrow> start_at m),
     end_at := (if mu_has_end_at u then mu_end_at u else end_at m),
     all_day := (case mu_all_day u of Some b \<Rightarrow> b | None \<Rightarrow> all_day m),
     ms_kind := (if mu_has_kind u then mu_kind u else ms_kind m),
     ms_description := (if mu_has_description u then mu_description u else ms_description m)\<rparr>"

primrec replace_first :: "('a \<Rightarrow> bool) \<Rightarrow> 'a \<Rightarrow> 'a list \<Rightarrow> 'a list" where
  "replace_first q y [] = []"
| "replace_first q y (x # xs) = (if q x then y # xs else x # replace_first q y xs)"

definition update_milestone ::
  "env \<Rightarrow> string \<Rightarrow> string \<Rightarrow> string \<Rightarrow> milestone_update \<Rightarrow> i64 \<Rightarrow> milestone option op"
where
  "update_milestone env pid cid mid u now =
     op_bind (db_read (\<lambda>d. (cards_get cid d, list_milestones pid cid d)))
     (\<lambda>(co, ms). case co of
        None \<Rightarrow> op_return None
      | Some c \<Rightarrow>
          if project_id c \<noteq> pid \<or> deleted_at c \<noteq> None then op_return None
          else (case find (\<lambda>m. milestone_id m = mid) ms of
            None \<Rightarrow> op_return None
          | Some m0 \<Rightarrow>
              let m = edit_milestone u m0
              in op_then (op_require (case end_at m of None \<Rightarrow> True | Some e \<Rightarrow> start_at m \<le> e)
                            (InvalidArgument ''milestone end_at must not be before start_at''))
                 (if m = m0 then op_return (Some m0)
                  else let m' = m\<lparr>ms_updated_at := now\<rparr>;
                           ms' = replace_first (\<lambda>x. milestone_id x = mid) m' ms
                       in op_bind (require_project env pid)
                  (\<lambda>p. op_then (open_project env p)
                  (op_then (op_lift (check_rel_path c))
                  (op_bind (disk_check (root_path p) (read_parsed env p (rel_path c)))
                  (\<lambda>(raw, parsed).
                     op_then (write_card_file env p (c\<lparr>updated_at := now\<rparr>) (pf_links parsed) ms' (pf_body parsed))
                     (op_then (stage_and_check env p (rel_path c))
                     (op_then (db_try (replace_milestones pid cid ms'))
                     (op_then (db_write (touch_updated cid now))
                     (op_then (commit_op env p (''Update milestone for '' @ title c))
                     (op_return (Some m')))))))))))))"

section \<open>Changes of several cards\<close>

record card_change =
  ch_current :: card
  ch_target :: parsed_file

definition placement_change :: "env \<Rightarrow> project \<Rightarrow> card \<Rightarrow> card_change op" where
  "placement_change env p placed =
     op_then (op_lift (check_rel_path placed))
     (op_bind (disk_check (root_path p) (read_parsed env p (rel_path placed)))
     (\<lambda>(raw, parsed). op_bind (db_read (list_outgoing (project_id placed) (card_id placed)))
     (\<lambda>links. op_return \<lparr>ch_current = placed, ch_target = parsed\<lparr>pf_card := placed, pf_links := links\<rparr>\<rparr>)))"

text \<open>The paths of one change: where the card's file is and where it will be.\<close>

record change_paths =
  cp_live :: path
  cp_trash :: path
  cp_source :: path
  cp_target :: path

definition change_paths_of :: "card_change \<Rightarrow> change_paths result" where
  "change_paths_of ch =
     rbind (card_rel_path (card_id (ch_current ch)))
     (\<lambda>live. rbind (card_trash_rel_path (card_id (ch_current ch)))
     (\<lambda>trash. Inr \<lparr>cp_live = live, cp_trash = trash,
        cp_source = (if deleted_at (ch_current ch) \<noteq> None then trash else live),
        cp_target = (if deleted_at (pf_card (ch_target ch)) \<noteq> None then trash else live)\<rparr>))"

definition check_change :: "disk \<Rightarrow> card_change \<Rightarrow> (card_change \<times> change_paths) result" where
  "check_change d ch =
     rbind (change_paths_of ch)
     (\<lambda>ps. rbind (require (rel_path (ch_current ch) = cp_live ps
                    \<or> (deleted_at (ch_current ch) \<noteq> None \<and> rel_path (ch_current ch) = cp_trash ps))
                    (RuntimeError ''card rel_path does not match card_id''))
     (\<lambda>_. rbind (require (d_files d (cp_source ps) \<noteq> None) (RuntimeError ''card content missing''))
     (\<lambda>_. rbind (require (cp_source ps = cp_target ps \<or> d_files d (cp_target ps) = None)
                    (RuntimeError ''conflict: destination card file already exists''))
     (\<lambda>_. Inr (ch\<lparr>ch_target := (ch_target ch)\<lparr>pf_card := (pf_card (ch_target ch))\<lparr>rel_path := cp_live ps\<rparr>\<rparr>\<rparr>, ps)))))"

definition change_renames :: "(card_change \<times> change_paths) list \<Rightarrow> (path \<times> path) list" where
  "change_renames cs =
     map (\<lambda>(_, ps). (cp_source ps, cp_target ps)) (filter (\<lambda>(_, ps). cp_source ps \<noteq> cp_target ps) cs)"

definition change_path_set :: "(card_change \<times> change_paths) list \<Rightarrow> path list" where
  "change_path_set cs = remdups (concat (map (\<lambda>(_, ps). [cp_live ps, cp_trash ps]) cs))"

definition change_write :: "env \<Rightarrow> project \<Rightarrow> card_change \<Rightarrow> (path \<times> bytes) result" where
  "change_write env p ch =
     (let f = ch_target ch; c = pf_card f
      in rbind (if deleted_at c \<noteq> None
                then rbind (card_trash_rel_path (card_id c)) (\<lambda>t. Inr (c\<lparr>rel_path := t\<rparr>)) else Inr c)
         (\<lambda>durable. rbind (seal_card env p (rel_path durable)
              (render_card_front_matter (e_yaml env) durable (pf_links f) (pf_milestones f) @ pf_body f))
            (\<lambda>bytes. Inr (rel_path durable, bytes))))"

text \<open>The rows of one changed card.\<close>

definition change_rows :: "env \<Rightarrow> parsed_file \<Rightarrow> db \<Rightarrow> db result" where
  "change_rows env f d =
     (let c = pf_card f
      in rbind (restore_snapshot c d)
      (\<lambda>d1. let d2 = delete_links_from (project_id c) (card_id c) d1
            in rbind (if pf_links f \<noteq> [] then upsert_links (project_id c) (card_id c) (pf_links f) d2 else Inr d2)
      (\<lambda>d3. if deleted_at c \<noteq> None
            then let d4 = (if e_fts env then fts_delete_card (card_id c) d3 else d3)
                 in Inr (delete_milestones (project_id c) (card_id c) (delete_tags_for_card (project_id c) (card_id c) d4))
            else let d4 = (if e_fts env then fts_upsert_card (card_id c) (project_id c) (title c) (pf_body f) d3 else d3)
                 in rbind (set_tags_for_card (project_id c) (card_id c) (extract_tags (e_md env) (pf_body f)) (updated_at c) d4)
                      (replace_milestones (project_id c) (card_id c) (pf_milestones f)))))"

text \<open>The \<open>try\<close> block: a failure rolls the journaled mutation back and is thrown again.\<close>

definition run_mutation ::
  "env \<Rightarrow> project \<Rightarrow> journal \<Rightarrow> (path \<times> path) list \<Rightarrow> (path \<times> bytes) list \<Rightarrow> string \<Rightarrow> unit op"
where
  "run_mutation env p saved renames writes msg s =
     (let d = st_disks s (root_path p);
          put = (\<lambda>x. s\<lparr>st_disks := (st_disks s)(root_path p := x)\<rparr>);
          steps = mutation_steps (e_git env) saved renames writes
                    (assert_project_staged_blobs_safe env p (map fst writes)) msg (e_now env)
      in case run_steps (e_fault env) steps d of
           (d', None) \<Rightarrow> (Inr (), put (mutation_finish d'))
         | (d', Some e) \<Rightarrow>
             (case mutation_rollback (e_git env) saved d' of
                Inl e' \<Rightarrow> (Inl e', put d')
              | Inr d'' \<Rightarrow> (Inl e, put d'')))"

definition apply_card_changes :: "env \<Rightarrow> project \<Rightarrow> card_change list \<Rightarrow> string \<Rightarrow> unit op" where
  "apply_card_changes env p changes msg =
     op_bind (disk_check (root_path p) (\<lambda>d. rmap (check_change d) changes))
     (\<lambda>cs. op_bind (op_lift (rmap (\<lambda>(ch, _). change_write env p ch) cs))
     (\<lambda>writes. op_bind (disk_check (root_path p)
                   (mutation_new (change_path_set cs) (file_changes (change_renames cs) writes)))
     (\<lambda>saved. op_tx
        (op_then (db_try (\<lambda>d. rfold (\<lambda>(ch, _). change_rows env (ch_target ch)) cs d))
                 (run_mutation env p saved (change_renames cs) writes msg)))))"

definition apply_target_and_placements ::
  "env \<Rightarrow> project \<Rightarrow> card \<Rightarrow> parsed_file \<Rightarrow> card list \<Rightarrow> string \<Rightarrow> unit op"
where
  "apply_target_and_placements env p current target placed msg =
     op_bind (op_map (placement_change env p) placed)
       (\<lambda>changes. apply_card_changes env p (\<lparr>ch_current = current, ch_target = target\<rparr> # changes) msg)"

section \<open>Moving by intent\<close>

definition move_to :: "env \<Rightarrow> string \<Rightarrow> string \<Rightarrow> placement_request \<Rightarrow> i64 \<Rightarrow> (card \<times> string option) op" where
  "move_to env pid cid req now =
     op_bind (db_read (cards_get cid))
     (\<lambda>co. case co of
        None \<Rightarrow> op_lift (Inl (RuntimeError ''card_not_found''))
      | Some c0 \<Rightarrow>
     op_then (op_require (deleted_at c0 = None) (RuntimeError ''card_not_found''))
     (op_then (op_require (project_id c0 = pid) (RuntimeError ''cross_project_move_forbidden''))
     (op_bind (require_project env pid)
     (\<lambda>p. op_bind (db_read (resolve_placement pid cid req now))
     (\<lambda>resolved. op_bind (op_lift resolved)
     (\<lambda>placement. op_bind (db_read (cards_get cid))
     (\<lambda>co. case co of
        None \<Rightarrow> op_lift (Inl (RuntimeError ''card_not_found''))
      | Some c \<Rightarrow>
          if res_parent placement = parent_card_id c \<and> deq (res_sort_key placement) (sort_key c)
             \<and> sibling_changes placement = []
          then op_return (c, moved_into_title placement)
          else op_then (open_project env p)
               (op_then (op_bind (op_lift (card_rel_path cid))
                  (\<lambda>expected. op_require (rel_path c = expected) (RuntimeError ''card rel_path does not match card_id'')))
               (op_bind (db_read (validate_card_parent (c\<lparr>parent_card_id := res_parent placement\<rparr>)))
               (\<lambda>valid. op_then (op_lift valid)
               (op_bind (disk_check (root_path p) (read_parsed env p (rel_path c)))
               (\<lambda>(raw, parsed). op_bind (db_read (list_outgoing (project_id c) cid))
               (\<lambda>links. op_then
                  (apply_target_and_placements env p c
                     (parsed\<lparr>pf_card := c\<lparr>parent_card_id := res_parent placement, sort_key := res_sort_key placement,
                        updated_at := now\<rparr>, pf_links := links\<rparr>)
                     (sibling_changes placement) (''Move card '' @ title c))
                  (op_bind (db_read (cards_get cid)) (\<lambda>co. op_return (the co, moved_into_title placement))))))))))))))))"

section \<open>Trash and restore\<close>

datatype trash_children = Promote | TrashSubtree

text \<open>\<open>trashed\<close>: the change that puts a live card into the trash.\<close>

definition trashed_change :: "env \<Rightarrow> project \<Rightarrow> i64 \<Rightarrow> card \<Rightarrow> card_change op" where
  "trashed_change env p now live =
     op_bind (placement_change env p live)
       (\<lambda>ch. op_return (ch\<lparr>ch_target := (ch_target ch)\<lparr>pf_card :=
          (pf_card (ch_target ch))\<lparr>deleted_at := Some now, updated_at := now\<rparr>\<rparr>\<rparr>))"

text \<open>
  The walk over the subtree: a stack of cards whose children are still to be seen, and the ids seen.
  It returns the cards in the order in which they are found, trashed ones included.
\<close>

fun visit_children :: "card list \<Rightarrow> string list \<Rightarrow> string list \<Rightarrow> card list \<times> string list \<times> string list" where
  "visit_children [] pending visited = ([], pending, visited)"
| "visit_children (c # cs) pending visited =
     (if card_id c \<in> set visited then visit_children cs pending visited
      else case visit_children cs (pending @ [card_id c]) (card_id c # visited) of
             (found, pending', visited') \<Rightarrow> (c # found, pending', visited'))"

lemma visit_children_all:
  assumes "visit_children cs pending visited = (found, pending', visited')"
  shows "pending' = pending @ map card_id found \<and> set visited' = set visited \<union> card_id ` set found
     \<and> set found \<subseteq> set cs \<and> card_id ` set found \<inter> set visited = {} \<and> distinct (map card_id found)
     \<and> card_id ` set cs \<subseteq> set visited'"
  using assms
proof (induction cs arbitrary: pending visited found pending' visited')
  case (Cons c cs)
  show ?case
  proof (cases "card_id c \<in> set visited")
    case True
    with Cons.prems have "visit_children cs pending visited = (found, pending', visited')" by simp
    from Cons.IH [OF this] True show ?thesis by auto
  next
    case False
    with Cons.prems obtain f where f: "visit_children cs (pending @ [card_id c]) (card_id c # visited) = (f, pending', visited')"
      "found = c # f" by (auto split: prod.splits)
    from Cons.IH [OF f(1)] f(2) False show ?thesis by auto
  qed
qed simp

definition children_in :: "card list \<Rightarrow> string \<Rightarrow> card list" where
  "children_in rows parent = filter (\<lambda>c. parent_card_id c = Some parent) rows"

lemma visit_children_measure:
  assumes "pending \<noteq> []" and "visit_children (children_in rows (last pending)) (butlast pending) visited = (found, pending', visited')"
  shows "card (card_id ` set rows - set visited') < card (card_id ` set rows - set visited)
     \<or> card (card_id ` set rows - set visited') = card (card_id ` set rows - set visited) \<and> length pending' < length pending"
proof -
  note v = visit_children_all [OF assms(2)]
  show ?thesis
  proof (cases found)
    case Nil
    with v assms(1) show ?thesis by simp
  next
    case (Cons c f)
    with v have "card_id c \<in> card_id ` set rows - set visited" "card_id c \<in> set visited'" "set visited \<subseteq> set visited'"
      by (auto simp: children_in_def)
    then have "card_id ` set rows - set visited' \<subset> card_id ` set rows - set visited" by blast
    then show ?thesis by (simp add: psubset_card_mono)
  qed
qed

function subtree_walk :: "card list \<Rightarrow> string list \<Rightarrow> string list \<Rightarrow> card list" where
  "subtree_walk rows pending visited =
     (if pending = [] then []
      else case visit_children (children_in rows (last pending)) (butlast pending) visited of
             (found, pending', visited') \<Rightarrow> found @ subtree_walk rows pending' visited')"
  by pat_completeness auto

termination
proof (relation "measures [\<lambda>(rows, pending, visited). card (card_id ` set rows - set visited), \<lambda>(rows, pending, visited). length pending]",
    goal_cases)
  case (2 rows pending visited found y pending' visited')
  then have "visit_children (children_in rows (last pending)) (butlast pending) visited = (found, pending', visited')" by simp
  from visit_children_measure [OF 2(1) this] show ?case by simp
qed simp

declare subtree_walk.simps [simp del]

definition subtree_of :: "card list \<Rightarrow> string \<Rightarrow> card list" where
  "subtree_of rows cid = subtree_walk rows [cid] [cid]"

definition trash :: "env \<Rightarrow> string \<Rightarrow> i64 \<Rightarrow> trash_children \<Rightarrow> unit op" where
  "trash env cid now children =
     op_bind (require_card cid)
     (\<lambda>c0. op_bind (require_project env (project_id c0))
     (\<lambda>p. op_bind (require_card cid)
     (\<lambda>c. op_then (op_require (deleted_at c = None) (RuntimeError ''card already deleted''))
     (op_then (open_project env p)
     (op_then (op_bind (op_lift (card_rel_path cid))
        (\<lambda>expected. op_require (rel_path c = expected) (RuntimeError ''card rel_path does not match card_id'')))
     (op_bind (trashed_change env p now c)
     (\<lambda>change.
        case children of
          Promote \<Rightarrow>
            op_bind (db_read (promoted_card_children c now))
              (\<lambda>promoted. op_bind (op_lift promoted)
              (\<lambda>placed. apply_target_and_placements env p c (ch_target change) placed (''Delete card '' @ title c)))
        | TrashSubtree \<Rightarrow>
            op_bind (db_read (list_all_cards (proj_id p)))
              (\<lambda>rows. op_bind (op_map (trashed_change env p now) (filter (\<lambda>d. deleted_at d = None) (subtree_of rows cid)))
              (\<lambda>changes. apply_card_changes env p (change # changes)
                 (if changes = [] then ''Delete card '' @ title c
                  else ''Delete card '' @ title c @ '' and '' @ nat_to_string (length changes)
                         @ (if length changes = 1 then '' descendant'' else '' descendants'')))))))))))"

definition plan_repair :: "env \<Rightarrow> string \<Rightarrow> repair_plan op" where
  "plan_repair env pid =
     op_bind (require_project env pid)
       (\<lambda>_. op_bind (db_read (plan_hierarchy_repair pid 0)) op_lift)"

definition repair_hierarchy :: "env \<Rightarrow> string \<Rightarrow> i64 \<Rightarrow> repair_plan op" where
  "repair_hierarchy env pid now =
     op_bind (require_project env pid)
     (\<lambda>p. op_bind (db_read (plan_hierarchy_repair pid now))
     (\<lambda>planned. op_bind (op_lift planned)
     (\<lambda>plan. if placements plan = [] then op_return plan
        else op_then (open_project env p)
             (op_bind (op_map (placement_change env p) (placements plan))
             (\<lambda>changes. op_then (apply_card_changes env p changes
                 (''Repair card hierarchy: '' @ nat_to_string (length (moved_card_ids plan))
                    @ (if length (moved_card_ids plan) = 1 then '' hidden card made reachable'' else '' hidden cards made reachable'')))
               (op_return plan))))))"

definition restore_card :: "env \<Rightarrow> string \<Rightarrow> i64 \<Rightarrow> unit op" where
  "restore_card env cid now =
     op_bind (require_card cid)
     (\<lambda>c0. op_bind (require_project env (project_id c0))
     (\<lambda>p. op_bind (require_card cid)
     (\<lambda>c. op_then (op_require (deleted_at c \<noteq> None) (RuntimeError ''card is not deleted''))
     (op_then (open_project env p)
     (op_bind (op_lift (card_rel_path cid))
     (\<lambda>live. op_bind (op_lift (card_trash_rel_path cid))
     (\<lambda>trash_path. op_then (op_require (rel_path c = live \<or> rel_path c = trash_path)
                              (RuntimeError ''card rel_path does not match card_id''))
     (op_bind (disk_check (root_path p) (read_parsed env p trash_path))
     (\<lambda>(raw, parsed). op_bind (db_read (list_outgoing (project_id c) cid))
     (\<lambda>links. op_bind (db_read (restored_card_placement (c\<lparr>deleted_at := None, updated_at := now\<rparr>) now))
     (\<lambda>placed. op_bind (op_lift placed)
     (\<lambda>(restored, placed).
        apply_target_and_placements env p c (parsed\<lparr>pf_card := restored, pf_links := links\<rparr>) placed
          (''Restore card '' @ title c)))))))))))))"

definition restore_version :: "env \<Rightarrow> string \<Rightarrow> oid \<Rightarrow> i64 \<Rightarrow> unit op" where
  "restore_version env cid historical now =
     op_then (op_require (historical \<noteq> []) (InvalidArgument ''historical_oid is required''))
     (op_bind (require_card cid)
     (\<lambda>c0. op_bind (require_project env (project_id c0))
     (\<lambda>p. op_bind (require_card cid)
     (\<lambda>current. op_then (open_project env p)
     (op_bind (op_lift (card_rel_path cid))
     (\<lambda>expected. op_bind (op_lift (card_trash_rel_path cid))
     (\<lambda>trash_path. op_then (op_require (rel_path current = expected
            \<or> (deleted_at current \<noteq> None \<and> rel_path current = trash_path))
          (RuntimeError ''card rel_path does not match card_id''))
     (op_bind (disk_check (root_path p) (read_blob_at (e_git env) historical expected))
     (\<lambda>live_raw. op_bind (if live_raw = None
            then disk_check (root_path p) (read_blob_at (e_git env) historical trash_path) else op_return live_raw)
     (\<lambda>raw. op_then (op_require (raw \<noteq> None) (RuntimeError ''historical card content is missing''))
     (op_bind (op_lift (decode_card_blob env p (the raw)))
     (\<lambda>plain. op_then (op_require (CHR 0x00 \<notin> set plain) (RuntimeError ''historical card content is binary''))
     (let parsed = parse_card_file (e_yaml env) plain
      in op_then (op_require (has_front_matter parsed \<and> card_id (pf_card parsed) = cid
              \<and> project_id (pf_card parsed) = project_id current) (RuntimeError ''historical card content is malformed''))
     (let restored = (pf_card parsed)\<lparr>card_id := card_id current, project_id := project_id current, rel_path := expected,
              created_at := created_at current, updated_at := now,
              deleted_at := (if live_raw = None then Some now else None)\<rparr>;
          links = map (\<lambda>l. l\<lparr>link_project_id := project_id current, from_card_id := card_id current\<rparr>) (pf_links parsed);
          ms = map (\<lambda>m. m\<lparr>ms_project_id := project_id current, ms_card_id := card_id current, ms_updated_at := now\<rparr>)
                 (pf_milestones parsed)
      in op_bind (db_read (\<lambda>d. if deleted_at restored \<noteq> None
             then rbind (promoted_card_children current now d) (\<lambda>placed. Inr (restored, placed))
             else restored_card_placement restored now d))
     (\<lambda>placed. op_bind (op_lift placed)
     (\<lambda>(restored, placed).
        apply_target_and_placements env p current
          (parsed\<lparr>pf_card := restored, pf_links := links, pf_milestones := ms\<rparr>) placed
          (''Restore card '' @ title restored)))))))))))))))))"

definition hard_delete :: "env \<Rightarrow> string \<Rightarrow> unit op" where
  "hard_delete env cid =
     op_bind (require_card cid)
     (\<lambda>c. op_then (op_require (deleted_at c \<noteq> None) (RuntimeError ''card is not deleted''))
     (op_bind (require_project env (project_id c))
     (\<lambda>p. op_then (open_project env p)
     (op_bind (op_lift (card_trash_rel_path (card_id c)))
     (\<lambda>trash_path. op_bind (disk_read (root_path p) (\<lambda>d. d_files d trash_path))
     (\<lambda>file. op_then (op_when (file \<noteq> None)
                 (op_then (disk_try (root_path p) (remove_file trash_path)) (disk_try (root_path p) (remove_path trash_path))))
     (op_then (db_write (\<lambda>d. cards_remove (card_id c) (delete_milestones (project_id c) (card_id c)
            (delete_tags_for_card (project_id c) (card_id c)
            (delete_links_to_typed (project_id c) (card_id c) ''card'' (delete_links_from (project_id c) (card_id c) d))))))
     (commit_op env p (''Permanently delete card '' @ title c)))))))))"

section \<open>Reading\<close>

definition get_content :: "env \<Rightarrow> card \<Rightarrow> string option op" where
  "get_content env c =
     op_bind (require_project env (project_id c))
     (\<lambda>p. op_then (disk_try (root_path p) (\<lambda>d. Inr (open_or_init (e_git env) d)))
     (disk_check (root_path p) (read_card_content_locked env p c)))"

definition content_of_page_card :: "env \<Rightarrow> project \<Rightarrow> card \<Rightarrow> (card \<times> string) op" where
  "content_of_page_card env p c =
     op_bind (disk_check (root_path p) (read_card_content_locked env p c))
       (\<lambda>body. case body of
          None \<Rightarrow> op_lift (Inl (RuntimeError (''card content missing: '' @ card_id c)))
        | Some b \<Rightarrow> op_return (c, b))"

definition list_complete_page ::
  "env \<Rightarrow> string \<Rightarrow> string option \<Rightarrow> int \<Rightarrow> ((card \<times> string) list \<times> string option) op"
where
  "list_complete_page env pid after limit =
     op_then (op_require (0 < limit) (InvalidArgument ''limit must be positive''))
     (op_bind (require_project env pid)
     (\<lambda>p. op_then (disk_try (root_path p) (\<lambda>d. Inr (open_or_init (e_git env) d)))
     (op_bind (db_read (list_page_by_card_id pid after (limit + 1)))
     (\<lambda>listed. op_bind (op_lift listed)
     (\<lambda>metadata.
        let rows = take (nat limit) metadata;
            cursor = (if nat limit < length metadata then Some (card_id (last rows)) else None)
        in op_bind (op_map (content_of_page_card env p) rows) (\<lambda>page. op_return (page, cursor)))))))"

definition list_collection :: "env \<Rightarrow> string \<Rightarrow> page_query \<Rightarrow> int \<Rightarrow> bool \<Rightarrow> ((card \<times> string) list \<times> page_cursor option) op" where
  "list_collection env pid q limit include_content =
     op_then (op_require (0 < limit \<and> limit \<le> 1000) (InvalidArgument ''limit must be between 1 and 1000''))
     (let page = (\<lambda>contents. op_bind (db_read (list_collection_page pid q (limit + 1)))
            (\<lambda>listed. op_bind (op_lift listed)
            (\<lambda>metadata.
               let rows = take (nat limit) metadata;
                   cursor = (if nat limit < length metadata
                             then Some \<lparr>cursor_card_id = card_id (last rows), cursor_updated_at = Some (updated_at (last rows))\<rparr>
                             else None)
               in op_bind (op_map contents rows) (\<lambda>out. op_return (out, cursor)))))
      in if \<not> include_content then page (\<lambda>c. op_return (c, []))
         else op_bind (require_project env pid)
              (\<lambda>p. op_then (disk_try (root_path p) (\<lambda>d. Inr (open_or_init (e_git env) d)))
                     (page (content_of_page_card env p))))"

section \<open>Tags\<close>

datatype add_tag_result = Added | AlreadyPresent | AddInvalidTag

datatype remove_tag_result = Removed | NotPresent | PresentOutsideEditableTagLine | RemoveInvalidTag

definition add_tag :: "env \<Rightarrow> string \<Rightarrow> string \<Rightarrow> i64 \<Rightarrow> add_tag_result op" where
  "add_tag env cid t now =
     (if \<not> is_valid_tag t then op_return AddInvalidTag
      else op_bind (require_card cid)
      (\<lambda>c. op_bind (require_project env (project_id c))
      (\<lambda>_. op_bind (get_content env c)
      (\<lambda>body. let content = (case body of None \<Rightarrow> [] | Some b \<Rightarrow> b); name = normalize_tag t
         in if name \<in> set (extract_tags (e_md env) content) then op_return AlreadyPresent
            else op_then (update_content env cid (upsert_trailing_tag_line content name) None now) (op_return Added)))))"

definition remove_tag :: "env \<Rightarrow> string \<Rightarrow> string \<Rightarrow> i64 \<Rightarrow> remove_tag_result op" where
  "remove_tag env cid t now =
     (if \<not> is_valid_tag t then op_return RemoveInvalidTag
      else op_bind (require_card cid)
      (\<lambda>c. op_bind (require_project env (project_id c))
      (\<lambda>_. op_bind (get_content env c)
      (\<lambda>body. let content = (case body of None \<Rightarrow> [] | Some b \<Rightarrow> b); name = normalize_tag t;
                  removal = remove_from_trailing_tag_line content name
         in if outcome removal \<noteq> TagRemoved
            then op_return (if name \<in> set (extract_tags (e_md env) content) then PresentOutsideEditableTagLine else NotPresent)
            else op_then (update_content env cid (new_body removal) None now) (op_return Removed)))))"

definition list_editable_tags :: "env \<Rightarrow> string \<Rightarrow> string list op" where
  "list_editable_tags env cid =
     op_bind (require_card cid)
     (\<lambda>c. op_bind (get_content env c)
     (\<lambda>body. op_return (tags_on_trailing_line (case body of None \<Rightarrow> [] | Some b \<Rightarrow> b))))"

end
