(* ===== verification/Card_Changes.thy ===== *)
theory Card_Changes
  imports Card_Store
begin

text \<open>
  What \<open>CardStore::apply_card_changes\<close> promises: the changes of all cards take effect together, in the
  database, the files and the repository, or none does.
\<close>

section \<open>Paths of a change\<close>

definition checked :: "disk \<Rightarrow> card_change list \<Rightarrow> (card_change \<times> change_paths) list \<Rightarrow> bool" where
  "checked d changes cs \<longleftrightarrow> rmap (check_change d) changes = Inr cs"

lemma check_changeD:
  assumes "check_change d ch = Inr (ch', ps)"
  shows "change_paths_of ch = Inr ps" and "cp_target ps \<in> {cp_live ps, cp_trash ps}" and "cp_source ps \<in> {cp_live ps, cp_trash ps}"
    and "d_files d (cp_source ps) \<noteq> None" and "cp_source ps = cp_target ps \<or> d_files d (cp_target ps) = None"
    and "ch' = ch\<lparr>ch_target := (ch_target ch)\<lparr>pf_card := (pf_card (ch_target ch))\<lparr>rel_path := cp_live ps\<rparr>\<rparr>\<rparr>"
    and "card_rel_path (card_id (ch_current ch)) = Inr (cp_live ps)" and "cp_trash ps = ''trash/'' @ cp_live ps"
    and "cp_source ps = (if deleted_at (ch_current ch) \<noteq> None then cp_trash ps else cp_live ps)"
    and "cp_target ps = (if deleted_at (pf_card (ch_target ch)) \<noteq> None then cp_trash ps else cp_live ps)"
proof -
  from assms have c: "change_paths_of ch = Inr ps" "d_files d (cp_source ps) \<noteq> None"
    "cp_source ps = cp_target ps \<or> d_files d (cp_target ps) = None"
    "ch' = ch\<lparr>ch_target := (ch_target ch)\<lparr>pf_card := (pf_card (ch_target ch))\<lparr>rel_path := cp_live ps\<rparr>\<rparr>\<rparr>"
    by (auto simp: check_change_def rbind_eq_Inr)
  then show "change_paths_of ch = Inr ps" "d_files d (cp_source ps) \<noteq> None"
    "cp_source ps = cp_target ps \<or> d_files d (cp_target ps) = None"
    "ch' = ch\<lparr>ch_target := (ch_target ch)\<lparr>pf_card := (pf_card (ch_target ch))\<lparr>rel_path := cp_live ps\<rparr>\<rparr>\<rparr>"
    by simp_all
  from c(1) obtain live where "card_rel_path (card_id (ch_current ch)) = Inr live"
    "ps = \<lparr>cp_live = live, cp_trash = ''trash/'' @ live,
        cp_source = (if deleted_at (ch_current ch) \<noteq> None then ''trash/'' @ live else live),
        cp_target = (if deleted_at (pf_card (ch_target ch)) \<noteq> None then ''trash/'' @ live else live)\<rparr>"
    by (auto simp: change_paths_of_def rbind_eq_Inr card_trash_rel_path_def)
  then show "card_rel_path (card_id (ch_current ch)) = Inr (cp_live ps)" "cp_trash ps = ''trash/'' @ cp_live ps"
    "cp_source ps = (if deleted_at (ch_current ch) \<noteq> None then cp_trash ps else cp_live ps)"
    "cp_target ps = (if deleted_at (pf_card (ch_target ch)) \<noteq> None then cp_trash ps else cp_live ps)"
    "cp_target ps \<in> {cp_live ps, cp_trash ps}" "cp_source ps \<in> {cp_live ps, cp_trash ps}"
    by simp_all
qed

lemma checkedD:
  assumes "checked d changes cs"
  shows "list_all2 (\<lambda>ch c. check_change d ch = Inr c) changes cs"
  using assms by (simp add: checked_def rmap_Inr_iff)

lemma checked_memD:
  assumes "checked d changes cs" and "(ch', ps) \<in> set cs"
  obtains ch where "ch \<in> set changes" and "check_change d ch = Inr (ch', ps)"
proof -
  from assms(2) obtain i where i: "i < length cs" "cs ! i = (ch', ps)" by (auto simp: in_set_conv_nth)
  from checkedD [OF assms(1)] have "length changes = length cs" "check_change d (changes ! i) = Inr (cs ! i)"
    using i(1) by (auto simp: list_all2_conv_all_nth)
  with i show thesis by (intro that [of "changes ! i"]) auto
qed

lemma change_renames_in_paths:
  assumes "checked d changes cs"
  shows "snd ` set (change_renames cs) \<subseteq> set (change_path_set cs)"
proof
  fix q assume "q \<in> snd ` set (change_renames cs)"
  then obtain ch' ps where c: "(ch', ps) \<in> set cs" "q = cp_target ps" by (auto simp: change_renames_def)
  obtain ch where "check_change d ch = Inr (ch', ps)" by (rule checked_memD [OF assms c(1)])
  from check_changeD(2) [OF this] c show "q \<in> set (change_path_set cs)" by (force simp: change_path_set_def)
qed

section \<open>Failure\<close>

text \<open>The directory as it was, up to commit objects that no branch reaches.\<close>

definition undone :: "git_repo \<Rightarrow> disk \<Rightarrow> disk \<Rightarrow> bool" where
  "undone r d d' \<longleftrightarrow> (\<exists>cs. d' = d\<lparr>d_repo := Some (r\<lparr>r_commits := cs\<rparr>)\<rparr> \<and> r_commits r \<subseteq>\<^sub>m cs)"

lemma undone_refl: "d_repo d = Some r \<Longrightarrow> undone r d d"
  by (auto simp: undone_def intro!: exI [of _ "r_commits r"])

lemma run_mutation_fails:
  assumes n: "new_journal paths renames writes (st_disks s (root_path p)) saved"
    and r: "d_repo (st_disks s (root_path p)) = Some r" and a: "content_addressed (e_git env) r"
    and f: "run_mutation env p saved renames writes msg s = (Inl e, t)"
  shows "st_db t = st_db s" and "\<exists>d'. undone r (st_disks s (root_path p)) d' \<and> st_disks t = (st_disks s)(root_path p := d')"
proof -
  define safe where "safe = assert_project_staged_blobs_safe env p (map fst writes)"
  define steps where "steps = mutation_steps (e_git env) saved renames writes safe msg (e_now env)"
  let ?d = "st_disks s (root_path p)"
  from f show "st_db t = st_db s"
    by (auto simp: run_mutation_def Let_def split: prod.splits option.splits sum.splits)
  from f obtain d' e' where d': "run_steps (e_fault env) steps ?d = (d', Some e')"
    by (auto simp: run_mutation_def Let_def steps_def safe_def split: prod.splits option.splits)
  from run_steps_prefix [OF this] obtain k where "k \<le> length steps" "exec_steps (take k steps) ?d = Inr d'" by blast
  then have "interrupted (e_git env) saved renames writes safe msg (e_now env) ?d d'"
    by (auto simp: interrupted_def Let_def steps_def)
  from rollback_undoes [OF n r this a] obtain cs where
    "mutation_rollback (e_git env) saved d' = Inr (?d\<lparr>d_repo := Some (r\<lparr>r_commits := cs\<rparr>)\<rparr>)" "r_commits r \<subseteq>\<^sub>m cs" by blast
  with f d' show "\<exists>d'. undone r ?d d' \<and> st_disks t = (st_disks s)(root_path p := d')"
    by (auto simp: run_mutation_def Let_def steps_def safe_def undone_def)
qed

text \<open>
  C5: A change of several cards that throws changes nothing. Whatever fails (a check, a constraint of
  the database, any file or Git operation, the commit itself), the database is as before, and so are
  all files, the index, the branches and the journal of the project.
\<close>

theorem failed_changes_undone:
  assumes r: "d_repo (st_disks s (root_path p)) = Some r" and a: "content_addressed (e_git env) r"
    and f: "apply_card_changes env p changes msg s = (Inl e, t)"
  shows "st_db t = st_db s
     \<and> (\<exists>d'. undone r (st_disks s (root_path p)) d' \<and> st_disks t = (st_disks s)(root_path p := d'))"
proof -
  let ?d = "st_disks s (root_path p)"
  from f consider (same) "t = s"
    | (run) cs writes saved db' u where "checked ?d changes cs" "mutation_new (change_path_set cs) (file_changes (change_renames cs) writes) ?d = Inr saved"
        "run_mutation env p saved (change_renames cs) writes msg (s\<lparr>st_db := db'\<rparr>) = (Inl e, u)" "t = u\<lparr>st_db := st_db s\<rparr>"
    by (auto simp: apply_card_changes_def op_simps checked_def)
  then show ?thesis
  proof cases
    case same
    with r show ?thesis by (auto intro!: exI [of _ ?d] undone_refl)
  next
    case run
    then have "new_journal (change_path_set cs) (change_renames cs) writes (st_disks (s\<lparr>st_db := db'\<rparr>) (root_path p)) saved"
      by (simp add: new_journal_def change_renames_in_paths)
    from run_mutation_fails [OF this _ a run(3)] r run(4) show ?thesis by simp
  qed
qed

section \<open>Files after the steps\<close>

lemma rename_steps_files:
  assumes "exec_steps (concat (map rename_steps renames)) d = Inr d'"
  shows "q \<notin> fst ` set renames \<Longrightarrow> q \<notin> snd ` set renames \<Longrightarrow> d_files d' q = d_files d q"
    and "q \<in> fst ` set renames \<Longrightarrow> q \<notin> snd ` set renames \<Longrightarrow> d_files d' q = None"
proof -
  have "(q \<notin> snd ` set renames \<longrightarrow> d_files d' q = (if q \<in> fst ` set renames then None else d_files d q))"
    using assms
  proof (induction renames arbitrary: d)
    case (Cons rn rns)
    from Cons.prems obtain u where u: "exec_steps (rename_steps rn) d = Inr u" "exec_steps (concat (map rename_steps rns)) u = Inr d'"
      by (auto simp: rfold_append rbind_eq_Inr)
    from u(1) obtain x where "d_files u = (d_files d)(fst rn := None, snd rn := Some x)"
      by (auto simp: rename_steps_def fs_rename_def remove_path_def rbind_eq_Inr split: option.splits)
    with Cons.IH [OF u(2)] show ?case by auto
  qed simp
  then show "q \<notin> fst ` set renames \<Longrightarrow> q \<notin> snd ` set renames \<Longrightarrow> d_files d' q = d_files d q"
    and "q \<in> fst ` set renames \<Longrightarrow> q \<notin> snd ` set renames \<Longrightarrow> d_files d' q = None" by auto
qed

lemma write_steps_files:
  assumes "exec_steps (concat (map (write_steps lib) writes)) d = Inr d'"
  shows "d_files d' q = (case map_of (rev writes) q of Some b \<Rightarrow> Some b | None \<Rightarrow> d_files d q)"
  using assms
proof (induction writes arbitrary: d)
  case (Cons w ws)
  from Cons.prems obtain u where u: "exec_steps (write_steps lib w) d = Inr u" "exec_steps (concat (map (write_steps lib) ws)) u = Inr d'"
    by (auto simp: rfold_append rbind_eq_Inr)
  from u(1) have "d_files u = (d_files d)(fst w := Some (snd w))"
    by (auto simp: write_steps_def git_write_file_def verify_write_def stage_path_def rbind_eq_Inr split: option.splits)
  with Cons.IH [OF u(2)] show ?case by (cases w) (auto simp: map_add_def split: option.splits)
qed simp

text \<open>All steps together leave every file as the journal's \<open>after\<close> says.\<close>

lemma mutation_steps_files:
  assumes e: "exec_steps (mutation_steps lib saved renames writes safe msg now) d = Inr d'"
    and w: "snd ` set renames \<subseteq> fst ` set writes"
  shows "d_files d' q = (case map_of (file_changes renames writes) q of Some x \<Rightarrow> x | None \<Rightarrow> d_files d q)"
proof -
  from e obtain d1 d2 d3 d4 d5 where x: "reset_index saved (d\<lparr>d_journal := Some saved\<rparr>) = Inr d1"
      "exec_steps (concat (map rename_steps renames)) d1 = Inr d2"
      "exec_steps (concat (map (write_steps lib) writes)) d2 = Inr d3" "safe_step safe d3 = Inr d4"
      "git_commit_op lib msg now d4 = Inr d5" "preserve_unrelated_index saved d5 = Inr d'"
    by (auto simp: mutation_steps_def change_steps_def write_journal_def rfold_append rbind_eq_Inr)
  from x(1) have "d_files d1 = d_files d" by (auto simp: reset_index_def split: option.splits)
  moreover from x(4-6) have "d_files d' = d_files d3"
    by (auto simp: safe_step_def rbind_eq_Inr git_commit_op_def preserve_unrelated_index_def Let_def split: option.splits if_splits)
  moreover have "q \<in> snd ` set renames \<Longrightarrow> map_of (rev writes) q \<noteq> None"
    using w by (auto simp: map_of_eq_None_iff)
  ultimately show ?thesis
    using write_steps_files [OF x(3), of q] rename_steps_files [OF x(2), of q]
    by (auto simp: map_of_file_changes split: option.splits)
qed

section \<open>Rows after the statements\<close>

definition snapshot_row :: "card \<Rightarrow> card \<Rightarrow> card" where
  "snapshot_row c r = r\<lparr>title := c_str (title c), parent_card_id := map_option c_str (parent_card_id c), sort_key := sort_key c,
     updated_at := updated_at c, deleted_at := deleted_at c, rel_path := c_str (rel_path c)\<rparr>"

lemma cards_restore_snapshot:
  assumes "restore_snapshot c d = Inr d'"
  shows "cards_get cid d' = (if c_str cid = c_str (card_id c) then map_option (snapshot_row c) (cards_get cid d) else cards_get cid d)"
  using assms
  by (auto simp: restore_snapshot_def cards_get_def update_cards_def snapshot_row_def [abs_def] bind_card_def Let_def
      find_update_where_same intro!: find_update_where_other split: if_splits)

lemma change_rows_get:
  assumes "change_rows env f d = Inr d'"
  shows "cards_get cid d' = (if c_str cid = c_str (card_id (pf_card f)) then map_option (snapshot_row (pf_card f)) (cards_get cid d)
     else cards_get cid d)"
proof -
  from assms obtain d1 where d1: "restore_snapshot (pf_card f) d = Inr d1" "cards d' = cards d1"
    by (auto simp: change_rows_def Let_def rbind_eq_Inr set_tags_for_card_iff replace_milestones_iff
        dest!: cards_upsert_links split: if_splits)
  from cards_restore_snapshot [OF d1(1), of cid] d1(2) show ?thesis by (simp add: cards_get_def)
qed

lemma all_rows_get:
  assumes "rfold (\<lambda>(ch, _). change_rows env (ch_target ch)) cs d = Inr d'"
    and "distinct (map (\<lambda>(ch, _). c_str (card_id (pf_card (ch_target ch)))) cs)"
  shows "cards_get cid d' =
     (case find (\<lambda>(ch, _). c_str (card_id (pf_card (ch_target ch))) = c_str cid) cs of
        Some (ch, _) \<Rightarrow> map_option (snapshot_row (pf_card (ch_target ch))) (cards_get cid d)
      | None \<Rightarrow> cards_get cid d)"
  using assms
proof (induction cs arbitrary: d)
  case (Cons c cs)
  obtain ch ps where c: "c = (ch, ps)" by (cases c)
  from Cons.prems c obtain d1 where d1: "change_rows env (ch_target ch) d = Inr d1"
    "rfold (\<lambda>(ch, _). change_rows env (ch_target ch)) cs d1 = Inr d'" by (auto simp: rbind_eq_Inr)
  from Cons.IH [OF d1(2)] Cons.prems(2) have i: "cards_get cid d' =
     (case find (\<lambda>(ch, _). c_str (card_id (pf_card (ch_target ch))) = c_str cid) cs of
        Some (ch, _) \<Rightarrow> map_option (snapshot_row (pf_card (ch_target ch))) (cards_get cid d1)
      | None \<Rightarrow> cards_get cid d1)" by simp
  show ?case
  proof (cases "c_str (card_id (pf_card (ch_target ch))) = c_str cid")
    case True
    with Cons.prems(2) c have "find (\<lambda>(ch, _). c_str (card_id (pf_card (ch_target ch))) = c_str cid) cs = None"
      by (force simp: find_None_iff)
    with i True change_rows_get [OF d1(1), of cid] c show ?thesis by simp
  next
    case False
    with i change_rows_get [OF d1(1), of cid] c show ?thesis by (auto split: option.splits)
  qed
qed simp

section \<open>The view of a project's cards\<close>

text \<open>A card as the rest of the program sees it: its row and the body its file decodes to.\<close>

definition card_file :: "card \<Rightarrow> path result" where
  "card_file c = (if deleted_at c \<noteq> None then card_trash_rel_path (card_id c) else card_rel_path (card_id c))"

definition card_view :: "env \<Rightarrow> project \<Rightarrow> store \<Rightarrow> string \<Rightarrow> (card \<times> string) option" where
  "card_view env p s cid =
     (case cards_get cid (st_db s) of
        None \<Rightarrow> None
      | Some c \<Rightarrow>
          (case rbind (card_file c) (\<lambda>q. read_parsed env p q (st_disks s (root_path p))) of
             Inl _ \<Rightarrow> None
           | Inr (_, f) \<Rightarrow> Some (c, pf_body f)))"

text \<open>What a set of changes means on that view.\<close>

definition changed_row :: "card_change \<Rightarrow> card \<Rightarrow> card" where
  "changed_row ch r =
     snapshot_row ((pf_card (ch_target ch))\<lparr>rel_path :=
       (case card_rel_path (card_id (ch_current ch)) of Inr live \<Rightarrow> live | Inl _ \<Rightarrow> rel_path r)\<rparr>) r"

definition update_view :: "card_change list \<Rightarrow> (string \<Rightarrow> (card \<times> string) option) \<Rightarrow> string \<Rightarrow> (card \<times> string) option" where
  "update_view changes v cid =
     (case find (\<lambda>ch. card_id (ch_current ch) = cid) changes of
        None \<Rightarrow> v cid
      | Some ch \<Rightarrow> map_option (\<lambda>(r, _). (changed_row ch r, pf_body (ch_target ch))) (v cid))"

text \<open>The changes concern different cards, each its own, with ids as the database holds them.\<close>

definition changes_ok :: "card_change list \<Rightarrow> bool" where
  "changes_ok changes \<longleftrightarrow>
     distinct (map (\<lambda>ch. card_id (ch_current ch)) changes)
     \<and> list_all (\<lambda>ch. card_id (pf_card (ch_target ch)) = card_id (ch_current ch) \<and> nul_free (card_id (ch_current ch))) changes"

lemma paths_of_ids:
  assumes "card_rel_path a = Inr la" and "card_rel_path b = Inr lb" and "x \<in> {la, ''trash/'' @ la}" and "x \<in> {lb, ''trash/'' @ lb}"
  shows "a = b"
proof -
  have "la \<noteq> ''trash/'' @ lb" "lb \<noteq> ''trash/'' @ la" using assms(1,2) by (auto simp: card_rel_path_Inr)
  with assms(3,4) have "la = lb" by auto
  with assms(1,2) card_rel_path_inj show ?thesis by blast
qed

lemma checked_ids:
  assumes "checked d changes cs" and "changes_ok changes"
  shows "map (\<lambda>(ch, _). c_str (card_id (pf_card (ch_target ch)))) cs = map (\<lambda>ch. card_id (ch_current ch)) changes"
    and "distinct (map (\<lambda>(ch, _). c_str (card_id (pf_card (ch_target ch)))) cs)"
proof -
  have "list_all2 (\<lambda>ch c. check_change d ch = Inr c) changes cs" by (rule checkedD [OF assms(1)])
  then show m: "map (\<lambda>(ch, _). c_str (card_id (pf_card (ch_target ch)))) cs = map (\<lambda>ch. card_id (ch_current ch)) changes"
    using assms(2) [unfolded changes_ok_def, THEN conjunct2]
  proof (induction rule: list_all2_induct)
    case (Cons ch chs c cs)
    obtain ch' ps where "c = (ch', ps)" by (cases c)
    with Cons check_changeD(6) [of d ch ch' ps] show ?case by simp
  qed simp
  with assms(2) show "distinct (map (\<lambda>(ch, _). c_str (card_id (pf_card (ch_target ch)))) cs)"
    by (simp add: changes_ok_def)
qed

lemma find_checked:
  assumes "list_all2 (\<lambda>ch c. check_change d ch = Inr c) changes cs"
    and "list_all (\<lambda>ch. card_id (pf_card (ch_target ch)) = card_id (ch_current ch) \<and> nul_free (card_id (ch_current ch))) changes"
    and "nul_free cid"
  shows "find (\<lambda>ch. card_id (ch_current ch) = cid) changes = None \<Longrightarrow>
      find (\<lambda>(ch, _). c_str (card_id (pf_card (ch_target ch))) = c_str cid) cs = None"
    and "find (\<lambda>ch. card_id (ch_current ch) = cid) changes = Some ch \<Longrightarrow>
      \<exists>ch' ps. check_change d ch = Inr (ch', ps) \<and> (ch', ps) \<in> set cs
        \<and> find (\<lambda>(ch, _). c_str (card_id (pf_card (ch_target ch))) = c_str cid) cs = Some (ch', ps)"
proof -
  have "(case find (\<lambda>ch. card_id (ch_current ch) = cid) changes of
      None \<Rightarrow> find (\<lambda>(ch, _). c_str (card_id (pf_card (ch_target ch))) = c_str cid) cs = None
    | Some ch \<Rightarrow> \<exists>ch' ps. check_change d ch = Inr (ch', ps) \<and> (ch', ps) \<in> set cs
        \<and> find (\<lambda>(ch, _). c_str (card_id (pf_card (ch_target ch))) = c_str cid) cs = Some (ch', ps))"
    using assms(1,2)
  proof (induction rule: list_all2_induct)
    case (Cons ch chs c cs)
    obtain ch' ps where "c = (ch', ps)" by (cases c)
    with Cons check_changeD(6) [of d ch ch' ps] assms(3) show ?case by (auto split: option.splits)
  qed simp
  then show "find (\<lambda>ch. card_id (ch_current ch) = cid) changes = None \<Longrightarrow>
      find (\<lambda>(ch, _). c_str (card_id (pf_card (ch_target ch))) = c_str cid) cs = None"
    and "find (\<lambda>ch. card_id (ch_current ch) = cid) changes = Some ch \<Longrightarrow>
      \<exists>ch' ps. check_change d ch = Inr (ch', ps) \<and> (ch', ps) \<in> set cs
        \<and> find (\<lambda>(ch, _). c_str (card_id (pf_card (ch_target ch))) = c_str cid) cs = Some (ch', ps)"
    by auto
qed

section \<open>What is written\<close>

definition durable_card :: "card_change \<Rightarrow> path \<Rightarrow> card" where
  "durable_card ch q = (pf_card (ch_target ch))\<lparr>rel_path := q\<rparr>"

lemma change_write_checked:
  assumes "check_change d ch = Inr (ch', ps)" and "card_id (pf_card (ch_target ch)) = card_id (ch_current ch)"
    and "change_write env p ch' = Inr (q, bytes)"
  shows "q = cp_target ps"
    and "seal_card env p q (render_card_front_matter (e_yaml env) (durable_card ch q) (pf_links (ch_target ch))
       (pf_milestones (ch_target ch)) @ pf_body (ch_target ch)) = Inr bytes"
proof -
  note c = check_changeD [OF assms(1)]
  from assms(2,3) c(6-8,10) show "q = cp_target ps"
    by (auto simp: change_write_def Let_def rbind_eq_Inr card_trash_rel_path_def split: if_splits)
  from assms(2,3) c(6-8,10)
  show "seal_card env p q (render_card_front_matter (e_yaml env) (durable_card ch q) (pf_links (ch_target ch))
       (pf_milestones (ch_target ch)) @ pf_body (ch_target ch)) = Inr bytes"
    by (auto simp: change_write_def durable_card_def Let_def rbind_eq_Inr card_trash_rel_path_def split: if_splits)
qed

lemma distinct_targets:
  assumes k: "checked d changes cs" and ok: "changes_ok changes"
  shows "distinct (map (\<lambda>(_, ps). cp_target ps) cs)"
proof -
  let ?c = "\<lambda>n. ch_current (changes ! n)" and ?ps = "\<lambda>n. snd (cs ! n)"
  from checkedD [OF k] have len: "length changes = length cs"
    and ck: "check_change d (changes ! n) = Inr (fst (cs ! n), ?ps n)" if "n < length cs" for n
    using that by (auto simp: list_all2_conv_all_nth)
  have p: "card_rel_path (card_id (?c n)) = Inr (cp_live (?ps n))" "cp_target (?ps n) \<in> {cp_live (?ps n), ''trash/'' @ cp_live (?ps n)}"
    if "n < length cs" for n
    using check_changeD(2,7,8) [OF ck [OF that]] by auto
  have "cp_target (?ps i) \<noteq> cp_target (?ps j)" if ij: "i < length cs" "j < length cs" "i \<noteq> j" for i j
  proof
    assume "cp_target (?ps i) = cp_target (?ps j)"
    from paths_of_ids [OF p(1) [OF ij(1)] p(1) [OF ij(2)] p(2) [OF ij(1)]] p(2) [OF ij(2)] this
    have "card_id (?c i) = card_id (?c j)" by simp
    with ok ij len show False by (auto simp: changes_ok_def distinct_conv_nth)
  qed
  then show ?thesis by (simp add: distinct_conv_nth case_prod_beta)
qed

lemma writes_checked:
  assumes k: "checked d changes cs" and ok: "changes_ok changes" and w: "rmap (\<lambda>(ch, _). change_write env p ch) cs = Inr writes"
  shows "map fst writes = map (\<lambda>(_, ps). cp_target ps) cs" and "distinct (map fst writes)"
    and "(ch', ps) \<in> set cs \<Longrightarrow> \<exists>bytes. change_write env p ch' = Inr (cp_target ps, bytes) \<and> map_of (rev writes) (cp_target ps) = Some bytes"
proof -
  have step: "q = cp_target ps" if m: "(ch', ps) \<in> set cs" and cw: "change_write env p ch' = Inr (q, bytes)" for ch' ps q bytes
  proof -
    obtain ch where "ch \<in> set changes" "check_change d ch = Inr (ch', ps)" by (rule checked_memD [OF k m])
    with ok cw show ?thesis
      by (intro change_write_checked(1) [where ch = ch and ch' = ch']) (auto simp: changes_ok_def list_all_iff)
  qed
  have l: "list_all2 (\<lambda>c w. change_write env p (fst c) = Inr w) cs writes"
    using w by (auto simp: rmap_Inr_iff case_prod_beta)
  then have f: "fst (writes ! i) = cp_target (snd (cs ! i))" if "i < length cs" for i
    using step [of "fst (cs ! i)" "snd (cs ! i)" "fst (writes ! i)" "snd (writes ! i)"] that by (auto simp: list_all2_conv_all_nth)
  with l show m: "map fst writes = map (\<lambda>(_, ps). cp_target ps) cs"
    by (intro nth_equalityI) (auto simp: list_all2_lengthD case_prod_beta)
  with distinct_targets [OF k ok] show dist: "distinct (map fst writes)" by simp
  assume "(ch', ps) \<in> set cs"
  then obtain i where i: "i < length cs" "cs ! i = (ch', ps)" by (auto simp: in_set_conv_nth)
  with l have "change_write env p ch' = Inr (writes ! i)" "writes ! i \<in> set writes"
    by (auto simp: list_all2_conv_all_nth)
  with f [OF i(1)] i(2) have "change_write env p ch' = Inr (cp_target ps, snd (writes ! i))"
    "(cp_target ps, snd (writes ! i)) \<in> set (rev writes)" by (metis prod.collapse snd_conv, metis prod.collapse set_rev snd_conv)
  with dist show "\<exists>bytes. change_write env p ch' = Inr (cp_target ps, bytes) \<and> map_of (rev writes) (cp_target ps) = Some bytes"
    by (metis distinct_rev map_of_eq_Some_iff rev_map)
qed

section \<open>Success\<close>

lemma apply_succeeds:
  assumes "apply_card_changes env p changes msg s = (Inr u, t)"
  obtains cs writes saved d' where "checked (st_disks s (root_path p)) changes cs"
    and "rmap (\<lambda>(ch, _). change_write env p ch) cs = Inr writes"
    and "rfold (\<lambda>(ch, _). change_rows env (ch_target ch)) cs (st_db s) = Inr (st_db t)"
    and "exec_steps (mutation_steps (e_git env) saved (change_renames cs) writes
       (assert_project_staged_blobs_safe env p (map fst writes)) msg (e_now env)) (st_disks s (root_path p)) = Inr d'"
    and "st_disks t = (st_disks s)(root_path p := mutation_finish d')"
proof -
  from assms obtain cs writes saved db' where a: "checked (st_disks s (root_path p)) changes cs"
    "rmap (\<lambda>(ch, _). change_write env p ch) cs = Inr writes"
    "rfold (\<lambda>(ch, _). change_rows env (ch_target ch)) cs (st_db s) = Inr db'"
    "run_mutation env p saved (change_renames cs) writes msg (s\<lparr>st_db := db'\<rparr>) = (Inr u, t)"
    by (auto simp: apply_card_changes_def op_simps checked_def)
  from a(4) obtain d' where "run_steps (e_fault env) (mutation_steps (e_git env) saved (change_renames cs) writes
       (assert_project_staged_blobs_safe env p (map fst writes)) msg (e_now env)) (st_disks s (root_path p)) = (d', None)"
    "t = s\<lparr>st_db := db', st_disks := (st_disks s)(root_path p := mutation_finish d')\<rparr>"
    by (auto simp: run_mutation_def Let_def split: prod.splits option.splits sum.splits)
  with a run_steps_done show thesis by (intro that [of cs writes saved d']) auto
qed

lemma file_changes_of_others:
  assumes k: "checked d changes cs" and w: "map fst writes = map (\<lambda>(_, ps). cp_target ps) cs"
    and q: "card_rel_path cid = Inr l" "q \<in> {l, ''trash/'' @ l}" and n: "cid \<notin> (\<lambda>ch. card_id (ch_current ch)) ` set changes"
  shows "map_of (file_changes (change_renames cs) writes) q = None"
proof -
  have "q \<noteq> x" if x: "x \<in> {cp_source ps, cp_target ps}" and m: "(ch', ps) \<in> set cs" for x ch' ps
  proof
    assume "q = x"
    obtain ch where ch: "ch \<in> set changes" "check_change d ch = Inr (ch', ps)" by (rule checked_memD [OF k m])
    note c = check_changeD [OF ch(2)]
    from c(2,3,8) x have "x \<in> {cp_live ps, ''trash/'' @ cp_live ps}" by auto
    with paths_of_ids [OF q(1) c(7) q(2)] \<open>q = x\<close> n ch(1) show False by auto
  qed
  then have "\<forall>c \<in> set cs. q \<noteq> cp_source (snd c) \<and> q \<noteq> cp_target (snd c)" by (metis insertCI prod.collapse)
  then have "q \<notin> fst ` set writes" "q \<notin> fst ` set (change_renames cs)"
    using arg_cong [OF w, of set] by (auto simp: change_renames_def)
  then show ?thesis by (auto simp: map_of_file_changes map_of_eq_None_iff split: option.splits)
qed

text \<open>Sealed bytes are opened to what was sealed; the YAML library keeps the front matter of the changes.\<close>

definition seals :: "env \<Rightarrow> project \<Rightarrow> bool" where
  "seals env p \<longleftrightarrow> (\<forall>q plain bytes. seal_card env p q plain = Inr bytes \<longrightarrow> decode_card_blob env p bytes = Inr plain)"

definition prints :: "env \<Rightarrow> card_change list \<Rightarrow> bool" where
  "prints env changes \<longleftrightarrow> list_all (\<lambda>ch. \<forall>q. Inr q \<in> {card_rel_path (card_id (ch_current ch)), card_trash_rel_path (card_id (ch_current ch))}
     \<longrightarrow> faithful (e_yaml env) (emit_card (durable_card ch q) (pf_links (ch_target ch)) (pf_milestones (ch_target ch)))) changes"

lemma changed_card_reads:
  assumes k: "checked d changes cs" and ok: "changes_ok changes" and w: "rmap (\<lambda>(ch, _). change_write env p ch) cs = Inr writes"
    and se: "seals env p" and pr: "prints env changes" and ch: "ch \<in> set changes" "check_change d ch = Inr (ch', ps)" "(ch', ps) \<in> set cs"
    and f: "d_files d' (cp_target ps) = map_of (rev writes) (cp_target ps)"
  shows "\<exists>raw g. read_parsed env p (cp_target ps) d' = Inr (raw, g) \<and> pf_body g = pf_body (ch_target ch)"
proof -
  from writes_checked(3) [OF k ok w ch(3)] obtain bytes where b: "change_write env p ch' = Inr (cp_target ps, bytes)"
    "map_of (rev writes) (cp_target ps) = Some bytes" by blast
  have "card_id (pf_card (ch_target ch)) = card_id (ch_current ch)" using ok ch(1) by (simp add: changes_ok_def list_all_iff)
  from change_write_checked(2) [OF ch(2) this b(1)] se
  have "decode_card_blob env p bytes = Inr (render_card_front_matter (e_yaml env) (durable_card ch (cp_target ps))
      (pf_links (ch_target ch)) (pf_milestones (ch_target ch)) @ pf_body (ch_target ch))" by (simp add: seals_def)
  moreover have "faithful (e_yaml env) (emit_card (durable_card ch (cp_target ps)) (pf_links (ch_target ch)) (pf_milestones (ch_target ch)))"
    using pr ch(1) check_changeD(2,7,8) [OF ch(2)] by (auto simp: prints_def list_all_iff card_trash_rel_path_def)
  ultimately show ?thesis using f b(2) by (simp add: read_parsed_def card_file_parses)
qed

lemma changed_row_of_checked:
  assumes "check_change d ch = Inr (ch', ps)"
  shows "snapshot_row (pf_card (ch_target ch')) r = changed_row ch r"
  using check_changeD(6,7) [OF assms] by (simp add: changed_row_def)

lemma card_file_snapshot:
  assumes "check_change d ch = Inr (ch', ps)" and "card_id r = card_id (ch_current ch)"
  shows "card_file (changed_row ch r) = Inr (cp_target ps)"
  using check_changeD(7,8,10) [OF assms(1)] assms(2)
  by (simp add: card_file_def changed_row_def snapshot_row_def card_trash_rel_path_def)

lemma rename_targets_written:
  "map fst writes = map (\<lambda>(_, ps). cp_target ps) cs \<Longrightarrow> snd ` set (change_renames cs) \<subseteq> fst ` set writes"
  by (drule arg_cong [of _ _ set]) (force simp: change_renames_def)

lemma view_of_changed:
  assumes a: "apply_card_changes env p changes msg s = (Inr u, t)" and ok: "changes_ok changes"
    and se: "seals env p" and pr: "prints env changes"
    and ch: "find (\<lambda>ch. card_id (ch_current ch) = cid) changes = Some ch" and r: "cards_get cid (st_db s) = Some r"
  shows "card_view env p t cid = Some (changed_row ch r, pf_body (ch_target ch))"
proof -
  let ?d = "st_disks s (root_path p)"
  obtain cs writes saved d' where k: "checked ?d changes cs" and w: "rmap (\<lambda>(ch, _). change_write env p ch) cs = Inr writes"
    and rows: "rfold (\<lambda>(ch, _). change_rows env (ch_target ch)) cs (st_db s) = Inr (st_db t)"
    and steps: "exec_steps (mutation_steps (e_git env) saved (change_renames cs) writes
       (assert_project_staged_blobs_safe env p (map fst writes)) msg (e_now env)) ?d = Inr d'"
    and t: "st_disks t = (st_disks s)(root_path p := mutation_finish d')"
    by (rule apply_succeeds [OF a])
  from find_SomeD [OF ch] have m: "ch \<in> set changes" "card_id (ch_current ch) = cid" by auto
  with ok have nf: "nul_free cid" by (auto simp: changes_ok_def list_all_iff)
  from find_checked(2) [OF checkedD [OF k] ok [unfolded changes_ok_def, THEN conjunct2] nf ch] obtain ch' ps
    where c: "check_change ?d ch = Inr (ch', ps)" "(ch', ps) \<in> set cs"
      "find (\<lambda>(ch, _). c_str (card_id (pf_card (ch_target ch))) = c_str cid) cs = Some (ch', ps)" by blast
  from all_rows_get [OF rows checked_ids(2) [OF k ok], of cid] c(3) r changed_row_of_checked [OF c(1)]
  have row: "cards_get cid (st_db t) = Some (changed_row ch r)" by simp
  from r nf have "card_id r = cid" by (auto simp: cards_get_def dest: find_SomeD)
  with card_file_snapshot [OF c(1)] m(2) have tgt: "card_file (changed_row ch r) = Inr (cp_target ps)" by simp
  note wr = writes_checked [OF k ok w]
  from wr(3) [OF c(2)] have "\<exists>b. map_of (rev writes) (cp_target ps) = Some b" by blast
  with mutation_steps_files [OF steps rename_targets_written [OF wr(1)], of "cp_target ps"]
  have "d_files (mutation_finish d') (cp_target ps) = map_of (rev writes) (cp_target ps)"
    by (auto simp: mutation_finish_def map_of_file_changes)
  from changed_card_reads [OF k ok w se pr m(1) c(1,2) this] row tgt t show ?thesis
    by (auto simp: card_view_def)
qed

lemma view_of_other:
  assumes a: "apply_card_changes env p changes msg s = (Inr u, t)" and ok: "changes_ok changes"
    and n: "find (\<lambda>ch. card_id (ch_current ch) = cid) changes = None" and nf: "nul_free cid"
  shows "card_view env p t cid = card_view env p s cid"
proof -
  let ?d = "st_disks s (root_path p)"
  obtain cs writes saved d' where k: "checked ?d changes cs" and w: "rmap (\<lambda>(ch, _). change_write env p ch) cs = Inr writes"
    and rows: "rfold (\<lambda>(ch, _). change_rows env (ch_target ch)) cs (st_db s) = Inr (st_db t)"
    and steps: "exec_steps (mutation_steps (e_git env) saved (change_renames cs) writes
       (assert_project_staged_blobs_safe env p (map fst writes)) msg (e_now env)) ?d = Inr d'"
    and t: "st_disks t = (st_disks s)(root_path p := mutation_finish d')"
    by (rule apply_succeeds [OF a])
  from all_rows_get [OF rows checked_ids(2) [OF k ok], of cid]
    find_checked(1) [OF checkedD [OF k] ok [unfolded changes_ok_def, THEN conjunct2] nf n]
  have row: "cards_get cid (st_db t) = cards_get cid (st_db s)" by simp
  note wr = writes_checked [OF k ok w]
  have "d_files (mutation_finish d') q = d_files ?d q" if c: "cards_get cid (st_db s) = Some c" and q: "card_file c = Inr q" for c q
  proof -
    from c nf have "card_id c = cid" by (auto simp: cards_get_def dest: find_SomeD)
    with q obtain l where l: "card_rel_path cid = Inr l" "q \<in> {l, ''trash/'' @ l}"
      by (auto simp: card_file_def card_trash_rel_path_Inr split: if_splits)
    from n have "cid \<notin> (\<lambda>ch. card_id (ch_current ch)) ` set changes" by (auto simp: find_None_iff)
    from file_changes_of_others [OF k wr(1) l this] mutation_steps_files [OF steps rename_targets_written [OF wr(1)], of q]
    show ?thesis by (simp add: mutation_finish_def)
  qed
  with row t show ?thesis
    by (auto simp: card_view_def read_parsed_def rbind_def split: option.splits sum.splits)
qed

text \<open>
  C6: A successful change of several cards refines one simultaneous update of the project's cards.
  Seen as a map from card ids to row and body, the store after \<open>apply_card_changes\<close> is the store before
  with every changed card replaced by its target; all other cards are as before.
\<close>

theorem changes_refine_update:
  assumes a: "apply_card_changes env p changes msg s = (Inr u, t)" and ok: "changes_ok changes"
    and se: "seals env p" and pr: "prints env changes"
    and vis: "list_all (\<lambda>ch. card_view env p s (card_id (ch_current ch)) \<noteq> None) changes" and nf: "nul_free cid"
  shows "card_view env p t cid = update_view changes (card_view env p s) cid"
proof (cases "find (\<lambda>ch. card_id (ch_current ch) = cid) changes")
  case None
  from view_of_other [OF a ok None nf] None show ?thesis by (simp add: update_view_def)
next
  case (Some ch)
  from find_SomeD [OF Some] vis have "card_view env p s cid \<noteq> None" by (auto simp: list_all_iff)
  then obtain r b where v: "card_view env p s cid = Some (r, b)" by auto
  then have "cards_get cid (st_db s) = Some r" by (auto simp: card_view_def split: option.splits sum.splits)
  from view_of_changed [OF a ok se pr Some this] Some v show ?thesis by (simp add: update_view_def)
qed

section \<open>An example project\<close>

text \<open>A YAML library for the front matter of one trashed card, whatever path it has.\<close>

definition demo_store_yaml :: yaml_lib where
  "demo_store_yaml = \<lparr>
     emit_text = \<lambda>e. (case e of EMap kvs \<Rightarrow> (case map_of kvs ''rel_path'' of Some (EStr q) \<Rightarrow> concat (map letters q) | _ \<Rightarrow> []) | _ \<Rightarrow> []),
     load_text = \<lambda>t. map_option (\<lambda>q. NMap [(NScalar ''card_id'', NScalar ''abcd''), (NScalar ''project_id'', NScalar ''p''),
       (NScalar ''title'', NScalar ''T''), (NScalar ''created_at'', NScalar ''0''),
       (NScalar ''updated_at'', NScalar ''5''), (NScalar ''parent_card_id'', NNull), (NScalar ''sort_key'', NScalar ''1''),
       (NScalar ''rel_path'', NScalar q), (NScalar ''deleted_at'', NScalar ''5''), (NScalar ''links'', NSeq []),
       (NScalar ''milestones'', NSeq [])]) (unletters t),
     null_text = Some ''null'', as_int = [''0'' \<mapsto> 0, ''5'' \<mapsto> 5], as_double = [''1'' \<mapsto> DFin 1], as_bool = [''true'' \<mapsto> True]\<rparr>"

definition demo_env :: "nat option \<Rightarrow> env" where
  "demo_env fault = \<lparr>e_git = demo_lib, e_yaml = demo_store_yaml, e_crypto = demo_crypto, e_json = demo_json, e_keys = \<lambda>_. None,
     e_iv = \<lambda>_. [], e_md = \<lambda>_. [], e_fts = True, e_now = 5, e_fault = fault,
     e_walk = \<lambda>_. [], e_mtime = \<lambda>_. 0\<rparr>"

definition demo_live :: card where
  "demo_live = \<lparr>card_id = ''abcd'', project_id = ''p'', title = ''T'', rel_path = ''cards/ab/cd/abcd.md'', parent_card_id = None,
     sort_key = DFin 1, created_at = 0, updated_at = 0, deleted_at = None\<rparr>"

definition demo_store :: store where
  "demo_store = \<lparr>st_db = \<lparr>projects = [demo_project], cards = [demo_live], card_links = [], card_tags = [], milestones = [], cards_fts = [], sync_states = [], db_ai = no_ai, db_res = no_resources\<rparr>,
     st_disks = \<lambda>_. \<lparr>d_files = [''cards/ab/cd/abcd.md'' \<mapsto> lf_opening @ letters (CHR ''x'') @ lf_closing @ ''Body''],
       d_journal = None, d_repo = Some demo_repo\<rparr>\<rparr>"

definition demo_change :: card_change where
  "demo_change = \<lparr>ch_current = demo_live, ch_target = \<lparr>pf_card = demo_live\<lparr>deleted_at := Some 5, updated_at := 5\<rparr>,
     pf_links = [], pf_milestones = [], pf_body = ''Body'', has_front_matter = True\<rparr>\<rparr>"

lemma find_marker_one_line: "one_line t \<Longrightarrow> find_text ([CHR 0x0A] @ ''---'') t = None"
  by (induction t) (auto simp: one_line_def starts_with_def)

lemma demo_prints: "prints (demo_env f) [demo_change]"
proof -
  have "faithful demo_store_yaml (emit_card (durable_card demo_change q) [] [])" for q
    using find_marker_one_line [OF letters_one_line(1) [of q]]
    by (simp add: faithful_def demo_store_yaml_def emit_card_def durable_card_def demo_change_def demo_live_def emit_opt_def
        unletters_letters)
  then show ?thesis by (simp add: prints_def demo_env_def) (simp add: demo_change_def)
qed

lemma demo_runs:
  "\<not> isl (fst (apply_card_changes (demo_env None) demo_project [demo_change] ''m'' demo_store))"
  "isl (fst (apply_card_changes (demo_env (Some 9)) demo_project [demo_change] ''m'' demo_store))"
  "card_view (demo_env None) demo_project demo_store ''abcd'' = Some (demo_live, ''Body'')"
  by code_simp+

theorem failed_changes_undone_witness:
  "\<exists>e t. apply_card_changes (demo_env (Some 9)) demo_project [demo_change] ''m'' demo_store = (Inl e, t)
     \<and> st_db t = st_db demo_store \<and> undone demo_repo (st_disks demo_store ''/p'') (st_disks t ''/p'')"
proof -
  obtain e t where a: "apply_card_changes (demo_env (Some 9)) demo_project [demo_change] ''m'' demo_store = (Inl e, t)"
    using demo_runs(2) by (metis isl_def prod.collapse)
  have "d_repo (st_disks demo_store (root_path demo_project)) = Some demo_repo" "content_addressed (e_git (demo_env (Some 9))) demo_repo"
    by (simp_all add: demo_store_def demo_repo_def content_addressed_def)
  from failed_changes_undone [OF this a] have "st_db t = st_db demo_store"
    "undone demo_repo (st_disks demo_store ''/p'') (st_disks t ''/p'')"
    by (auto simp: demo_project_def)
  with a show ?thesis by blast
qed

theorem changes_refine_update_witness:
  "\<exists>t. apply_card_changes (demo_env None) demo_project [demo_change] ''m'' demo_store = (Inr (), t)
     \<and> card_view (demo_env None) demo_project t ''abcd'' = Some (demo_live\<lparr>deleted_at := Some 5, updated_at := 5\<rparr>, ''Body'')"
proof -
  obtain x t where r: "apply_card_changes (demo_env None) demo_project [demo_change] ''m'' demo_store = (x, t)" by fastforce
  with demo_runs(1) have "x = Inr ()" by (cases x) auto
  with r have a: "apply_card_changes (demo_env None) demo_project [demo_change] ''m'' demo_store = (Inr (), t)" by simp
  have "changes_ok [demo_change]" by (simp add: changes_ok_def demo_change_def demo_live_def nul_free_def)
  moreover have "seals (demo_env None) demo_project"
    by (simp add: seals_def seal_card_def decode_card_blob_def demo_project_def)
  moreover have "list_all (\<lambda>ch. card_view (demo_env None) demo_project demo_store (card_id (ch_current ch)) \<noteq> None) [demo_change]"
    using demo_runs(3) by (simp add: demo_change_def demo_live_def)
  moreover have "nul_free ''abcd''" by (simp add: nul_free_def)
  ultimately have "card_view (demo_env None) demo_project t ''abcd'' = update_view [demo_change] (card_view (demo_env None) demo_project demo_store) ''abcd''"
    using changes_refine_update [OF a _ _ demo_prints] by blast
  also have "\<dots> = Some (demo_live\<lparr>deleted_at := Some 5, updated_at := 5\<rparr>, ''Body'')"
    using demo_runs(3) by (simp add: update_view_def demo_change_def demo_live_def changed_row_def snapshot_row_def card_rel_path_def c_str_def)
  finally show ?thesis using a by blast
qed

end
