(* ===== verification/Card_Trash.thy ===== *)
theory Card_Trash
  imports Card_Changes
begin

text \<open>
  Trashing a card with its whole subtree (\<open>CardStore::trash\<close>): the stack walk finds exactly the
  descendants, and the operation trashes exactly the live ones.
\<close>

section \<open>The walk finds the descendants\<close>

inductive below :: "card list \<Rightarrow> string \<Rightarrow> string \<Rightarrow> bool" for rows a where
  child: "c \<in> set rows \<Longrightarrow> parent_card_id c = Some a \<Longrightarrow> below rows a (card_id c)"
| deeper: "below rows a b \<Longrightarrow> c \<in> set rows \<Longrightarrow> parent_card_id c = Some b \<Longrightarrow> below rows a (card_id c)"

definition children_seen :: "card list \<Rightarrow> string set \<Rightarrow> string \<Rightarrow> bool" where
  "children_seen rows seen v \<longleftrightarrow> card_id ` set (children_in rows v) \<subseteq> seen"

lemma children_seen_mono: "children_seen rows A v \<Longrightarrow> A \<subseteq> B \<Longrightarrow> children_seen rows B v"
  by (auto simp: children_seen_def)

lemma subtree_walk_step:
  assumes "pending \<noteq> []" and "visit_children (children_in rows (last pending)) (butlast pending) visited = (found, pending', visited')"
  shows "subtree_walk rows pending visited = found @ subtree_walk rows pending' visited'"
  using assms by (subst subtree_walk.simps) simp

text \<open>Completeness: every card seen, or still to be expanded, ends with all its children seen.\<close>

lemma subtree_walk_closed:
  assumes "set pending \<subseteq> set visited" and "\<forall>v \<in> set visited - set pending. children_seen rows (set visited) v"
    and "v \<in> set visited \<union> card_id ` set (subtree_walk rows pending visited)"
  shows "children_seen rows (set visited \<union> card_id ` set (subtree_walk rows pending visited)) v"
  using assms
proof (induction rows pending visited rule: subtree_walk.induct)
  case (1 rows pending visited)
  show ?case
  proof (cases "pending = []")
    case True
    with 1 show ?thesis by (subst subtree_walk.simps, subst (asm) subtree_walk.simps) auto
  next
    case False
    obtain found pending' visited' where v: "visit_children (children_in rows (last pending)) (butlast pending) visited = (found, pending', visited')"
      by (metis prod_cases3)
    note a = visit_children_all [OF v]
    note s = subtree_walk_step [OF False v]
    have p: "set pending = insert (last pending) (set (butlast pending))"
      using False by (metis append_butlast_last_id list.simps(15) rotate1.simps(2) set_rotate1)
    have "set pending' \<subseteq> set visited'" using a p "1.prems"(1) by auto
    moreover have "\<forall>w \<in> set visited' - set pending'. children_seen rows (set visited') w"
    proof
      fix w assume w: "w \<in> set visited' - set pending'"
      show "children_seen rows (set visited') w"
      proof (cases "w = last pending")
        case True
        with a show ?thesis by (auto simp: children_seen_def)
      next
        case False
        with w a p have "w \<in> set visited - set pending" by auto
        with "1.prems"(2) a show ?thesis by (auto intro: children_seen_mono)
      qed
    qed
    moreover have e: "set visited \<union> card_id ` set (subtree_walk rows pending visited)
        = set visited' \<union> card_id ` set (subtree_walk rows pending' visited')"
      using a s by auto
    ultimately show ?thesis
      using "1.IH" [OF False v [symmetric] refl] "1.prems"(3) unfolding e by blast
  qed
qed

text \<open>Soundness: what is found was not seen before, is a row, and lies below the start.\<close>

lemma subtree_walk_found:
  assumes "\<forall>q \<in> set pending. q = a \<or> below rows a q"
  shows "distinct (map card_id (subtree_walk rows pending visited))
     \<and> card_id ` set (subtree_walk rows pending visited) \<inter> set visited = {}
     \<and> (\<forall>c \<in> set (subtree_walk rows pending visited). c \<in> set rows \<and> below rows a (card_id c))"
  using assms
proof (induction rows pending visited rule: subtree_walk.induct)
  case (1 rows pending visited)
  show ?case
  proof (cases "pending = []")
    case True
    then show ?thesis by (subst (1 2 3) subtree_walk.simps) simp
  next
    case False
    obtain found pending' visited' where v: "visit_children (children_in rows (last pending)) (butlast pending) visited = (found, pending', visited')"
      by (metis prod_cases3)
    note a = visit_children_all [OF v]
    have l: "last pending = a \<or> below rows a (last pending)" using "1.prems" False by auto
    have f: "c \<in> set rows \<and> below rows a (card_id c)" if "c \<in> set found" for c
    proof -
      from a that have "c \<in> set rows" "parent_card_id c = Some (last pending)" by (auto simp: children_in_def)
      with l show ?thesis by (auto intro: below.intros)
    qed
    have "\<forall>q \<in> set pending'. q = a \<or> below rows a q" using a f "1.prems" by (auto dest: in_set_butlastD)
    note i = "1.IH" [OF False v [symmetric] refl this]
    from a f i show ?thesis unfolding subtree_walk_step [OF False v] by auto
  qed
qed

lemma subtree_of_descendants:
  "distinct (map card_id (subtree_of rows cid))"
  "card_id ` set (subtree_of rows cid) = {d. below rows cid d \<and> d \<noteq> cid}"
  "set (subtree_of rows cid) \<subseteq> set rows"
proof -
  note f = subtree_walk_found [of "[cid]" cid rows "[cid]", simplified]
  then show "distinct (map card_id (subtree_of rows cid))" "set (subtree_of rows cid) \<subseteq> set rows" by (auto simp: subtree_of_def)
  have c: "children_seen rows (insert cid (card_id ` set (subtree_of rows cid))) v"
    if "v \<in> insert cid (card_id ` set (subtree_of rows cid))" for v
    using subtree_walk_closed [of "[cid]" "[cid]" rows v] that by (simp add: subtree_of_def)
  have "d \<in> insert cid (card_id ` set (subtree_of rows cid))" if "below rows cid d" for d
    using that by induction (use c in \<open>auto simp: children_seen_def children_in_def\<close>)
  with f show "card_id ` set (subtree_of rows cid) = {d. below rows cid d \<and> d \<noteq> cid}"
    by (auto simp: subtree_of_def)
qed

section \<open>The operation\<close>

lemma open_project_keeps [keeps_intros]: "op_keeps same_db (open_project env p)"
  by (cases "git_remote_url p") (simp_all add: open_project_def keeps_intros)

lemma open_project_same_db: "open_project env p s = (r, t) \<Longrightarrow> st_db t = st_db s"
  by (rule op_keepsD [OF open_project_keeps])

text \<open>Without an unfinished mutation, a project is looked up and nothing else happens.\<close>

definition settled :: "store \<Rightarrow> bool" where
  "settled s \<longleftrightarrow> (\<forall>q. d_journal (st_disks s q) = None)"

lemma require_project_settled:
  assumes "settled s" and "require_project env pid s = (Inr p, t)"
  shows "t = s" and "projects_get pid (st_db s) = Some p"
  using assms by (auto simp: require_project_def settled_def op_simps split: option.splits)

lemma require_card_Inr [op_simps]: "require_card cid s = (Inr c, t) \<longleftrightarrow> cards_get cid (st_db s) = Some c \<and> t = s"
  by (auto simp: require_card_def op_simps split: option.splits)

text \<open>The change that trashes a card.\<close>

definition trashes :: "i64 \<Rightarrow> card \<Rightarrow> card_change \<Rightarrow> bool" where
  "trashes now c ch \<longleftrightarrow> ch_current ch = c \<and> pf_card (ch_target ch) = c\<lparr>deleted_at := Some now, updated_at := now\<rparr>"

lemma trashed_change_Inr:
  assumes "trashed_change env p now c s = (Inr ch, t)"
  shows "t = s \<and> trashes now c ch"
  using assms by (auto simp: trashed_change_def placement_change_def trashes_def op_simps)

lemma trashed_changes_Inr:
  assumes "op_map (trashed_change env p now) cs s = (Inr chs, t)"
  shows "t = s \<and> list_all2 (trashes now) cs chs"
  using assms by (induction cs arbitrary: chs s) (auto simp: op_simps dest!: trashed_change_Inr)

lemma apply_trashes_rows:
  assumes a: "apply_card_changes env p chs msg s = (Inr u, t)" and l: "list_all2 (trashes now) cs chs"
    and d: "distinct (map card_id cs)" and w: "wf_db (st_db s)" and sub: "set cs \<subseteq> set (cards (st_db s))" and nf: "nul_free x"
  shows "cards_get x (st_db t) = (if x \<in> card_id ` set cs
     then map_option (\<lambda>r. changed_row (the (find (\<lambda>ch. card_id (ch_current ch) = x) chs)) r) (cards_get x (st_db s))
     else cards_get x (st_db s))"
proof -
  have m: "map (\<lambda>ch. card_id (ch_current ch)) chs = map card_id cs"
    using l by induction (auto simp: trashes_def)
  have "\<exists>c \<in> set cs. trashes now c ch" if "ch \<in> set chs" for ch
    using l that by induction auto
  then have "list_all (\<lambda>ch. card_id (pf_card (ch_target ch)) = card_id (ch_current ch) \<and> ch_current ch \<in> set cs) chs"
    by (fastforce simp: list_all_iff trashes_def)
  moreover have "nul_free (card_id c)" if "c \<in> set cs" for c
    using cards_row_ok [OF w] sub that by (auto simp: row_ok_def)
  ultimately have ok: "changes_ok chs" using m d by (simp add: changes_ok_def list_all_iff)
  obtain ck writes saved d' where k: "checked (st_disks s (root_path p)) chs ck"
    and rows: "rfold (\<lambda>(ch, _). change_rows env (ch_target ch)) ck (st_db s) = Inr (st_db t)"
    by (rule apply_succeeds [OF a])
  note g = all_rows_get [OF rows checked_ids(2) [OF k ok], of x]
  have ids: "x \<in> card_id ` set cs \<longleftrightarrow> find (\<lambda>ch. card_id (ch_current ch) = x) chs \<noteq> None"
  proof -
    have "x \<in> card_id ` set cs \<longleftrightarrow> x \<in> (\<lambda>ch. card_id (ch_current ch)) ` set chs"
      using arg_cong [OF m, of set] by (simp only: set_map)
    then show ?thesis by (auto simp only: find_None_iff image_iff)
  qed
  show ?thesis
  proof (cases "find (\<lambda>ch. card_id (ch_current ch) = x) chs")
    case None
    with find_checked(1) [OF checkedD [OF k] ok [unfolded changes_ok_def, THEN conjunct2] nf] g ids show ?thesis by simp
  next
    case (Some ch)
    with find_checked(2) [OF checkedD [OF k] ok [unfolded changes_ok_def, THEN conjunct2] nf, of ch] obtain ch' ps where
      cc: "check_change (st_disks s (root_path p)) ch = Inr (ch', ps)"
      "find (\<lambda>(ch, _). c_str (card_id (pf_card (ch_target ch))) = c_str x) ck = Some (ch', ps)" by blast
    have "snapshot_row (pf_card (ch_target ch')) = changed_row ch" using changed_row_of_checked [OF cc(1)] by blast
    with g ids Some cc(2) show ?thesis by simp
  qed
qed

text \<open>A trashed row: marked deleted, filed under its live path.\<close>

lemma trashes_row:
  assumes "list_all2 (trashes now) cs chs" and "distinct (map card_id cs)" and "c \<in> set cs" and "row_ok d c"
    and "card_rel_path (card_id c) = Inr (rel_path c)"
  shows "changed_row (the (find (\<lambda>ch. card_id (ch_current ch) = card_id c) chs)) c = c\<lparr>deleted_at := Some now, updated_at := now\<rparr>"
proof -
  obtain ch where ch: "find (\<lambda>ch. card_id (ch_current ch) = card_id c) chs = Some ch" "trashes now c ch"
    using assms(1-3) by induction (auto simp: trashes_def image_iff)
  moreover from assms(4) have "nul_free (title c)" "nul_free (rel_path c)" "map_option c_str (parent_card_id c) = parent_card_id c"
    by (auto simp: row_ok_def split: option.splits)
  ultimately show ?thesis using assms(5) by (simp add: trashes_def changed_row_def snapshot_row_def)
qed

lemma check_changes_live_path:
  assumes "apply_card_changes env p chs msg s = (Inr u, t)" and "ch \<in> set chs" and "deleted_at (ch_current ch) = None"
  shows "card_rel_path (card_id (ch_current ch)) = Inr (rel_path (ch_current ch))"
proof -
  obtain ck where "checked (st_disks s (root_path p)) chs ck" by (rule apply_succeeds [OF assms(1)])
  then obtain c where "check_change (st_disks s (root_path p)) ch = Inr c"
    using assms(2) checkedD by (fastforce simp: list_all2_conv_all_nth in_set_conv_nth)
  with assms(3) show ?thesis by (auto simp: check_change_def change_paths_of_def rbind_eq_Inr)
qed

lemma trash_subtree_runs:
  assumes t: "trash env cid now TrashSubtree s = (Inr u, t)" and st: "settled s"
  obtains p c chs v msg where "cards_get cid (st_db s) = Some c" and "deleted_at c = None"
    and "projects_get (project_id c) (st_db s) = Some p" and "st_db v = st_db s"
    and "list_all2 (trashes now) (c # filter (\<lambda>d. deleted_at d = None) (subtree_of (list_all_cards (proj_id p) (st_db s)) cid)) chs"
    and "apply_card_changes env p chs msg v = (Inr u, t)"
proof -
  from t obtain c0 p s1 c v ch v1 chs v2 msg where a: "cards_get cid (st_db s) = Some c0" "require_project env (project_id c0) s = (Inr p, s1)"
    "cards_get cid (st_db s1) = Some c" "deleted_at c = None" "open_project env p s1 = (Inr (), v)"
    "trashed_change env p now c v = (Inr ch, v1)"
    "op_map (trashed_change env p now) (filter (\<lambda>d. deleted_at d = None) (subtree_of (list_all_cards (proj_id p) (st_db v1)) cid)) v1 = (Inr chs, v2)"
    "apply_card_changes env p (ch # chs) msg v2 = (Inr u, t)"
    by (auto simp: trash_def op_simps)
  note q = require_project_settled [OF st a(2)]
  from trashed_change_Inr [OF a(6)] trashed_changes_Inr [OF a(7)] open_project_same_db [OF a(5)] q
  have "v1 = v" "v2 = v" "st_db v = st_db s" "trashes now c ch"
    "list_all2 (trashes now) (filter (\<lambda>d. deleted_at d = None) (subtree_of (list_all_cards (proj_id p) (st_db s)) cid)) chs"
    by auto
  with a q show thesis by (intro that [of c p v "ch # chs" msg]) auto
qed

lemma cards_get_row:
  "wf_db d \<Longrightarrow> nul_free x \<Longrightarrow> cards_get x d = Some r \<longleftrightarrow> r \<in> set (cards d) \<and> card_id r = x"
  by (simp add: cards_get_iff)

lemma trashed_live_path:
  assumes "apply_card_changes env p chs msg s = (Inr u, t)" and "list_all2 (trashes now) cs chs" and "r \<in> set cs" and "deleted_at r = None"
  shows "card_rel_path (card_id r) = Inr (rel_path r)"
proof -
  obtain ch where "ch \<in> set chs" "ch_current ch = r"
    using assms(2,3) by induction (auto simp: trashes_def)
  with check_changes_live_path [OF assms(1)] assms(4) show ?thesis by auto
qed

text \<open>Which rows the walk hands to the trash.\<close>

lemma trash_set_mem:
  assumes w: "wf_db d" and nf: "nul_free x" and c: "c \<in> set (cards d)" "card_id c = cid" and r: "cards_get x d = Some r"
  shows "r \<in> set (c # filter (\<lambda>d. deleted_at d = None) (subtree_of (list_all_cards (project_id c) d) cid))
     \<longleftrightarrow> (r = c \<or> deleted_at r = None \<and> x \<noteq> cid \<and> below (list_all_cards (project_id c) d) cid x)"
proof -
  let ?rows = "list_all_cards (project_id c) d"
  have rx: "r \<in> set (cards d)" "card_id r = x" using r cards_get_row [OF w nf] by auto
  have uniq: "q = r" if "q \<in> set ?rows" "card_id q = x" for q
    using that rx cards_distinct [OF w] by (auto simp: list_all_cards_def distinct_map inj_on_def)
  have "r \<in> set (subtree_of ?rows cid) \<longleftrightarrow> x \<in> card_id ` set (subtree_of ?rows cid)"
    using subtree_of_descendants(3) [of ?rows cid] uniq rx(2) by auto
  then show ?thesis using subtree_of_descendants(2) [of ?rows cid] by auto
qed

text \<open>
  C7: Trashing a card with its subtree trashes exactly the card and its live descendants. After
  success each of them is marked deleted at the given time, with every other field kept; every other
  row (descendants already in the trash, cards elsewhere) is as before.
\<close>

theorem trash_subtree_exact:
  assumes t: "trash env cid now TrashSubtree s = (Inr u, t)" and st: "settled s" and w: "wf_db (st_db s)"
    and nf: "nul_free x" "nul_free cid" and c: "cards_get cid (st_db s) = Some c"
  shows "cards_get x (st_db t) =
     map_option (\<lambda>r. if deleted_at r = None \<and> (x = cid \<or> below (list_all_cards (project_id c) (st_db s)) cid x)
        then r\<lparr>deleted_at := Some now, updated_at := now\<rparr> else r) (cards_get x (st_db s))"
proof -
  obtain p chs v msg where a: "deleted_at c = None" "projects_get (project_id c) (st_db s) = Some p" "st_db v = st_db s"
    "list_all2 (trashes now) (c # filter (\<lambda>d. deleted_at d = None) (subtree_of (list_all_cards (proj_id p) (st_db s)) cid)) chs"
    "apply_card_changes env p chs msg v = (Inr u, t)"
    by (rule trash_subtree_runs [OF t st]) (use c in auto)
  define rows where "rows = list_all_cards (project_id c) (st_db s)"
  define cs where "cs = c # filter (\<lambda>d. deleted_at d = None) (subtree_of rows cid)"
  from a(2) have "list_all_cards (proj_id p) (st_db s) = rows"
    by (auto simp: rows_def projects_get_def list_all_cards_def dest!: find_SomeD)
  with a(4) have l: "list_all2 (trashes now) cs chs" by (simp add: cs_def)
  have cm: "c \<in> set (cards (st_db s))" "card_id c = cid" using c cards_get_row [OF w nf(2)] by auto
  have sub: "set cs \<subseteq> set (cards (st_db s))" "\<forall>c \<in> set cs. deleted_at c = None"
    using subtree_of_descendants(3) [of rows cid] cm a(1) by (auto simp: cs_def rows_def list_all_cards_def)
  have d: "distinct (map card_id cs)"
    using subtree_of_descendants(1,2) [of rows cid] cm(2) by (auto simp: cs_def distinct_map_filter)
  have mem: "r \<in> set cs \<longleftrightarrow> deleted_at r = None \<and> (x = cid \<or> below rows cid x)"
    if r: "cards_get x (st_db s) = Some r" for r
  proof -
    have "card_id r = x" using r cards_get_row [OF w nf(1)] by simp
    then have "r = c \<longleftrightarrow> x = cid" using c r cm(2) by (metis option.inject)
    then show ?thesis using trash_set_mem [OF w nf(1) cm r] a(1) unfolding cs_def rows_def by metis
  qed
  show ?thesis
  proof (cases "cards_get x (st_db s)")
    case None
    with apply_trashes_rows [OF a(5) l d _ _ nf(1)] w sub(1) a(3) show ?thesis by simp
  next
    case (Some r)
    then have r: "r \<in> set (cards (st_db s))" "card_id r = x" using cards_get_row [OF w nf(1)] by auto
    have "x \<in> card_id ` set cs \<longleftrightarrow> r \<in> set cs"
      using r sub(1) cards_distinct [OF w] by (auto simp: distinct_map inj_on_def)
    moreover have "changed_row (the (find (\<lambda>ch. card_id (ch_current ch) = x) chs)) r = r\<lparr>deleted_at := Some now, updated_at := now\<rparr>"
      if "r \<in> set cs"
      using trashes_row [OF l d that cards_row_ok [OF w r(1)]] trashed_live_path [OF a(5) l that] sub(2) that r(2) by simp
    ultimately show ?thesis
      using apply_trashes_rows [OF a(5) l d _ _ nf(1)] w sub(1) a(3) Some mem [OF Some] by (auto simp: rows_def)
  qed
qed

lemma demo_trash_runs: "\<not> isl (fst (trash (demo_env None) ''abcd'' 5 TrashSubtree demo_store))"
  by code_simp

lemma demo_trash_wf: "wf_db (st_db demo_store)" "cards_get ''abcd'' (st_db demo_store) = Some demo_live"
  by code_simp+

theorem trash_subtree_exact_witness:
  "\<exists>t. trash (demo_env None) ''abcd'' 5 TrashSubtree demo_store = (Inr (), t)
     \<and> cards_get ''abcd'' (st_db t) = Some (demo_live\<lparr>deleted_at := Some 5, updated_at := 5\<rparr>)"
proof -
  obtain r t where r: "trash (demo_env None) ''abcd'' 5 TrashSubtree demo_store = (r, t)" by fastforce
  with demo_trash_runs have "r = Inr ()" by (cases r) auto
  with r have t: "trash (demo_env None) ''abcd'' 5 TrashSubtree demo_store = (Inr (), t)" by simp
  have "settled demo_store" by (simp add: settled_def demo_store_def)
  from trash_subtree_exact [OF t this demo_trash_wf(1) _ _ demo_trash_wf(2), of "''abcd''"] demo_trash_wf(2)
  show ?thesis by (intro exI [of _ t] conjI t) (simp add: nul_free_def demo_live_def)
qed

end
