(* ===== verification/Rebuild_Index.thy ===== *)
theory Rebuild_Index
  imports Rebuilder
begin

text \<open>
  What a rebuild of the index achieves: the insertion loop ends, and fails for want of a parent exactly when a
  card does not hang from a root by way of cards of the same rebuild; a rebuild from the files the store wrote
  reproduces the card rows.
\<close>

section \<open>Parents first\<close>

abbreviation rec_id :: "card_record \<Rightarrow> string" where
  "rec_id r \<equiv> card_id (cr_card r)"

abbreviation rec_parent :: "card_record \<Rightarrow> string option" where
  "rec_parent r \<equiv> parent_card_id (cr_card r)"

text \<open>The ids that can be reached from parentless records.\<close>

inductive grounded :: "card_record list \<Rightarrow> string \<Rightarrow> bool" for rs where
  base: "r \<in> set rs \<Longrightarrow> rec_parent r = None \<Longrightarrow> grounded rs (rec_id r)"
| step: "grounded rs p \<Longrightarrow> r \<in> set rs \<Longrightarrow> rec_parent r = Some p \<Longrightarrow> grounded rs (rec_id r)"

definition hangs :: "card_record list \<Rightarrow> card_record \<Rightarrow> bool" where
  "hangs rs r \<longleftrightarrow> (case rec_parent r of None \<Rightarrow> True | Some p \<Rightarrow> grounded rs p)"

lemma hangs_grounded: "hangs rs r \<Longrightarrow> r \<in> set rs \<Longrightarrow> grounded rs (rec_id r)"
  by (auto simp: hangs_def intro: grounded.intros split: option.splits)

text \<open>The tables that inserting cards leaves alone.\<close>

definition same_others :: "db \<Rightarrow> db \<Rightarrow> bool" where
  "same_others d d' \<longleftrightarrow> projects d' = projects d \<and> db_ai d' = db_ai d \<and> db_res d' = db_res d"

lemma same_others_refl [simp]: "same_others d d"
  by (simp add: same_others_def)

lemma same_others_trans: "same_others a b \<Longrightarrow> same_others b c \<Longrightarrow> same_others a c"
  by (simp add: same_others_def)

text \<open>The row a record becomes.\<close>

lemma insert_record_cards:
  assumes "insert_record env r d = Inr d'"
  shows "cards d' = cards d @ [bind_card (cr_card r)]" and "same_others d d'" and "wf_db d \<Longrightarrow> wf_db d'"
proof -
  from assms obtain d1 where d1: "cards_create (cr_card r) d = Inr d1"
    and c: "cards d1 = cards d @ [bind_card (cr_card r)]" "same_others d d1"
    by (auto simp: same_others_def insert_record_def rbind_eq_Inr cards_create_def Let_def split: if_splits)
  define d2 where "d2 = (if e_fts env then fts_upsert_card (rec_id r) (project_id (cr_card r)) (title (cr_card r)) (cr_body r) d1 else d1)"
  have d2: "cards d2 = cards d1" "same_others d1 d2" "wf_db d1 \<Longrightarrow> wf_db d2"
    by (auto simp: same_others_def d2_def fts_upsert_card_def fts_delete_card_def Let_def wf_db_defs list_all_iff row_ok_def)
  have "cards d' = cards d1 \<and> same_others d1 d' \<and> (wf_db d1 \<longrightarrow> wf_db d')"
  proof (cases "deleted_at (cr_card r)")
    case None
    with assms d1 obtain d3 where d3: "set_tags_for_card (project_id (cr_card r)) (rec_id r) (extract_tags (e_md env) (cr_body r))
        (created_at (cr_card r)) d2 = Inr d3"
      "d' = d3 \<or> replace_milestones (project_id (cr_card r)) (rec_id r) (cr_milestones r) d3 = Inr d'"
      by (auto simp: insert_record_def rbind_eq_Inr d2_def Let_def split: if_splits)
    then have "cards d3 = cards d2 \<and> same_others d2 d3" by (auto simp: set_tags_for_card_iff same_others_def)
    moreover from d3(2) have "cards d' = cards d3 \<and> same_others d3 d'" by (auto simp: replace_milestones_iff same_others_def)
    moreover from d3(2) have "wf_db d3 \<longrightarrow> wf_db d'" using wf_replace_milestones by blast
    moreover have "wf_db d2 \<longrightarrow> wf_db d3" using wf_set_tags_for_card [OF _ d3(1)] by blast
    ultimately show ?thesis using d2 same_others_trans by metis
  next
    case (Some t)
    with assms d1 show ?thesis by (simp add: insert_record_def)
  qed
  with c d1 show "cards d' = cards d @ [bind_card (cr_card r)]" "same_others d d'" "wf_db d \<Longrightarrow> wf_db d'"
    by (auto intro: wf_cards_create same_others_trans)
qed

text \<open>One round inserts some records; the rest wait for a parent that was absent when their turn came.\<close>

definition round_effect :: "card_record list \<Rightarrow> string list \<Rightarrow> db \<Rightarrow> card_record list \<Rightarrow> string list \<Rightarrow> db \<Rightarrow> card_record list \<Rightarrow> bool" where
  "round_effect rs ins d left ins' d' new \<longleftrightarrow>
     mset rs = mset left + mset new \<and> set ins' = set ins \<union> rec_id ` set new
     \<and> cards d' = cards d @ map (bind_card \<circ> cr_card) new \<and> (wf_db d \<longrightarrow> wf_db d') \<and> same_others d d'
     \<and> (\<forall>all. set rs \<subseteq> set all \<and> (\<forall>i \<in> set ins. grounded all i) \<longrightarrow> (\<forall>r \<in> set new. hangs all r))
     \<and> (new = [] \<longrightarrow> (\<forall>r \<in> set left. \<exists>p. rec_parent r = Some p \<and> p \<notin> set ins))"

lemma round_effect_skip:
  assumes "round_effect rs ins d left ins' d' new" and "rec_parent r = Some p" and "p \<notin> set ins"
  shows "round_effect (r # rs) ins d (r # left) ins' d' new"
  using assms by (simp add: round_effect_def)

lemma round_effect_insert:
  assumes h: "round_effect rs (rec_id r # ins) d1 left ins' d' new" and r: "insert_record env r d = Inr d1"
    and p: "\<forall>p. rec_parent r = Some p \<longrightarrow> p \<in> set ins"
  shows "round_effect (r # rs) ins d left ins' d' (r # new)"
proof -
  have "\<forall>q \<in> set (r # new). hangs all q"
    if a: "set (r # rs) \<subseteq> set all" "\<forall>i \<in> set ins. grounded all i" for all
  proof -
    from p a(2) have "hangs all r" by (auto simp: hangs_def split: option.splits)
    moreover from hangs_grounded [OF this] a(1) have "grounded all (rec_id r)" by simp
    ultimately show ?thesis using h a by (simp add: round_effect_def)
  qed
  with h insert_record_cards [OF r] show ?thesis by (auto simp: round_effect_def intro: same_others_trans)
qed

lemma insert_round_effect:
  assumes "insert_round env rs ins d = Inr (left, ins', d')"
  shows "\<exists>new. round_effect rs ins d left ins' d' new"
  using assms
proof (induction env rs ins d arbitrary: left ins' d' rule: insert_round.induct)
  case (2 env r rs ins d)
  show ?case
  proof (cases "case rec_parent r of None \<Rightarrow> False | Some p \<Rightarrow> p \<notin> set ins")
    case True
    with "2.prems" obtain l p where l: "insert_round env rs ins d = Inr (l, ins', d')" "left = r # l"
      and p: "rec_parent r = Some p" "p \<notin> set ins" by (auto simp: rbind_eq_Inr split: option.splits)
    from "2.IH"(1) [OF True l(1)] round_effect_skip [OF _ p] l(2) show ?thesis by blast
  next
    case False
    with "2.prems" obtain d1 where l: "insert_record env r d = Inr d1" "insert_round env rs (rec_id r # ins) d1 = Inr (left, ins', d')"
      by (auto simp: rbind_eq_Inr)
    from False have "\<forall>p. rec_parent r = Some p \<longrightarrow> p \<in> set ins" by auto
    from "2.IH"(2) [OF False l(2)] round_effect_insert [OF _ l(1) this] show ?thesis by blast
  qed
qed (auto simp: round_effect_def intro!: exI [of _ "[]"])

section \<open>The whole loop\<close>

lemma insert_rounds_rows:
  assumes "insert_rounds env rs ins d = Inr d'"
  shows "(\<exists>new. mset new = mset rs \<and> cards d' = cards d @ map (bind_card \<circ> cr_card) new)
     \<and> (wf_db d \<longrightarrow> wf_db d') \<and> same_others d d'"
  using assms
proof (induction env rs ins d rule: insert_rounds.induct)
  case (1 env rs ins d)
  show ?case
  proof (cases "rs = []")
    case True
    with "1.prems" show ?thesis by (simp add: insert_rounds.simps)
  next
    case False
    with "1.prems" obtain left ins' d1 where l: "insert_round env rs ins d = Inr (left, ins', d1)" "length left \<noteq> length rs"
      "insert_rounds env left ins' d1 = Inr d'"
      by (subst (asm) insert_rounds.simps) (auto split: sum.splits if_splits)
    from insert_round_effect [OF l(1)] obtain new where n: "round_effect rs ins d left ins' d1 new" by blast
    from "1.IH" [OF False l(1) refl refl l(2,3)] obtain new' where "mset new' = mset left"
      "cards d' = cards d1 @ map (bind_card \<circ> cr_card) new'" "wf_db d1 \<longrightarrow> wf_db d'" "same_others d1 d'" by blast
    with n show ?thesis by (intro conjI exI [of _ "new @ new'"]) (auto simp: round_effect_def intro: same_others_trans)
  qed
qed

abbreviation unresolved :: exn where
  "unresolved \<equiv> RuntimeError ''unresolved parent_card_id during rebuild''"

lemma insert_record_error: "insert_record env r d \<noteq> Inl unresolved"
proof -
  have "set_tags_for_card pid cid ts now d' \<noteq> Inl unresolved" for pid cid ts now d'
    using rfold_error [where P = "\<lambda>e. e \<noteq> unresolved" and f = "insert_tag pid cid now"]
    by (fastforce simp: set_tags_for_card_def insert_tag_def Let_def split: if_splits)
  moreover have "replace_milestones pid cid ms d' \<noteq> Inl unresolved" for pid cid ms d'
    using rfold_error [where P = "\<lambda>e. e \<noteq> unresolved" and f = "insert_milestone pid cid"]
    by (fastforce simp: replace_milestones_def insert_milestone_def Let_def split: if_splits)
  moreover have "cards_create c d \<noteq> Inl unresolved" for c by (simp add: cards_create_def Let_def)
  ultimately show ?thesis by (auto simp: insert_record_def rbind_eq_Inl Let_def split: if_splits)
qed

lemma insert_round_error: "insert_round env rs ins d \<noteq> Inl unresolved"
proof (induction env rs ins d rule: insert_round.induct)
  case (2 env r rs ins d)
  then show ?case using insert_record_error [of env r d]
    by (cases "case rec_parent r of None \<Rightarrow> False | Some p \<Rightarrow> p \<notin> set ins") (auto simp: rbind_eq_Inl)
qed simp

text \<open>When a round makes no progress, nothing that is left hangs from a root.\<close>

lemma stuck_not_hanging:
  assumes all: "\<forall>r \<in> set all. r \<in> set rs \<or> rec_id r \<in> set ins"
    and stuck: "\<forall>r \<in> set rs. \<exists>p. rec_parent r = Some p \<and> p \<notin> set ins" and r: "r \<in> set rs"
  shows "\<not> hangs all r"
proof -
  have "i \<in> set ins" if "grounded all i" for i
    using that by induction (use all stuck in fastforce)+
  with stuck r show ?thesis by (auto simp: hangs_def)
qed

definition progress :: "card_record list \<Rightarrow> card_record list \<Rightarrow> string list \<Rightarrow> bool" where
  "progress all rs ins \<longleftrightarrow> set rs \<subseteq> set all \<and> (\<forall>i \<in> set ins. grounded all i)
     \<and> (\<forall>r \<in> set all. r \<in> set rs \<or> hangs all r \<and> rec_id r \<in> set ins)"

lemma round_effectD:
  assumes "round_effect rs ins d left ins' d' new"
  shows "set rs = set left \<union> set new" and "set ins' = set ins \<union> rec_id ` set new"
    and "length rs = length left + length new"
proof -
  from assms have m: "mset rs = mset left + mset new" and "set ins' = set ins \<union> rec_id ` set new"
    by (simp_all add: round_effect_def)
  from arg_cong [OF m, of set_mset] arg_cong [OF m, of size] this(2)
  show "set rs = set left \<union> set new" "set ins' = set ins \<union> rec_id ` set new" "length rs = length left + length new" by simp_all
qed

lemma progress_round:
  assumes p: "progress all rs ins" and e: "round_effect rs ins d left ins' d' new"
  shows "progress all left ins'"
proof -
  note s = round_effectD [OF e]
  from p have g: "set rs \<subseteq> set all" "\<forall>i \<in> set ins. grounded all i" by (simp_all add: progress_def)
  with e have h: "\<forall>r \<in> set new. hangs all r" by (simp add: round_effect_def)
  have "grounded all (rec_id r)" if "r \<in> set new" for r
    using h that s(1) g(1) by (intro hangs_grounded) auto
  with g(2) have "\<forall>i \<in> set ins'. grounded all i" unfolding s(2) by blast
  moreover have "r \<in> set left \<or> hangs all r \<and> rec_id r \<in> set ins'" if "r \<in> set all" for r
    using p that h unfolding s(2) progress_def s(1) by blast
  ultimately show ?thesis using g(1) s(1) by (simp add: progress_def)
qed

lemma insert_rounds_outcome:
  assumes "progress all rs ins"
  shows "(\<forall>d'. insert_rounds env rs ins d = Inr d' \<longrightarrow> list_all (hangs all) all)
     \<and> (insert_rounds env rs ins d = Inl unresolved \<longrightarrow> \<not> list_all (hangs all) all)"
  using assms
proof (induction env rs ins d rule: insert_rounds.induct)
  case (1 env rs ins d)
  show ?case
  proof (cases "rs = []")
    case True
    with "1.prems" show ?thesis by (simp add: insert_rounds.simps progress_def list_all_iff)
  next
    case ne: False
    show ?thesis
    proof (cases "insert_round env rs ins d")
      case (Inl e)
      with ne insert_round_error [of env rs ins d] show ?thesis by (simp add: insert_rounds.simps)
    next
      case (Inr res)
      then obtain left ins' d' where l: "insert_round env rs ins d = Inr (left, ins', d')" by (cases res) auto
      from insert_round_effect [OF l] obtain new where n: "round_effect rs ins d left ins' d' new" by blast
      show ?thesis
      proof (cases "length left = length rs")
        case True
        with round_effectD [OF n] have "new = []" "set rs = set left" by auto
        with n have "\<forall>r \<in> set rs. \<exists>p. rec_parent r = Some p \<and> p \<notin> set ins" by (simp add: round_effect_def)
        with "1.prems" have "\<forall>r \<in> set rs. \<not> hangs all r" by (intro ballI stuck_not_hanging) (auto simp: progress_def)
        with ne "1.prems" have "\<exists>r \<in> set all. \<not> hangs all r" by (cases rs) (auto simp: progress_def)
        with True l ne show ?thesis by (simp add: insert_rounds.simps list_all_iff)
      next
        case False
        from "1.IH" [OF ne l refl refl False progress_round [OF "1.prems" n]] False l ne show ?thesis
          by (simp add: insert_rounds.simps [of env rs])
      qed
    qed
  qed
qed

text \<open>
  C19: A rebuild that has read its card files fails when some card does not hang, parent by parent, from a card
  without parent among these files, in particular when the file of a parent is missing. When every card does, the
  insertion loop never gives up for want of a parent, in whatever order the files were found.
\<close>

theorem rebuild_needs_parents:
  assumes "load_cards env p disk = Inr rs"
  shows "if list_all (hangs rs) rs then insert_rounds env rs [] d \<noteq> Inl unresolved
     else \<exists>e. rebuild_project_in_transaction opts env p disk d = Inl e"
proof -
  have "progress rs rs []" by (simp add: progress_def)
  note o = insert_rounds_outcome [OF this, of env]
  show ?thesis
  proof (cases "list_all (hangs rs) rs")
    case True
    with o [of d] show ?thesis by auto
  next
    case False
    have "rebuild_project_in_transaction opts env p disk d \<noteq> Inr x" for x
    proof
      assume "rebuild_project_in_transaction opts env p disk d = Inr x"
      with assms obtain d1 d2 where "insert_rounds env rs [] d1 = Inr d2"
        by (auto simp: rebuild_project_in_transaction_def rbind_eq_Inr split: prod.splits)
      with o [of d1] False show False by auto
    qed
    with False show ?thesis by (metis sum.exhaust)
  qed
qed

section \<open>Files the store wrote\<close>

definition row_file :: "card \<Rightarrow> path" where
  "row_file c = (if deleted_at c = None then rel_path c else ''trash/'' @ rel_path c)"

text \<open>The row's file holds the rendered row, sealed as the project asks.\<close>

definition filed_row :: "env \<Rightarrow> project \<Rightarrow> disk \<Rightarrow> card \<Rightarrow> bool" where
  "filed_row env p disk c \<longleftrightarrow>
     is_valid_uuid (card_id c) \<and> card_rel_path (card_id c) = Inr (rel_path c)
     \<and> title c \<noteq> [] \<and> 0 < created_at c \<and> 0 < updated_at c
     \<and> (\<exists>raw links ms body. d_files disk (row_file c) = Some raw
          \<and> decode_blob_for_project env p raw =
              Inr (render_card_front_matter (e_yaml env) (c\<lparr>rel_path := row_file c\<rparr>) links ms @ body)
          \<and> faithful (e_yaml env) (emit_card (c\<lparr>rel_path := row_file c\<rparr>) links ms))"

lemma load_rendered:
  assumes r: "d_files disk (row_file c) = Some raw"
    "decode_blob_for_project env p raw = Inr (render_card_front_matter (e_yaml env) (c\<lparr>rel_path := row_file c\<rparr>) links ms @ body)"
    "faithful (e_yaml env) (emit_card (c\<lparr>rel_path := row_file c\<rparr>) links ms)"
    and u: "is_valid_uuid (card_id c)" "card_rel_path (card_id c) = Inr (rel_path c)" "title c \<noteq> []" "0 < created_at c" "0 < updated_at c"
    and p: "project_id c = proj_id p"
  shows "load_card_file env p disk (deleted_at c \<noteq> None) (row_file c) = Inr \<lparr>cr_card = c, cr_body = body,
     cr_links = map (record_link c) (filter (\<lambda>l. to_card_id l \<noteq> []) (map (filed_link (c\<lparr>rel_path := row_file c\<rparr>)) links)),
     cr_milestones = map (record_milestone c) (filter (\<lambda>m. milestone_id m \<noteq> []) (map (filed_milestone (c\<lparr>rel_path := row_file c\<rparr>)) ms))\<rparr>"
proof -
  have "card_id c \<noteq> []" using u(1) by (auto simp: is_valid_uuid_def)
  moreover have "(if deleted_at c \<noteq> None then card_trash_rel_path (card_id c) else card_rel_path (card_id c)) = Inr (row_file c)"
    using u(2) by (auto simp: row_file_def card_trash_rel_path_def)
  moreover have "record_card p (deleted_at c \<noteq> None) m (card_id c) (rel_path c) b (c\<lparr>rel_path := row_file c\<rparr>) = c" for m b
    using u p by (auto simp: record_card_def Let_def)
  ultimately show ?thesis
    using u(1,2) r(1,2) card_file_parses [OF r(3), of body] by (simp add: load_card_file_def)
qed

lemma load_filed_row:
  assumes "filed_row env p disk c" and "project_id c = proj_id p"
  shows "\<exists>r. load_card_file env p disk (deleted_at c \<noteq> None) (row_file c) = Inr r \<and> cr_card r = c"
  using assms load_rendered unfolding filed_row_def by fastforce

text \<open>Every card file is found by its directory and extension, and only in its own directory.\<close>

lemma path_filename_append: "CHR ''/'' \<notin> set f \<Longrightarrow> path_filename (dir @ CHR ''/'' # f) = f"
proof -
  assume "CHR ''/'' \<notin> set f"
  then have "takeWhile (\<lambda>c. c \<noteq> CHR ''/'') (rev f @ CHR ''/'' # rev dir) = rev f" by (subst takeWhile_append2) auto
  then show ?thesis by (simp add: path_filename_def)
qed

lemma row_file_listed:
  assumes f: "filed_row env p disk c"
  shows "path_extension (row_file c) = ''.md''"
    and "starts_with (row_file c) ''cards/'' \<longleftrightarrow> deleted_at c = None"
    and "starts_with (row_file c) ''trash/cards/'' \<longleftrightarrow> deleted_at c \<noteq> None"
proof -
  let ?f = "card_id c @ ''.md''"
  from f have u: "is_valid_uuid (card_id c)" and q: "card_rel_path (card_id c) = Inr (rel_path c)" by (auto simp: filed_row_def)
  have "x \<noteq> CHR ''/'' \<and> x \<noteq> CHR ''.''" if "x \<in> set (card_id c)" for x
    using uuid_char_cases [OF u that] by (auto simp: is_hex_digit_def is_digit_def char_le_iff)
  then have n: "CHR ''/'' \<notin> set ?f" "CHR ''.'' \<notin> set (card_id c)" by auto
  have "\<exists>dir. row_file c = dir @ CHR ''/'' # ?f"
    using q by (auto simp: row_file_def card_rel_path_Inr intro: exI [of _ "''cards/'' @ take 2 (card_id c) @ ''/'' @ take 2 (drop 2 (card_id c))"]
        exI [of _ "''trash/cards/'' @ take 2 (card_id c) @ ''/'' @ take 2 (drop 2 (card_id c))"])
  then have "path_filename (row_file c) = ?f" using path_filename_append [OF n(1)] by auto
  moreover have "takeWhile (\<lambda>x. x \<noteq> CHR ''.'') (rev ?f) = ''dm''" by simp
  moreover have "length (card_id c) = 36" using u by (simp add: is_valid_uuid_def)
  ultimately show "path_extension (row_file c) = ''.md''" by (simp add: path_extension_def Let_def)
  show "starts_with (row_file c) ''cards/'' \<longleftrightarrow> deleted_at c = None"
    "starts_with (row_file c) ''trash/cards/'' \<longleftrightarrow> deleted_at c \<noteq> None"
    using q by (auto simp: row_file_def card_rel_path_Inr starts_with_def)
qed

text \<open>The records of a project whose files are those of its rows.\<close>

definition project_rows :: "project \<Rightarrow> db \<Rightarrow> card set" where
  "project_rows p d = {c \<in> set (cards d). project_id c = proj_id p}"

definition in_step :: "env \<Rightarrow> project \<Rightarrow> disk \<Rightarrow> db \<Rightarrow> bool" where
  "in_step env p disk d \<longleftrightarrow>
     (\<forall>c \<in> project_rows p d. filed_row env p disk c)
     \<and> (\<forall>q \<in> dom (d_files disk). (starts_with q ''cards/'' \<or> starts_with q ''trash/cards/'') \<and> path_extension q = ''.md''
          \<longrightarrow> (\<exists>c \<in> project_rows p d. row_file c = q))"

lemma load_part:
  assumes i: "in_step env p disk d" and w: "set (e_walk env (d_files disk)) = dom (d_files disk)"
    and b: "base = ''cards'' \<and> \<not> trashed \<or> base = ''trash/cards'' \<and> trashed"
    and l: "rmap (load_card_file env p disk trashed) (collect_files env disk base ''.md'') = Inr rs"
  shows "cr_card ` set rs = {c \<in> project_rows p d. (deleted_at c \<noteq> None) = trashed}"
proof -
  let ?R = "{c \<in> project_rows p d. (deleted_at c \<noteq> None) = trashed}"
  have fr: "filed_row env p disk c" "project_id c = proj_id p" if "c \<in> ?R" for c
    using i that by (auto simp: in_step_def project_rows_def)
  have files: "set (collect_files env disk base ''.md'') = row_file ` ?R"
  proof (intro equalityI subsetI)
    fix q assume q: "q \<in> set (collect_files env disk base ''.md'')"
    then have "q \<in> dom (d_files disk)" "starts_with q (base @ ''/'')" "path_extension q = ''.md''"
      using w by (auto simp: collect_files_def)
    moreover from this b i obtain c where "c \<in> project_rows p d" "row_file c = q" by (auto simp: in_step_def)
    ultimately show "q \<in> row_file ` ?R"
      using b i row_file_listed(2,3) [of env p disk c] by (auto simp: in_step_def intro!: image_eqI [of _ _ c])
  next
    fix q assume "q \<in> row_file ` ?R"
    then obtain c where c: "c \<in> ?R" "q = row_file c" by blast
    from fr(1) [OF c(1)] have "q \<in> dom (d_files disk)" by (auto simp: filed_row_def c(2))
    with row_file_listed [OF fr(1) [OF c(1)]] c b w show "q \<in> set (collect_files env disk base ''.md'')"
      by (auto simp: collect_files_def)
  qed
  note set_rs = rmap_Inr_set [OF l, unfolded files]
  show ?thesis
  proof (intro equalityI subsetI)
    fix x assume "x \<in> cr_card ` set rs"
    then obtain r where r: "r \<in> set rs" "x = cr_card r" by blast
    from r(1) set_rs have "Inr r \<in> load_card_file env p disk trashed ` row_file ` ?R" by blast
    then obtain c where c: "c \<in> ?R" "load_card_file env p disk trashed (row_file c) = Inr r" by force
    with load_filed_row [OF fr [OF c(1)]] r(2) show "x \<in> ?R" by auto
  next
    fix c assume c: "c \<in> ?R"
    with load_filed_row [OF fr [OF c]] obtain r where "load_card_file env p disk trashed (row_file c) = Inr r" "cr_card r = c" by auto
    moreover from this c have "Inr r \<in> load_card_file env p disk trashed ` row_file ` ?R" by force
    ultimately show "c \<in> cr_card ` set rs" unfolding set_rs [symmetric] by auto
  qed
qed

section \<open>The tables around the cards\<close>

lemma clear_project_rows:
  assumes ok: "clear_project pid d = Inr d'" and wf: "wf_db d"
  shows "wf_db d'" and "c \<in> set (cards d') \<Longrightarrow> project_id c \<noteq> c_str pid" and "projects d' = projects d"
    and "wf_ai d \<Longrightarrow> wf_ai d'" and "wf_resources d \<Longrightarrow> wf_resources d'"
proof -
  let ?k = "c_str pid"
  define d1 where "d1 = d\<lparr>card_links := delete_where (\<lambda>l. link_project_id l = ?k) (card_links d)\<rparr>"
  define d2 where "d2 = drop_project_cards ?k d1"
  define d3 where "d3 = delete_threads (\<lambda>t. th_project_id t = ?k) d2"
  define d4 where "d4 = d3\<lparr>cards_fts := delete_where (\<lambda>r. fts_project_id r = ?k) (cards_fts d3),
    db_ai := (db_ai d3)\<lparr>ai_fts := delete_where (\<lambda>r. af_project_id r = ?k) (ai_fts (db_ai d3))\<rparr>\<rparr>"
  have loc: "delete_locations (\<lambda>l. lr_project_id l = ?k) (RuntimeError ''delete failed'')
      (delete_resources (\<lambda>r. rr_project_id r = ?k) d4) = Inr d'"
    using ok by (simp add: clear_project_def d1_def d2_def d3_def d4_def Let_def)
  then obtain t where d': "d' = d4\<lparr>db_res := t\<rparr>"
    by (auto simp: delete_locations_def delete_resources_def set_locations_def Let_def split: if_splits)
  have w1: "wf_db d1" unfolding d1_def
    by (rule wf_index_update [OF wf]) (use wf in \<open>auto simp: wf_db_defs list_all_iff\<close>)
  then have w2: "wf_db d2" unfolding d2_def drop_project_cards_def by (rule fold_cards_remove_wf(1))
  have sel: "cards d' = cards d2" "card_links d' = card_links d2" "card_tags d' = card_tags d2" "milestones d' = milestones d2"
    "projects d' = projects d2"
    by (simp_all add: d' d4_def d3_def delete_threads_def set_messages_def set_threads_def Let_def)
  show "wf_db d'" by (rule wf_db_sel [OF w2 sel(5) sel(1-4)])
  show "project_id c \<noteq> c_str pid" if "c \<in> set (cards d')"
    using that cascade_rows(1) [OF w1, of c ?k] unfolding sel d2_def drop_project_cards_def by simp
  show pr: "projects d' = projects d" by (simp only: sel d2_def drop_project_cards_sel) (simp add: d1_def)
  show "wf_ai d'" if "wf_ai d"
  proof -
    have "wf_ai d1" by (rule wf_ai_cong [OF _ _ that]) (simp_all add: d1_def)
    then have "wf_ai d3" by (simp add: d3_def d2_def wf_delete_threads wf_ai_drop_cards)
    then show ?thesis by (rule wf_ai_cong [rotated 2]) (simp_all add: d' d4_def)
  qed
  show "wf_resources d'" if "wf_resources d"
  proof -
    have "db_res d4 = db_res d" "projects d4 = projects d"
      by (simp_all add: d4_def d3_def delete_threads_def Let_def d2_def drop_project_cards_sel d1_def)
    with that have "wf_resources d4" using wf_resources_cong [of d d4] by simp
    then show ?thesis using wf_delete_locations [OF _ loc] by (simp add: wf_delete_resources)
  qed
qed

lemma clear_project_projects: "clear_project pid d = Inr d' \<Longrightarrow> projects d' = projects d"
  by (auto simp: clear_project_def delete_locations_def delete_resources_def set_locations_def delete_threads_def drop_project_cards_sel Let_def
      split: if_splits)

lemma locations_put_res: "locations_put jl l d = Inr d' \<Longrightarrow> \<exists>t. d' = d\<lparr>db_res := t\<rparr>"
  by (auto simp: locations_put_def rbind_eq_Inr set_locations_def Let_def split: if_splits)

lemma put_bundle_res:
  assumes "put_bundle b d = Inr d'"
  shows "\<exists>t. d' = d\<lparr>db_res := t\<rparr>"
proof -
  have step: "\<exists>t. d2 = d\<lparr>db_res := t\<rparr>" if "\<exists>t. d1 = d\<lparr>db_res := t\<rparr>" "f \<in> set (put_bundle_steps b)" "f d1 = Inr d2" for f d1 d2
    using that by (auto simp: put_bundle_steps_def metadata_steps_def asset_steps_def Let_def resources_remove_def delete_resources_def
        insert_resource_row_def insert_metadata_row_def check_property_def insert_asset_def insert_placement_def split: if_splits)
  from assms have "rfold (\<lambda>step. step) (put_bundle_steps b) d = Inr d'" by (auto simp: put_bundle_def rbind_eq_Inr)
  moreover have "\<exists>t. d = d\<lparr>db_res := t\<rparr>" by (rule exI [of _ "db_res d"]) simp
  ultimately show ?thesis by (rule rfold_invariant) (rule step)
qed

lemma put_resources_res:
  assumes "put_resources env ls bs d = Inr d'"
  shows "\<exists>t. d' = d\<lparr>db_res := t\<rparr>" and "wf_resources d \<Longrightarrow> wf_resources d'"
proof -
  from assms obtain d1 where d1: "rfold (locations_put (e_json env)) ls d = Inr d1" "rfold put_bundle bs d1 = Inr d'"
    by (auto simp: put_resources_def rbind_eq_Inr)
  have id: "\<exists>t. d = d\<lparr>db_res := t\<rparr>" by (rule exI [of _ "db_res d"]) simp
  have "\<exists>t. d1 = d\<lparr>db_res := t\<rparr>" using d1(1) id by (rule rfold_invariant) (auto dest!: locations_put_res)
  with d1(2) show "\<exists>t. d' = d\<lparr>db_res := t\<rparr>" by (rule rfold_invariant) (auto dest!: put_bundle_res)
  assume "wf_resources d"
  with d1(1) have "wf_resources d1" by (rule rfold_invariant) (rule wf_locations_put)
  with d1(2) show "wf_resources d'" by (rule rfold_invariant) (rule wf_put_bundle)
qed

text \<open>Writing links touches no other table.\<close>

lemma upsert_links_same:
  assumes "upsert_links pid from ls d = Inr d'"
  shows "\<exists>t. d' = d\<lparr>card_links := t\<rparr>"
proof -
  have "\<exists>t. d = d\<lparr>card_links := t\<rparr>" by (rule exI [of _ "card_links d"]) simp
  with assms show ?thesis unfolding upsert_links_def
    by (rule rfold_invariant) (auto simp: upsert_link_def Let_def split: if_splits)
qed

lemma write_links_same:
  assumes "write_links rs d = Inr d'"
  shows "\<exists>t. d' = d\<lparr>card_links := t\<rparr>" and "wf_db d \<Longrightarrow> wf_db d'"
proof -
  have "\<exists>t. d = d\<lparr>card_links := t\<rparr>" by (rule exI [of _ "card_links d"]) simp
  with assms show "\<exists>t. d' = d\<lparr>card_links := t\<rparr>" unfolding write_links_def
    by (rule rfold_invariant) (auto dest!: upsert_links_same split: if_splits)
  assume "wf_db d"
  with assms show "wf_db d'" unfolding write_links_def
    by (rule rfold_invariant) (auto intro: wf_upsert_links split: if_splits)
qed

lemma wf_db_ai [simp]: "wf_db (d\<lparr>db_ai := t\<rparr>) = wf_db d"
  by (simp add: wf_db_defs list_all_iff row_ok_def)

lemma wf_ai_links [simp]: "wf_ai (d\<lparr>card_links := t\<rparr>) = wf_ai d"
  by (auto simp: wf_ai_def card_exists_def list_all_iff split: option.splits)

text \<open>Inserting AI rows: only the AI tables and the links change.\<close>

definition ai_only :: "db \<Rightarrow> db \<Rightarrow> bool" where
  "ai_only d d' \<longleftrightarrow> (\<exists>t ls. d' = d\<lparr>db_ai := t, card_links := ls\<rparr>) \<and> (wf_db d \<longrightarrow> wf_db d') \<and> (wf_ai d \<longrightarrow> wf_ai d')"

lemma ai_only_refl [simp]: "ai_only d d"
  unfolding ai_only_def by (intro conjI exI [of _ "db_ai d"] exI [of _ "card_links d"]) simp_all

lemma ai_only_trans:
  assumes "ai_only a b" and "ai_only b c"
  shows "ai_only a c"
proof -
  from assms obtain t ls where "c = a\<lparr>db_ai := t, card_links := ls\<rparr>" by (auto simp: ai_only_def)
  with assms show ?thesis unfolding ai_only_def by blast
qed

lemma ai_only_threads_create: "threads_create t d = Inr d' \<Longrightarrow> ai_only d d'"
  using wf_threads_create [of d t d'] unfolding ai_only_def
  by (auto simp: thread_table.ins_iff set_threads_def intro!: exI [of _ "card_links d"])

lemma ai_only_insert_message: "insert_message m d = Inr d' \<Longrightarrow> ai_only d d'"
  using wf_insert_message [of d m d'] unfolding ai_only_def
  by (auto simp: message_table.ins_iff set_messages_def intro!: exI [of _ "card_links d"])

lemma ai_only_links: "upsert_links pid from ls d = Inr d' \<Longrightarrow> ai_only d d'"
  using upsert_links_same [of pid "from" ls d d'] wf_upsert_links [of d pid "from" ls d'] unfolding ai_only_def
  by (auto intro!: exI [of _ "db_ai d"])

lemma ai_only_fts: "ai_only d (fts_upsert_message mid tid pid text d)"
  using wf_message_updates(5) [of d] unfolding ai_only_def
  by (auto simp: fts_upsert_message_def fts_delete_message_def Let_def intro!: exI [of _ "card_links d"])

lemma ai_only_record:
  assumes "insert_message_record env p r d = Inr d'"
  shows "ai_only d d'"
proof -
  let ?m = "mr_message r"
  from assms obtain d1 d2 where d: "insert_message ?m d = Inr d1"
    "(if mr_links r \<noteq> [] then upsert_links (proj_id p) (msg_id ?m) (mr_links r) d1 else Inr d1) = Inr d2"
    "d' = (if e_fts env \<and> msg_deleted_at ?m = None
      then fts_upsert_message (msg_id ?m) (msg_thread_id ?m) (proj_id p) (msg_content ?m) d2 else d2)"
    by (auto simp: insert_message_record_def rbind_eq_Inr Let_def split: sum.splits)
  have "ai_only d d1" using d(1) by (rule ai_only_insert_message)
  moreover have "ai_only d1 d2" using d(2) by (auto intro: ai_only_links split: if_splits)
  moreover have "ai_only d2 d'" by (simp add: d(3) ai_only_fts)
  ultimately show ?thesis by (blast intro: ai_only_trans)
qed

lemma ai_only_put_ai:
  assumes "put_ai env p ts rs d = Inr d'"
  shows "ai_only d d'"
proof -
  from assms obtain d1 where d1: "rfold threads_create ts d = Inr d1" "rfold (insert_message_record env p) rs d1 = Inr d'"
    by (auto simp: put_ai_def rbind_eq_Inr)
  have "ai_only d d1" by (rule rfold_invariant [OF d1(1)]) (auto intro: ai_only_trans ai_only_threads_create)
  moreover have "ai_only d1 d'" by (rule rfold_invariant [OF d1(2)]) (auto intro: ai_only_trans ai_only_record)
  ultimately show ?thesis by (rule ai_only_trans)
qed

text \<open>The steps of a rebuild that succeeds.\<close>

lemma rebuild_steps:
  assumes "rebuild_project_in_transaction opts env p disk d = Inr (st, d')"
  obtains d0 ls bs d1 rs d2 d3 durable ms ts where "clear_project (proj_id p) d = Inr d0" "load_resources env p disk = Inr (ls, bs)"
    "put_resources env ls bs d0 = Inr d1" "load_cards env p disk = Inr rs" "insert_rounds env rs [] d1 = Inr d2"
    "write_links rs d2 = Inr d3" "load_ai opts env p disk = Inr (durable, ms)" "rebuilt_threads opts p durable ms = Inr ts"
    "put_ai env p ts ms d3 = Inr d'" "st = stats_of env ls bs rs ts ms"
  using assms by (auto simp: rebuild_project_in_transaction_def rbind_eq_Inr split: prod.splits)

lemma rebuild_keeps_projects:
  assumes "rebuild_project_in_transaction opts env p disk d = Inr (st, d')"
  shows "projects d' = projects d"
proof -
  from assms obtain d0 ls bs d1 rs d2 d3 ts ms where s: "clear_project (proj_id p) d = Inr d0" "put_resources env ls bs d0 = Inr d1"
    "insert_rounds env rs [] d1 = Inr d2" "write_links rs d2 = Inr d3" "put_ai env p ts ms d3 = Inr d'"
    by (rule rebuild_steps) blast
  have "projects d' = projects d3" using ai_only_put_ai [OF s(5)] by (auto simp: ai_only_def)
  also have "\<dots> = projects d2" using write_links_same(1) [OF s(4)] by auto
  also have "\<dots> = projects d1" using insert_rounds_rows [OF s(3)] by (simp add: same_others_def)
  also have "\<dots> = projects d0" using put_resources_res(1) [OF s(2)] by auto
  also have "\<dots> = projects d" by (rule clear_project_projects [OF s(1)])
  finally show ?thesis .
qed

text \<open>
  C9: The index is a function of the files. When every card row of a project is filed as the store files it, and
  every card file is the file of a row, a rebuild that succeeds leaves the project with exactly the card rows it
  had: whatever the order of the directory walk, live and trashed cards alike.
\<close>

theorem rebuild_reproduces_rows:
  assumes ok: "rebuild_project_in_transaction opts env p disk d = Inr (st, d')"
    and i: "in_step env p disk d" and w: "set (e_walk env (d_files disk)) = dom (d_files disk)"
    and wf: "wf_db d" and p: "nul_free (proj_id p)"
  shows "project_rows p d' = project_rows p d"
proof -
  from ok obtain d0 ls bs d1 rs d2 d3 ts ms where s: "clear_project (proj_id p) d = Inr d0" "put_resources env ls bs d0 = Inr d1"
    "load_cards env p disk = Inr rs" "insert_rounds env rs [] d1 = Inr d2" "write_links rs d2 = Inr d3" "put_ai env p ts ms d3 = Inr d'"
    by (rule rebuild_steps) blast
  from s(3) obtain live trashed where l:
    "rmap (load_card_file env p disk False) (collect_files env disk ''cards'' ''.md'') = Inr live"
    "rmap (load_card_file env p disk True) (collect_files env disk ''trash/cards'' ''.md'') = Inr trashed" "rs = live @ trashed"
    by (auto simp: load_cards_def rbind_eq_Inr)
  have "cr_card ` set live = {c \<in> project_rows p d. (deleted_at c \<noteq> None) = False}"
    by (rule load_part [OF i w _ l(1)]) simp
  moreover have "cr_card ` set trashed = {c \<in> project_rows p d. (deleted_at c \<noteq> None) = True}"
    by (rule load_part [OF i w _ l(2)]) simp
  ultimately have recs: "cr_card ` set rs = project_rows p d" unfolding l(3) set_append image_Un by auto
  have "cards d' = cards d3" using ai_only_put_ai [OF s(6)] by (auto simp: ai_only_def)
  with write_links_same(1) [OF s(5)] have c: "cards d' = cards d2" by auto
  have c1: "cards d1 = cards d0" using put_resources_res(1) [OF s(2)] by auto
  from insert_rounds_rows [OF s(4)] obtain new where n: "mset new = mset rs"
    "cards d2 = cards d1 @ map (bind_card \<circ> cr_card) new" by blast
  from arg_cong [OF n(1), of set_mset] recs have "cr_card ` set new = project_rows p d" by simp
  moreover have "bind_card x = x" if "x \<in> project_rows p d" for x
    using that by (intro bind_card_id [of d] cards_row_ok [OF wf]) (simp add: project_rows_def)
  ultimately have "(bind_card \<circ> cr_card) ` set new = project_rows p d" unfolding image_comp [symmetric] by simp
  with n(2) c c1 clear_project_rows(2) [OF s(1) wf] p show ?thesis by (auto simp: project_rows_def)
qed

lemma rebuild_wf:
  assumes ok: "rebuild_project_in_transaction opts env p disk d = Inr (st, d')"
    and wf: "wf_tables d"
  shows "wf_tables d' \<and> projects d' = projects d"
proof -
  from ok obtain d0 ls bs d1 rs d2 d3 ts ms where s: "clear_project (proj_id p) d = Inr d0" "put_resources env ls bs d0 = Inr d1"
    "insert_rounds env rs [] d1 = Inr d2" "write_links rs d2 = Inr d3" "put_ai env p ts ms d3 = Inr d'"
    by (rule rebuild_steps) blast
  have w: "wf_db d" "wf_ai d" "wf_resources d" using wf by (simp_all add: wf_tables_def wf_projects_def)
  note c = clear_project_rows [OF s(1) w(1)]
  obtain t where t: "d1 = d0\<lparr>db_res := t\<rparr>" using put_resources_res(1) [OF s(2)] by blast
  have d1: "wf_db d1" "wf_ai d1" "wf_resources d1" "projects d1 = projects d"
    using put_resources_res(2) [OF s(2)] c w t wf_db_sel [of d0 d1] wf_ai_cong [of d1 d0] by simp_all
  from insert_rounds_rows [OF s(3)] obtain new where n: "cards d2 = cards d1 @ new" "wf_db d2" "same_others d1 d2" using d1(1) by blast
  have d2: "wf_ai d2" "wf_resources d2" "projects d2 = projects d"
    using n d1 wf_ai_cong [of d2 d1] wf_resources_cong [of d1 d2] by (auto simp: same_others_def)
  obtain ls where ls: "d3 = d2\<lparr>card_links := ls\<rparr>" using write_links_same(1) [OF s(4)] by blast
  have d3: "wf_db d3" "wf_ai d3" "wf_resources d3" "projects d3 = projects d"
    using write_links_same(2) [OF s(4) n(2)] d2 wf_resources_cong [of d2 d3] by (simp_all add: ls)
  have "wf_db d'" "wf_ai d'" "db_res d' = db_res d3" "projects d' = projects d3"
    using ai_only_put_ai [OF s(5)] d3 by (auto simp: ai_only_def)
  with d3 wf show ?thesis using wf_resources_cong [of d3 d'] by (simp add: wf_tables_def wf_projects_def)
qed


section \<open>An example\<close>

text \<open>A project with one card file, whose front matter names the given parent.\<close>

definition demo_uuid :: string where
  "demo_uuid = ''11111111-1111-4111-8111-111111111111''"

definition demo_row :: card where
  "demo_row = \<lparr>card_id = demo_uuid, project_id = ''p'', title = ''T'', rel_path = ''cards/11/11/'' @ demo_uuid @ ''.md'',
     parent_card_id = None, sort_key = DFin 1, created_at = 3, updated_at = 5, deleted_at = None\<rparr>"

definition demo_front :: "node \<Rightarrow> node" where
  "demo_front parent = NMap [(NScalar ''card_id'', NScalar demo_uuid), (NScalar ''project_id'', NScalar ''p''),
     (NScalar ''title'', NScalar ''T''), (NScalar ''created_at'', NScalar ''3''), (NScalar ''updated_at'', NScalar ''5''),
     (NScalar ''parent_card_id'', parent), (NScalar ''sort_key'', NScalar ''1''),
     (NScalar ''rel_path'', NScalar (rel_path demo_row)), (NScalar ''deleted_at'', NNull), (NScalar ''links'', NSeq []),
     (NScalar ''milestones'', NSeq [])]"

definition demo_rebuild_env :: "node \<Rightarrow> env" where
  "demo_rebuild_env parent = \<lparr>e_git = demo_lib,
     e_yaml = \<lparr>emit_text = \<lambda>_. ''x'', load_text = \<lambda>_. Some (demo_front parent), null_text = None,
       as_int = [''3'' \<mapsto> 3, ''5'' \<mapsto> 5], as_double = [''1'' \<mapsto> DFin 1], as_bool = Map.empty\<rparr>,
     e_crypto = demo_crypto, e_json = demo_json, e_keys = \<lambda>_. None, e_iv = \<lambda>_. [], e_md = \<lambda>_. [], e_fts = True, e_now = 5,
     e_fault = None, e_walk = \<lambda>files. filter (\<lambda>q. files q \<noteq> None) [rel_path demo_row], e_mtime = \<lambda>_. 0\<rparr>"

definition demo_card_disk :: disk where
  "demo_card_disk = \<lparr>d_files = [rel_path demo_row \<mapsto> lf_opening @ ''x'' @ lf_closing @ ''Body''], d_journal = None, d_repo = None\<rparr>"

definition demo_rebuild_db :: db where
  "demo_rebuild_db = \<lparr>projects = [demo_project], cards = [demo_row], card_links = [], card_tags = [], milestones = [], cards_fts = [], sync_states = [], db_ai = no_ai, db_res = no_resources\<rparr>"

lemma demo_project_sel [simp]: "proj_id demo_project = ''p''" "privacy_mode demo_project = ''plain''"
  by code_simp+

lemma demo_files:
  "collect_files (demo_rebuild_env q) demo_card_disk ''cards'' ''.md'' = [rel_path demo_row]"
  "collect_files (demo_rebuild_env q) demo_card_disk ''trash/cards'' ''.md'' = []"
  by code_simp+

lemma demo_faithful:
  assumes "q = (case parent of None \<Rightarrow> NNull | Some i \<Rightarrow> NScalar i)"
  shows "faithful (e_yaml (demo_rebuild_env q)) (emit_card (demo_row\<lparr>parent_card_id := parent\<rparr>) [] [])"
  using assms
  by (auto simp: faithful_def demo_rebuild_env_def demo_front_def emit_card_def demo_row_def emit_opt_def starts_with_def
      split: option.splits)

lemma demo_loads:
  assumes "q = (case parent of None \<Rightarrow> NNull | Some i \<Rightarrow> NScalar i)"
  shows "load_cards (demo_rebuild_env q) demo_project demo_card_disk =
     Inr [\<lparr>cr_card = demo_row\<lparr>parent_card_id := parent\<rparr>, cr_body = ''Body'', cr_links = [], cr_milestones = []\<rparr>]"
proof -
  let ?c = "demo_row\<lparr>parent_card_id := parent\<rparr>"
  have f: "row_file ?c = rel_path demo_row" "?c\<lparr>rel_path := rel_path demo_row\<rparr> = ?c" by (simp_all add: row_file_def demo_row_def)
  have "is_valid_uuid demo_uuid" "card_rel_path demo_uuid = Inr (rel_path demo_row)" by code_simp+
  with load_rendered [of demo_card_disk ?c "lf_opening @ ''x'' @ lf_closing @ ''Body''" "demo_rebuild_env q" demo_project "[]" "[]" "''Body''"]
    demo_faithful [OF assms] f
  have "load_card_file (demo_rebuild_env q) demo_project demo_card_disk False (rel_path demo_row) =
    Inr \<lparr>cr_card = ?c, cr_body = ''Body'', cr_links = [], cr_milestones = []\<rparr>"
    by (simp add: demo_card_disk_def decode_blob_for_project_def render_card_front_matter_def demo_rebuild_env_def)
      (simp add: demo_row_def)
  then show ?thesis by (simp add: load_cards_def demo_files)
qed

theorem rebuild_needs_parents_witness:
  "\<exists>e. rebuild_project_in_transaction default_options (demo_rebuild_env (NScalar ''gone'')) demo_project demo_card_disk demo_rebuild_db = Inl e"
proof -
  have l: "load_cards (demo_rebuild_env (NScalar ''gone'')) demo_project demo_card_disk =
      Inr [\<lparr>cr_card = demo_row\<lparr>parent_card_id := Some ''gone''\<rparr>, cr_body = ''Body'', cr_links = [], cr_milestones = []\<rparr>]"
    (is "_ = Inr ?rs") by (rule demo_loads) simp
  have "i = demo_uuid" if "grounded ?rs i" for i using that by induction (simp_all add: demo_row_def)
  then have "\<not> grounded ?rs ''gone''" by (auto simp: demo_uuid_def)
  then have "\<not> list_all (hangs ?rs) ?rs" by (simp add: hangs_def)
  with rebuild_needs_parents [OF l, of demo_rebuild_db default_options] show ?thesis by simp
qed

lemma demo_other_files:
  "collect_files (demo_rebuild_env q) demo_card_disk ''locations'' ''.json'' = []"
  "collect_files (demo_rebuild_env q) demo_card_disk ''resources'' ''.json'' = []"
  "collect_files (demo_rebuild_env q) demo_card_disk ''ai_threads'' ''.json'' = []"
  "collect_files (demo_rebuild_env q) demo_card_disk ''ai_messages'' ''.md'' = []"
  "collect_files (demo_rebuild_env q) demo_card_disk ''trash/ai_messages'' ''.md'' = []"
  by code_simp+

lemma demo_cleared: "clear_project ''p'' demo_rebuild_db = Inr (demo_rebuild_db\<lparr>cards := []\<rparr>)"
  by code_simp

lemma demo_inserts:
  "\<exists>d. insert_rounds (demo_rebuild_env NNull) [\<lparr>cr_card = demo_row, cr_body = ''Body'', cr_links = [], cr_milestones = []\<rparr>] []
     (demo_rebuild_db\<lparr>cards := []\<rparr>) = Inr d"
proof -
  have "\<not> isl (insert_rounds (demo_rebuild_env NNull) [\<lparr>cr_card = demo_row, cr_body = ''Body'', cr_links = [], cr_milestones = []\<rparr>] []
     (demo_rebuild_db\<lparr>cards := []\<rparr>))" by code_simp
  then show ?thesis unfolding isl_def by (metis sum.exhaust)
qed

lemma demo_rebuilds:
  obtains st d' where "rebuild_project_in_transaction default_options (demo_rebuild_env NNull) demo_project demo_card_disk demo_rebuild_db
    = Inr (st, d')"
proof -
  have "load_cards (demo_rebuild_env NNull) demo_project demo_card_disk =
      Inr [\<lparr>cr_card = demo_row, cr_body = ''Body'', cr_links = [], cr_milestones = []\<rparr>]"
    using demo_loads [of NNull None] by (simp add: demo_row_def)
  with demo_inserts demo_cleared show thesis
    by (auto intro: that simp: rebuild_project_in_transaction_def write_links_def load_resources_def put_resources_def check_locations_def
        load_ai_def load_message_files_def default_options_def rebuilt_threads_def thread_times_def put_ai_def demo_other_files)
qed


theorem rebuild_reproduces_rows_witness:
  "\<exists>st d'. rebuild_project_in_transaction default_options (demo_rebuild_env NNull) demo_project demo_card_disk demo_rebuild_db = Inr (st, d')
     \<and> project_rows demo_project d' = {demo_row}"
proof -
  have e: "demo_row\<lparr>parent_card_id := None\<rparr> = demo_row" by (simp add: demo_row_def)
  obtain st d' where ok:
    "rebuild_project_in_transaction default_options (demo_rebuild_env NNull) demo_project demo_card_disk demo_rebuild_db = Inr (st, d')"
    by (rule demo_rebuilds)
  have rows: "project_rows demo_project demo_rebuild_db = {demo_row}"
    by (auto simp: project_rows_def demo_rebuild_db_def demo_row_def)
  have "is_valid_uuid demo_uuid" "card_rel_path demo_uuid = Inr (rel_path demo_row)" by code_simp+
  moreover have "row_file demo_row = rel_path demo_row" "demo_row\<lparr>rel_path := rel_path demo_row\<rparr> = demo_row"
    by (simp_all add: row_file_def demo_row_def)
  ultimately have "filed_row (demo_rebuild_env NNull) demo_project demo_card_disk demo_row"
    using demo_faithful [of NNull None] e
    by (simp add: filed_row_def demo_card_disk_def decode_blob_for_project_def render_card_front_matter_def demo_rebuild_env_def)
      (simp add: demo_row_def, metis)
  then have "in_step (demo_rebuild_env NNull) demo_project demo_card_disk demo_rebuild_db"
    unfolding in_step_def rows by (auto simp: demo_card_disk_def row_file_def demo_row_def split: if_splits)
  moreover have "set (e_walk (demo_rebuild_env NNull) (d_files demo_card_disk)) = dom (d_files demo_card_disk)"
    by (auto simp: demo_rebuild_env_def demo_card_disk_def split: if_splits)
  moreover have "wf_db demo_rebuild_db" by code_simp
  ultimately have "project_rows demo_project d' = {demo_row}"
    using rebuild_reproduces_rows [OF ok] by (simp add: rows nul_free_def demo_rebuild_env_def)
  with ok show ?thesis by blast
qed

end
