(* ===== verification/Git_Remote.thy ===== *)
theory Git_Remote
  imports Store_Monad
begin

text \<open>
  Exchange with a remote: fast-forward pulls, the file-level merge of diverged histories and pushes of
  \<open>src/src/git/GitRepo.cpp\<close>. References have their full names. What libgit2 and the network do (fetch, history
  queries, tree comparison, checkout, push) are the fields of a record; the laws they obey are stated below.
\<close>

section \<open>The network and the history queries\<close>

record net_lib =
  n_fetch :: "string \<Rightarrow> string \<Rightarrow> git_repo \<Rightarrow> git_repo result"
  n_default_branch :: "string \<Rightarrow> string option"
  n_configured_branch :: string
  n_descends :: "(oid \<Rightarrow> git_commit option) \<Rightarrow> oid \<Rightarrow> oid \<Rightarrow> bool"
  n_merge_base :: "(oid \<Rightarrow> git_commit option) \<Rightarrow> oid \<Rightarrow> oid \<Rightarrow> oid option"
  n_diff :: "tree \<Rightarrow> tree \<Rightarrow> path list"
  n_checkout :: "tree \<Rightarrow> tree \<Rightarrow> disk \<Rightarrow> disk result"
  n_push :: "string \<Rightarrow> string \<Rightarrow> oid \<Rightarrow> string + bool"
  n_status :: "disk \<Rightarrow> path list"
  n_ahead :: "(oid \<Rightarrow> git_commit option) \<Rightarrow> oid \<Rightarrow> oid \<Rightarrow> nat"

definition ensure_open :: "disk \<Rightarrow> git_repo result" where
  "ensure_open d = (case d_repo d of None \<Rightarrow> Inl (RuntimeError ''Repository is not open'') | Some r \<Rightarrow> Inr r)"

definition trim_ref_prefix :: "string \<Rightarrow> string \<Rightarrow> string" where
  "trim_ref_prefix refname prefix = (if starts_with refname prefix then drop (length prefix) refname else refname)"

definition reference_exists :: "git_repo \<Rightarrow> string \<Rightarrow> bool" where
  "reference_exists r refname \<longleftrightarrow> r_refs r refname \<noteq> None"

definition remote_branch_target_oid_or_throw :: "git_repo \<Rightarrow> string \<Rightarrow> string \<Rightarrow> oid result" where
  "remote_branch_target_oid_or_throw r name branch =
     (let refname = ''refs/remotes/'' @ name @ ''/'' @ branch
      in case r_refs r refname of
           None \<Rightarrow> Inl (RuntimeError (''git_reference_lookup failed for '' @ refname))
         | Some i \<Rightarrow> Inr i)"

definition commit_or_throw :: "git_repo \<Rightarrow> oid \<Rightarrow> git_commit result" where
  "commit_or_throw r i = (case r_commits r i of None \<Rightarrow> Inl (RuntimeError ''git_commit_lookup failed'') | Some c \<Rightarrow> Inr c)"

text \<open>The tree of HEAD, which a safe checkout compares the working tree with.\<close>

definition head_tree :: "git_repo \<Rightarrow> tree" where
  "head_tree r = (case Option.bind (branch_tip_of r) (r_commits r) of None \<Rightarrow> \<lambda>_. None | Some c \<Rightarrow> c_tree c)"

text \<open>The operations work in the directory \<open>dir\<close> of a project; what was done before a failure stays.\<close>

abbreviation repo_of :: "path \<Rightarrow> git_repo op" where
  "repo_of dir \<equiv> disk_check dir ensure_open"

definition checkout_commit_oid :: "net_lib \<Rightarrow> path \<Rightarrow> oid \<Rightarrow> unit op" where
  "checkout_commit_oid net dir i =
     op_bind (repo_of dir)
     (\<lambda>r. op_bind (op_lift (commit_or_throw r i))
     (\<lambda>c. disk_try dir (n_checkout net (head_tree r) (c_tree c))))"

section \<open>Pulling\<close>

definition pulled_branch :: "net_lib \<Rightarrow> string \<Rightarrow> git_repo \<Rightarrow> string result" where
  "pulled_branch net name r =
     (case map_option (\<lambda>b. trim_ref_prefix b ''refs/heads/'') (n_default_branch net name) of
        Some (c # cs) \<Rightarrow> Inr (c # cs)
      | _ \<Rightarrow>
          let tracking = (\<lambda>b. ''refs/remotes/'' @ name @ ''/'' @ b); configured = n_configured_branch net
          in if configured \<noteq> [] \<and> reference_exists r (tracking configured) then Inr configured
             else if reference_exists r (tracking ''cards'') then Inr ''cards''
             else if reference_exists r (tracking ''main'') then Inr ''main''
             else if reference_exists r (tracking ''master'') then Inr ''master''
             else Inl (RuntimeError (''Unable to determine remote default branch for '' @ name)))"

definition set_ref :: "string \<Rightarrow> oid \<Rightarrow> disk \<Rightarrow> disk" where
  "set_ref refname i d = d\<lparr>d_repo := map_option (\<lambda>r. r\<lparr>r_refs := (r_refs r)(refname := Some i)\<rparr>) (d_repo d)\<rparr>"

definition set_head :: "string \<Rightarrow> disk \<Rightarrow> disk" where
  "set_head refname d = d\<lparr>d_repo := map_option (\<lambda>r. r\<lparr>r_head := refname\<rparr>) (d_repo d)\<rparr>"

definition fast_forward :: "net_lib \<Rightarrow> path \<Rightarrow> string \<Rightarrow> string \<Rightarrow> oid \<Rightarrow> unit op" where
  "fast_forward net dir name remote_branch remote_oid =
     op_bind (repo_of dir)
     (\<lambda>r. case branch_tip_of r of
        None \<Rightarrow>
          let local_ref = ''refs/heads/'' @ remote_branch
          in op_then (disk_try dir (\<lambda>d. Inr (set_head local_ref (set_ref local_ref remote_oid d))))
               (checkout_commit_oid net dir remote_oid)
      | Some local_oid \<Rightarrow>
          if local_oid = remote_oid then op_return ()
          else if \<not> n_descends net (r_commits r) remote_oid local_oid
          then (if n_descends net (r_commits r) local_oid remote_oid then op_return ()
                else op_lift (Inl (NonFastForwardPull local_oid remote_oid name)))
          else op_then (checkout_commit_oid net dir remote_oid)
                 (disk_try dir (\<lambda>d. Inr (set_ref (r_head r) remote_oid d))))"

definition fetch_remote :: "net_lib \<Rightarrow> string \<Rightarrow> disk \<Rightarrow> disk result" where
  "fetch_remote net name d =
     rbind (ensure_open d)
     (\<lambda>r. case r_remotes r name of
            None \<Rightarrow> Inl (RuntimeError ''git_remote_lookup failed'')
          | Some url \<Rightarrow> rbind (n_fetch net name url r) (\<lambda>r'. Inr (d\<lparr>d_repo := Some r'\<rparr>)))"

definition pull_remote_ff_only :: "net_lib \<Rightarrow> path \<Rightarrow> string \<Rightarrow> unit op" where
  "pull_remote_ff_only net dir name =
     op_then (disk_try dir (fetch_remote net name))
     (op_bind (repo_of dir)
     (\<lambda>r. op_bind (op_lift (pulled_branch net name r))
     (\<lambda>branch. op_bind (op_lift (remote_branch_target_oid_or_throw r name branch))
     (\<lambda>remote_oid. fast_forward net dir name branch remote_oid))))"

section \<open>Merging diverged histories\<close>

datatype change_type = AddedOrModified | Deleted

definition diff_changed_paths :: "net_lib \<Rightarrow> git_repo \<Rightarrow> oid \<Rightarrow> oid \<Rightarrow> (path \<times> change_type) list result" where
  "diff_changed_paths net r from_oid to_oid =
     rbind (commit_or_throw r from_oid)
     (\<lambda>a. rbind (commit_or_throw r to_oid)
     (\<lambda>b. Inr (map (\<lambda>p. (p, if c_tree b p = None then Deleted else AddedOrModified)) (n_diff net (c_tree a) (c_tree b)))))"

text \<open>One path that only the local side changed is put back on top of the remote's files.\<close>

fun keep_local :: "git_lib \<Rightarrow> path \<Rightarrow> oid \<Rightarrow> path \<times> change_type \<Rightarrow> unit op" where
  "keep_local lib dir local_oid (p, Deleted) =
     op_then (disk_try dir (\<lambda>d. Inr (d\<lparr>d_files := (d_files d)(p := None)\<rparr>))) (disk_try dir (remove_path p))"
| "keep_local lib dir local_oid (p, AddedOrModified) =
     op_bind (disk_check dir (read_blob_at lib local_oid p))
     (\<lambda>content. case content of
        None \<Rightarrow> op_return ()
      | Some b \<Rightarrow> op_then (disk_try dir (git_write_file p b)) (disk_try dir (stage_path lib p)))"

text \<open>\<open>git_commit_create_v\<close> on HEAD refuses a first parent that is not the tip of the branch.\<close>

definition commit_merge :: "git_lib \<Rightarrow> string \<Rightarrow> i64 \<Rightarrow> oid \<Rightarrow> oid \<Rightarrow> disk \<Rightarrow> disk result" where
  "commit_merge lib msg now local_oid remote_oid d =
     rbind (ensure_open d)
     (\<lambda>r. rbind (commit_or_throw r local_oid)
     (\<lambda>_. rbind (commit_or_throw r remote_oid)
     (\<lambda>_. let c = \<lparr>c_parents = [local_oid, remote_oid], c_tree = index_of_repo r, c_message = msg, c_time = now\<rparr>;
              i = commit_id lib c
          in if branch_tip_of r \<noteq> Some local_oid then Inl (RuntimeError ''git_commit_create_v (merge) failed'')
             else Inr (d\<lparr>d_repo := Some (r\<lparr>r_index := Some (index_of_repo r), r_commits := (r_commits r)(i := Some c),
                    r_refs := (r_refs r)(r_head r := Some i)\<rparr>)\<rparr>))))"

definition merge_plan ::
  "net_lib \<Rightarrow> git_repo \<Rightarrow> oid \<Rightarrow> oid \<Rightarrow> (path list \<times> (path \<times> change_type) list) result"
where
  "merge_plan net r local_oid remote_oid =
     (case n_merge_base net (r_commits r) local_oid remote_oid of
        None \<Rightarrow> Inl (RuntimeError ''git_merge_base failed'')
      | Some base \<Rightarrow>
     rbind (diff_changed_paths net r base local_oid)
     (\<lambda>local_changes. rbind (diff_changed_paths net r base remote_oid)
     (\<lambda>remote_changes. let both = (\<lambda>c. fst c \<in> set (map fst remote_changes))
        in Inr (map fst (filter both local_changes), filter (\<lambda>c. \<not> both c) local_changes))))"

definition merge_message :: "string \<Rightarrow> path list \<Rightarrow> string" where
  "merge_message name conflicted =
     ''Merge '' @ name @ '': keep remote for '' @ nat_to_string (length conflicted) @ '' conflicting card(s)''"

definition merge_remote_taking_theirs ::
  "net_lib \<Rightarrow> git_lib \<Rightarrow> i64 \<Rightarrow> path \<Rightarrow> string \<Rightarrow> oid \<Rightarrow> oid \<Rightarrow> path list op"
where
  "merge_remote_taking_theirs net lib now dir name local_oid remote_oid =
     op_bind (repo_of dir)
     (\<lambda>r. op_bind (op_lift (merge_plan net r local_oid remote_oid))
     (\<lambda>(conflicted, local_only). op_then (checkout_commit_oid net dir remote_oid)
     (op_then (op_each (keep_local lib dir local_oid) local_only)
     (op_then (disk_try dir (commit_merge lib (merge_message name conflicted) now local_oid remote_oid))
     (op_return conflicted)))))"

section \<open>Pushing\<close>

datatype push_status =
    Pushed | UpToDate | AuthFailed | NotFound | NetworkError | NonFastForward | RemoteUnset | UnknownError

fun push_status_name :: "push_status \<Rightarrow> string" where
  "push_status_name Pushed = ''pushed''"
| "push_status_name UpToDate = ''up_to_date''"
| "push_status_name AuthFailed = ''auth_failed''"
| "push_status_name NotFound = ''not_found''"
| "push_status_name NetworkError = ''network_error''"
| "push_status_name NonFastForward = ''non_fast_forward''"
| "push_status_name RemoteUnset = ''remote_unset''"
| "push_status_name UnknownError = ''unknown_error''"

record push_result =
  pr_status :: push_status
  pr_ahead :: int
  pr_behind :: int
  pr_local_head :: string
  pr_error :: string

definition contains_icase :: "string \<Rightarrow> string \<Rightarrow> bool" where
  "contains_icase haystack needle \<longleftrightarrow> find_text (to_lower needle) (to_lower haystack) \<noteq> None"

definition classify_push_error :: "string \<Rightarrow> push_status" where
  "classify_push_error m =
     (if list_ex (contains_icase m) [''authentication'', ''permission denied'', ''publickey'', ''access denied''] then AuthFailed
      else if list_ex (contains_icase m) [''repository not found'', ''not found''] then NotFound
      else if list_ex (contains_icase m) [''non-fast-forward'', ''non fast forward'', ''fetch first''] then NonFastForward
      else if list_ex (contains_icase m) [''could not resolve host'', ''failed to resolve address'', ''connection refused'',
        ''failed to connect'', ''timed out'', ''timeout''] then NetworkError
      else UnknownError)"

definition resolve_branch_name :: "net_lib \<Rightarrow> git_repo \<Rightarrow> string \<Rightarrow> string" where
  "resolve_branch_name net r requested =
     (let head_branch = trim_ref_prefix (r_head r) ''refs/heads/''
      in if requested \<noteq> [] then requested
         else if head_branch \<noteq> [] then head_branch
         else if n_configured_branch net \<noteq> [] then n_configured_branch net
         else ''cards'')"

text \<open>The branch's upstream setting is configuration of Git that nothing here reads.\<close>

definition push_branch :: "net_lib \<Rightarrow> string \<Rightarrow> string \<Rightarrow> disk \<Rightarrow> push_result result" where
  "push_branch net name branch d =
     rbind (ensure_open d)
     (\<lambda>r. let local_head = (case branch_tip_of r of None \<Rightarrow> [] | Some i \<Rightarrow> i);
              answer = (\<lambda>status msg. Inr \<lparr>pr_status = status, pr_ahead = 0, pr_behind = 0, pr_local_head = local_head, pr_error = msg\<rparr>)
          in case r_remotes r name of
               None \<Rightarrow> answer RemoteUnset (''Remote not configured: '' @ name)
             | Some url \<Rightarrow>
                 (case branch_tip_of r of
                    None \<Rightarrow> answer UpToDate []
                  | Some tip \<Rightarrow>
                      (case n_push net url (''refs/heads/'' @ resolve_branch_name net r branch) tip of
                         Inl msg \<Rightarrow> answer (classify_push_error msg) msg
                       | Inr changed \<Rightarrow> answer (if changed then Pushed else UpToDate) [])))"

section \<open>Sync metrics\<close>

text \<open>\<open>src/src/git/RepoSyncMetrics.cpp\<close>: \<open>n_status\<close> lists the changed paths, \<open>n_ahead\<close> counts local commits.\<close>

definition int_max :: int where
  "int_max = 2 ^ 31 - 1"

definition clamp_size_t_to_int :: "nat \<Rightarrow> int" where
  "clamp_size_t_to_int n = (if int n > int_max then int_max else int n)"

definition is_ignored_uncommitted_path :: "path \<Rightarrow> bool" where
  "is_ignored_uncommitted_path p \<longleftrightarrow> p = ''.holder/privacy.json''"

definition filtered_uncommitted_count :: "path list \<Rightarrow> int" where
  "filtered_uncommitted_count ps = int (length (filter (\<lambda>p. \<not> is_ignored_uncommitted_path p) ps))"

definition current_local_branch_name :: "git_repo \<Rightarrow> string" where
  "current_local_branch_name r =
     (if branch_tip_of r = None then []
      else if starts_with (r_head r) ''refs/heads/'' then drop (length ''refs/heads/'') (r_head r) else [])"

definition inspect_repo_sync_metrics :: "net_lib \<Rightarrow> string \<Rightarrow> disk \<Rightarrow> (int \<times> int) result" where
  "inspect_repo_sync_metrics net name d =
     (case d_repo d of
        None \<Rightarrow> Inr (0, 0)
      | Some r \<Rightarrow>
          let uncommitted = filtered_uncommitted_count (n_status net d); branch = current_local_branch_name r
          in if branch = [] then Inr (uncommitted, 0)
             else case r_refs r (''refs/heads/'' @ branch) of
                    None \<Rightarrow> Inl (RuntimeError ''git_reference_lookup for local branch failed'')
                  | Some local_oid \<Rightarrow>
                      (case r_refs r (''refs/remotes/'' @ name @ ''/'' @ branch) of
                         None \<Rightarrow> Inr (uncommitted, 0)
                       | Some remote_oid \<Rightarrow>
                           Inr (uncommitted, clamp_size_t_to_int (n_ahead net (r_commits r) local_oid remote_oid))))"

end
