(* ===== verification/Git_Merge.thy ===== *)
theory Git_Merge
  imports Git_Remote
begin

text \<open>
  What a pull promises: the branch only ever moves forward, and the merge of diverged histories keeps every
  change of either side that the other side did not touch. The laws of libgit2 that this rests on are its
  documented behaviour, stated for the trees at hand.
\<close>

section \<open>What libgit2 documents\<close>

text \<open>The comparison of two trees lists the paths at which they differ.\<close>

definition diff_exact :: "net_lib \<Rightarrow> tree \<Rightarrow> tree \<Rightarrow> bool" where
  "diff_exact net a b \<longleftrightarrow> set (n_diff net a b) = {p. a p \<noteq> b p}"

text \<open>A tree is checked out: the index is the tree and every file of the tree is in the working directory.\<close>

definition holds_tree :: "git_lib \<Rightarrow> tree \<Rightarrow> git_repo \<Rightarrow> disk \<Rightarrow> bool" where
  "holds_tree lib tr r d \<longleftrightarrow> index_of_repo r = tr \<and> (\<forall>p i. tr p = Some i \<longrightarrow> d_files d p = blob_lookup lib i)"

definition checked_out :: "git_lib \<Rightarrow> tree \<Rightarrow> tree \<Rightarrow> disk \<Rightarrow> disk" where
  "checked_out lib base tgt d = d\<lparr>
     d_files := (\<lambda>p. case tgt p of Some i \<Rightarrow> blob_lookup lib i | None \<Rightarrow> if base p \<noteq> None then None else d_files d p),
     d_repo := map_option (\<lambda>r. r\<lparr>r_index := Some tgt\<rparr>) (d_repo d)\<rparr>"

text \<open>A safe checkout from an unmodified working directory writes the target's files and removes the others.\<close>

definition checkout_law :: "net_lib \<Rightarrow> git_lib \<Rightarrow> bool" where
  "checkout_law net lib \<longleftrightarrow>
     (\<forall>base tgt d d' r. d_repo d = Some r \<and> holds_tree lib base r d \<and> n_checkout net base tgt d = Inr d'
        \<longrightarrow> d' = checked_out lib base tgt d)"

text \<open>A blob's id is a function of its content.\<close>

definition blob_law :: "git_lib \<Rightarrow> bool" where
  "blob_law lib \<longleftrightarrow> (\<forall>i b. blob_lookup lib i = Some b \<longrightarrow> blob_id lib b = i)"

text \<open>A fetch adds objects and moves tracking references only; no checkout moves a reference.\<close>

definition same_branches :: "git_repo \<Rightarrow> git_repo \<Rightarrow> bool" where
  "same_branches r r' \<longleftrightarrow> r_head r' = r_head r \<and> r_commits r \<subseteq>\<^sub>m r_commits r' \<and> branch_tip_of r' = branch_tip_of r"

definition fetch_law :: "net_lib \<Rightarrow> bool" where
  "fetch_law net \<longleftrightarrow> (\<forall>name url r r'. n_fetch net name url r = Inr r' \<and> starts_with (r_head r) ''refs/heads/'' \<longrightarrow> same_branches r r')"

definition checkout_keeps_refs :: "net_lib \<Rightarrow> bool" where
  "checkout_keeps_refs net \<longleftrightarrow>
     (\<forall>base tgt d d' r. d_repo d = Some r \<and> n_checkout net base tgt d = Inr d'
        \<longrightarrow> (\<exists>r'. d_repo d' = Some r' \<and> r_head r' = r_head r \<and> r_refs r' = r_refs r \<and> r_commits r' = r_commits r))"

section \<open>Merging\<close>

text \<open>Putting back one path that only the local side changed.\<close>

lemma keep_local_step:
  assumes k: "keep_local lib dir l (p, if c_tree cl p = None then Deleted else AddedOrModified) s = (Inr u, t)"
    and d: "st_disks s dir = d" "d_repo d = Some r" "r_commits r l = Some cl" and b: "blob_law lib"
  shows "st_disks t dir = d\<lparr>d_files := (d_files d)(p := Option.bind (c_tree cl p) (blob_lookup lib)),
     d_repo := Some (r\<lparr>r_index := Some ((index_of_repo r)(p := c_tree cl p))\<rparr>)\<rparr>"
proof (cases "c_tree cl p")
  case None
  with k d show ?thesis by (auto simp: op_simps remove_path_def)
next
  case (Some i)
  with k d b show ?thesis
    by (auto simp: op_simps read_blob_at_def git_write_file_def stage_path_def blob_law_def index_of_repo_def split: option.splits)
qed

definition took :: "git_lib \<Rightarrow> tree \<Rightarrow> path set \<Rightarrow> tree \<Rightarrow> git_repo \<Rightarrow> disk \<Rightarrow> bool" where
  "took lib ours ps tr r d \<longleftrightarrow> (\<exists>ix. d_repo d = Some (r\<lparr>r_index := Some ix\<rparr>) \<and> ix = (\<lambda>p. if p \<in> ps then ours p else tr p)
     \<and> (\<forall>p i. ix p = Some i \<longrightarrow> d_files d p = blob_lookup lib i))"

lemma keep_local_each:
  assumes "op_each (keep_local lib dir l) (map (\<lambda>p. (p, if c_tree cl p = None then Deleted else AddedOrModified)) ps) s = (Inr u, t)"
    and "took lib (c_tree cl) qs tr r (st_disks s dir)" and "r_commits r l = Some cl" and "blob_law lib"
  shows "took lib (c_tree cl) (qs \<union> set ps) tr r (st_disks t dir)"
  using assms
proof (induction ps arbitrary: s qs)
  case (Cons p ps)
  from Cons.prems(1) obtain v s1 where k: "keep_local lib dir l (p, if c_tree cl p = None then Deleted else AddedOrModified) s = (Inr v, s1)"
    and rest: "op_each (keep_local lib dir l) (map (\<lambda>p. (p, if c_tree cl p = None then Deleted else AddedOrModified)) ps) s1 = (Inr u, t)"
    by (auto simp: op_bind_Inr simp del: keep_local.simps)
  from Cons.prems(2) obtain ix where ix: "d_repo (st_disks s dir) = Some (r\<lparr>r_index := Some ix\<rparr>)"
    "ix = (\<lambda>p. if p \<in> qs then c_tree cl p else tr p)" "\<forall>p i. ix p = Some i \<longrightarrow> d_files (st_disks s dir) p = blob_lookup lib i"
    by (auto simp: took_def)
  have "took lib (c_tree cl) (insert p qs) tr r (st_disks s1 dir)"
    using keep_local_step [OF k refl ix(1) _ Cons.prems(4)] Cons.prems(3) ix(2,3)
    by (auto simp: took_def index_of_repo_def fun_eq_iff)
  from Cons.IH [OF rest this Cons.prems(3,4)] show ?case by simp
qed (simp add: op_simps)

lemma checkout_takes:
  assumes c: "checkout_commit_oid net dir i s = (Inr u, t)" and d: "d_repo (st_disks s dir) = Some r"
    and h: "holds_tree lib (head_tree r) r (st_disks s dir)" and i: "r_commits r i = Some ci" and law: "checkout_law net lib"
  shows "took lib ours {} (c_tree ci) r (st_disks t dir)"
proof -
  from c d i have "n_checkout net (head_tree r) (c_tree ci) (st_disks s dir) = Inr (st_disks t dir)"
    by (auto simp: checkout_commit_oid_def op_simps ensure_open_def commit_or_throw_def)
  with law d h have "st_disks t dir = checked_out lib (head_tree r) (c_tree ci) (st_disks s dir)" by (auto simp: checkout_law_def)
  with d show ?thesis by (simp add: took_def checked_out_def)
qed

lemma commit_merge_tip:
  assumes "commit_merge lib msg now l rm d = Inr d'" and "d_repo d = Some r"
  obtains r' i c where "d_repo d' = Some r'" "branch_tip_of r' = Some i" "r_commits r' i = Some c" "c_parents c = [l, rm]"
    "c_tree c = index_of_repo r" "index_of_repo r' = index_of_repo r" "d_files d' = d_files d"
  using assms
  by (auto simp: commit_merge_def ensure_open_def rbind_eq_Inr branch_tip_of_def index_of_repo_def Let_def split: if_splits)

text \<open>
  C8: Merging a diverged remote keeps both histories. The merge commit has the local and the remote commit as
  parents; its tree has the local version of every path that only the local side changed since the merge base and
  the remote version of every other path, so the reported conflicts are exactly the paths both sides changed; the
  working directory holds that tree.
\<close>

theorem merge_keeps_both_sides:
  assumes m: "merge_remote_taking_theirs net lib now dir name l rm s = (Inr conflicted, t)"
    and r: "d_repo (st_disks s dir) = Some r" and tip: "branch_tip_of r = Some l"
    and cs: "r_commits r l = Some cl" "r_commits r rm = Some cr" "r_commits r b = Some cb"
    and b: "n_merge_base net (r_commits r) l rm = Some b"
    and clean: "holds_tree lib (c_tree cl) r (st_disks s dir)"
    and laws: "checkout_law net lib" "blob_law lib" "diff_exact net (c_tree cb) (c_tree cl)" "diff_exact net (c_tree cb) (c_tree cr)"
  shows "set conflicted = {p. c_tree cl p \<noteq> c_tree cb p \<and> c_tree cr p \<noteq> c_tree cb p}
    \<and> (\<exists>r' i c. d_repo (st_disks t dir) = Some r' \<and> branch_tip_of r' = Some i \<and> r_commits r' i = Some c
         \<and> c_parents c = [l, rm]
         \<and> (\<forall>p. c_tree c p = (if c_tree cl p \<noteq> c_tree cb p \<and> c_tree cr p = c_tree cb p then c_tree cl p else c_tree cr p))
         \<and> holds_tree lib (c_tree c) r' (st_disks t dir))"
proof -
  define ls where "ls = n_diff net (c_tree cb) (c_tree cl)"
  define rs where "rs = n_diff net (c_tree cb) (c_tree cr)"
  define only where "only = filter (\<lambda>p. p \<notin> set rs) ls"
  have plan: "merge_plan net r l rm = Inr (filter (\<lambda>p. p \<in> set rs) ls,
      map (\<lambda>p. (p, if c_tree cl p = None then Deleted else AddedOrModified)) only)"
    using cs b by (simp add: merge_plan_def diff_changed_paths_def commit_or_throw_def ls_def rs_def only_def filter_map comp_def image_image)
  from m r plan obtain s1 s2 where c: "conflicted = filter (\<lambda>p. p \<in> set rs) ls"
    and s1: "checkout_commit_oid net dir rm s = (Inr (), s1)"
    and s2: "op_each (keep_local lib dir l) (map (\<lambda>p. (p, if c_tree cl p = None then Deleted else AddedOrModified)) only) s1 = (Inr (), s2)"
    and t: "commit_merge lib (merge_message name conflicted) now l rm (st_disks s2 dir) = Inr (st_disks t dir)"
    by (auto simp: merge_remote_taking_theirs_def op_bind_Inr op_lift_eq disk_check_eq disk_try_Inr op_return_eq ensure_open_def)
  have "head_tree r = c_tree cl" using tip cs(1) by (simp add: head_tree_def)
  from checkout_takes [OF s1 r _ cs(2) laws(1)] clean this have "took lib (c_tree cl) {} (c_tree cr) r (st_disks s1 dir)" by simp
  from keep_local_each [OF s2 this cs(1) laws(2)] obtain ix where ix: "d_repo (st_disks s2 dir) = Some (r\<lparr>r_index := Some ix\<rparr>)"
    "ix = (\<lambda>p. if p \<in> set only then c_tree cl p else c_tree cr p)"
    "\<forall>p i. ix p = Some i \<longrightarrow> d_files (st_disks s2 dir) p = blob_lookup lib i" by (auto simp: took_def)
  have sets: "set ls = {p. c_tree cb p \<noteq> c_tree cl p}" "set rs = {p. c_tree cb p \<noteq> c_tree cr p}"
    using laws(3,4) by (simp_all add: diff_exact_def ls_def rs_def)
  then have "\<forall>p. ix p = (if c_tree cl p \<noteq> c_tree cb p \<and> c_tree cr p = c_tree cb p then c_tree cl p else c_tree cr p)"
    unfolding ix(2) only_def by auto
  moreover have "set conflicted = {p. c_tree cl p \<noteq> c_tree cb p \<and> c_tree cr p \<noteq> c_tree cb p}"
    using sets c by auto
  moreover obtain r' i c where "d_repo (st_disks t dir) = Some r'" "branch_tip_of r' = Some i" "r_commits r' i = Some c" "c_parents c = [l, rm]"
    "c_tree c = ix" "index_of_repo r' = ix" "d_files (st_disks t dir) = d_files (st_disks s2 dir)"
    by (rule commit_merge_tip [OF t ix(1)]) (simp add: index_of_repo_def)
  ultimately show ?thesis using ix(3) by (intro conjI exI [of _ r'] exI [of _ i] exI [of _ c]) (simp_all add: holds_tree_def)
qed

section \<open>Pulling\<close>

definition moved_forward :: "net_lib \<Rightarrow> git_repo \<Rightarrow> oid \<Rightarrow> unit result \<Rightarrow> disk \<Rightarrow> bool" where
  "moved_forward net r l res d \<longleftrightarrow> (\<exists>r' i. d_repo d = Some r' \<and> r_head r' = r_head r \<and> branch_tip_of r' = Some i
     \<and> (i = l \<or> res = Inr () \<and> n_descends net (r_commits r') i l))"

lemma checkout_keeps:
  assumes "checkout_commit_oid net dir i s = (res, t)" and "d_repo (st_disks s dir) = Some r" and "checkout_keeps_refs net"
  shows "\<exists>r'. d_repo (st_disks t dir) = Some r' \<and> r_head r' = r_head r \<and> r_refs r' = r_refs r \<and> r_commits r' = r_commits r"
proof -
  have "t = s \<or> (\<exists>c :: git_commit. n_checkout net (head_tree r) (c_tree c) (st_disks s dir) = Inr (st_disks t dir))"
    using assms(1,2) by (cases res) (auto simp: checkout_commit_oid_def op_simps ensure_open_def)
  then show ?thesis using assms(2,3) by (auto simp: checkout_keeps_refs_def)
qed

lemma fast_forward_moves:
  assumes f: "fast_forward net dir name branch i s = (res, t)" and r: "d_repo (st_disks s dir) = Some r"
    and tip: "branch_tip_of r = Some l" and law: "checkout_keeps_refs net"
  shows "moved_forward net r l res (st_disks t dir)"
proof (cases "l = i \<or> \<not> n_descends net (r_commits r) i l")
  case True
  with f r tip have "t = s" by (cases res) (auto simp: fast_forward_def op_simps ensure_open_def split: if_splits)
  with r tip show ?thesis by (auto simp: moved_forward_def)
next
  case False
  with f r tip have e: "op_then (checkout_commit_oid net dir i) (disk_try dir (\<lambda>d. Inr (set_ref (r_head r) i d))) s = (res, t)"
    by (simp add: fast_forward_def op_bind_def disk_check_def ensure_open_def)
  obtain c u where c: "checkout_commit_oid net dir i s = (c, u)" by fastforce
  from checkout_keeps [OF c r law] obtain r' where r': "d_repo (st_disks u dir) = Some r'" "r_head r' = r_head r" "r_refs r' = r_refs r"
    "r_commits r' = r_commits r" by blast
  show ?thesis
  proof (cases c)
    case (Inl x)
    with e c r' tip show ?thesis by (auto simp: op_bind_def moved_forward_def branch_tip_of_def)
  next
    case (Inr x)
    with e c r' False show ?thesis by (auto simp: op_bind_def disk_try_def set_ref_def moved_forward_def branch_tip_of_def)
  qed
qed


section \<open>An example\<close>

text \<open>Two devices changed different cards since their common commit; a third card they both changed.\<close>

definition demo_git :: git_lib where
  "demo_git = demo_lib\<lparr>blob_lookup := \<lambda>i. case i of c # cs \<Rightarrow> if c = CHR ''b'' then Some cs else None | [] \<Rightarrow> None\<rparr>"

definition demo_paths :: "path list" where
  "demo_paths = [''a'', ''b'', ''x'']"

definition demo_net :: net_lib where
  "demo_net = \<lparr>n_fetch = \<lambda>name url r. Inr (r\<lparr>r_refs := (r_refs r)(''refs/remotes/origin/main'' := Some ''R'')\<rparr>),
     n_default_branch = \<lambda>_. Some ''refs/heads/main'', n_configured_branch = [],
     n_descends = \<lambda>cs i j. (i, j) \<in> {(''L'', ''B''), (''R'', ''B'')}, n_merge_base = \<lambda>cs i j. Some ''B'',
     n_diff = \<lambda>t u. filter (\<lambda>p. t p \<noteq> u p) demo_paths,
     n_checkout = \<lambda>base tgt d. Inr (checked_out demo_git base tgt d), n_push = \<lambda>_ _ _. Inr True,
     n_status = \<lambda>_. [], n_ahead = \<lambda>_ _ _. 1\<rparr>"

definition demo_commit :: "(path \<times> oid) list \<Rightarrow> git_commit" where
  "demo_commit files = \<lparr>c_parents = [], c_tree = map_of files, c_message = [], c_time = 0\<rparr>"

definition demo_base :: git_commit where "demo_base = demo_commit [(''a'', ''b1''), (''b'', ''b1''), (''x'', ''b1'')]"
definition demo_local :: git_commit where "demo_local = demo_commit [(''a'', ''b2''), (''b'', ''b1''), (''x'', ''b2'')]"
definition demo_other :: git_commit where "demo_other = demo_commit [(''a'', ''b1''), (''b'', ''b3''), (''x'', ''b3'')]"

definition demo_work :: "oid \<Rightarrow> git_commit \<Rightarrow> store" where
  "demo_work tip c = \<lparr>st_db = \<lparr>projects = [], cards = [], card_links = [], card_tags = [], milestones = [], cards_fts = [], sync_states = [], db_ai = no_ai, db_res = no_resources\<rparr>,
     st_disks = \<lambda>_. \<lparr>d_files = (\<lambda>p. Option.bind (c_tree c p) (blob_lookup demo_git)), d_journal = None,
       d_repo = Some \<lparr>r_head = ''refs/heads/main'', r_refs = [''refs/heads/main'' \<mapsto> tip],
         r_commits = [''B'' \<mapsto> demo_base, ''L'' \<mapsto> demo_local, ''R'' \<mapsto> demo_other],
         r_index = Some (c_tree c), r_conflicts = False, r_remotes = [''origin'' \<mapsto> ''u'']\<rparr>\<rparr>\<rparr>"

lemmas demo_trees = demo_base_def demo_local_def demo_other_def demo_commit_def

lemma demo_net_laws:
  "checkout_law demo_net demo_git" "fetch_law demo_net" "checkout_keeps_refs demo_net"
  "diff_exact demo_net (c_tree demo_base) (c_tree demo_local)" "diff_exact demo_net (c_tree demo_base) (c_tree demo_other)"
  by (auto simp: checkout_law_def fetch_law_def checkout_keeps_refs_def diff_exact_def demo_net_def checked_out_def demo_paths_def
      same_branches_def branch_tip_of_def starts_with_def demo_trees)

lemma demo_holds: "holds_tree demo_git (c_tree c) (the (d_repo (st_disks (demo_work i c) q))) (st_disks (demo_work i c) q)"
  by (simp add: holds_tree_def demo_work_def index_of_repo_def)

lemma demo_merge_runs: "\<not> isl (fst (merge_remote_taking_theirs demo_net demo_git 0 ''/p'' ''origin'' ''L'' ''R'' (demo_work ''L'' demo_local)))"
  by code_simp

theorem merge_keeps_both_sides_witness:
  "\<exists>conflicted t r' i c. merge_remote_taking_theirs demo_net demo_git 0 ''/p'' ''origin'' ''L'' ''R'' (demo_work ''L'' demo_local) = (Inr conflicted, t)
     \<and> set conflicted = {''x''} \<and> d_repo (st_disks t ''/p'') = Some r' \<and> branch_tip_of r' = Some i \<and> r_commits r' i = Some c
     \<and> c_parents c = [''L'', ''R''] \<and> c_tree c ''a'' = Some ''b2'' \<and> c_tree c ''b'' = Some ''b3'' \<and> c_tree c ''x'' = Some ''b3''"
proof -
  obtain conflicted t where m: "merge_remote_taking_theirs demo_net demo_git 0 ''/p'' ''origin'' ''L'' ''R'' (demo_work ''L'' demo_local) = (Inr conflicted, t)"
    using demo_merge_runs by (metis isl_def prod.collapse sum.exhaust)
  let ?r = "the (d_repo (st_disks (demo_work ''L'' demo_local) ''/p''))"
  have r: "d_repo (st_disks (demo_work ''L'' demo_local) ''/p'') = Some ?r" "branch_tip_of ?r = Some ''L''"
    "r_commits ?r ''L'' = Some demo_local" "r_commits ?r ''R'' = Some demo_other" "r_commits ?r ''B'' = Some demo_base"
    "n_merge_base demo_net (r_commits ?r) ''L'' ''R'' = Some ''B''"
    by (simp_all add: demo_work_def branch_tip_of_def demo_net_def)
  have "blob_law demo_git" by (auto simp: blob_law_def demo_git_def demo_lib_def split: list.splits if_splits)
  from merge_keeps_both_sides [OF m r demo_holds demo_net_laws(1) this demo_net_laws(4,5)] obtain r' i c where
    c: "set conflicted = {p. c_tree demo_local p \<noteq> c_tree demo_base p \<and> c_tree demo_other p \<noteq> c_tree demo_base p}"
      "d_repo (st_disks t ''/p'') = Some r'" "branch_tip_of r' = Some i" "r_commits r' i = Some c" "c_parents c = [''L'', ''R'']"
    and tree: "\<And>p. c_tree c p = (if c_tree demo_local p \<noteq> c_tree demo_base p \<and> c_tree demo_other p = c_tree demo_base p
        then c_tree demo_local p else c_tree demo_other p)" by blast
  have "c_tree c ''a'' = Some ''b2''" "c_tree c ''b'' = Some ''b3''" "c_tree c ''x'' = Some ''b3''"
    unfolding tree by (simp_all add: demo_trees)
  moreover have "set conflicted = {''x''}" unfolding c(1) by (auto simp: demo_trees split: if_splits)
  ultimately show ?thesis using m c(2-5) by blast
qed


end
