(* ===== verification/Project_Sync.thy ===== *)
theory Project_Sync
  imports Card_Store Git_Merge
begin

text \<open>
  Synchronising a project with its remote: the stored sync state with its retry schedule
  (\<open>src/src/project/ProjectSyncRepo.cpp\<close>), the decision whether to try (\<open>src/src/sync/ProjectSyncPolicy.cpp\<close>), the
  resolution of diverged pulls (\<open>src/src/sync/PullConflictResolution.cpp\<close>) and the operation itself
  (\<open>src/src/sync/ProjectSyncOperation.cpp\<close>). The 32-bit counters do not overflow before \<open>2 ^ 31\<close> failures in a row.
\<close>

section \<open>The sync state\<close>

definition empty_sync_state :: sync_state where
  "empty_sync_state = \<lparr>ss_project_id = [], last_commit_at = None, last_push_at = None, last_pull_at = None,
     uncommitted_changes_count = 0, unpushed_commits_count = 0, last_push_status = None, last_pull_status = None,
     last_sync_error = None, last_sync_error_at = None, retry_count = 0, next_retry_at = None, pull_retry_count = 0,
     next_pull_retry_at = None, ss_updated_at = 0\<rparr>"

definition sync_get :: "string \<Rightarrow> db \<Rightarrow> sync_state option" where
  "sync_get pid d = find (\<lambda>s. ss_project_id s = c_str pid) (sync_states d)"

definition bind_sync_state :: "sync_state \<Rightarrow> sync_state" where
  "bind_sync_state s = s\<lparr>ss_project_id := c_str (ss_project_id s), last_push_status := map_option c_str (last_push_status s),
     last_pull_status := map_option c_str (last_pull_status s), last_sync_error := map_option c_str (last_sync_error s)\<rparr>"

definition sync_upsert :: "sync_state \<Rightarrow> db \<Rightarrow> db result" where
  "sync_upsert s0 d =
     (let s = bind_sync_state s0; k = ss_project_id s
      in if k \<in> ss_project_id ` set (sync_states d)
         then Inr (d\<lparr>sync_states := update_where (\<lambda>r. ss_project_id r = k) (\<lambda>_. s) (sync_states d)\<rparr>)
         else if k \<notin> proj_id ` set (projects d) then Inl (SqliteError ''upsert project sync state failed'')
         else Inr (d\<lparr>sync_states := sync_states d @ [s]\<rparr>))"

definition sync_state_of :: "string \<Rightarrow> db \<Rightarrow> sync_state" where
  "sync_state_of pid d = (case sync_get pid d of None \<Rightarrow> empty_sync_state | Some s \<Rightarrow> s)\<lparr>ss_project_id := pid\<rparr>"

definition update_activity_counts :: "string \<Rightarrow> int \<Rightarrow> int \<Rightarrow> i64 \<Rightarrow> db \<Rightarrow> db result" where
  "update_activity_counts pid changes unpushed now d =
     sync_upsert ((sync_state_of pid d)\<lparr>uncommitted_changes_count := changes, unpushed_commits_count := unpushed,
       ss_updated_at := now\<rparr>) d"

definition backoff_seconds_for_retry :: "int \<Rightarrow> i64" where
  "backoff_seconds_for_retry n =
     (let schedule = [60, 300, 900, 1800]
      in if n \<le> 0 then 0
         else if nat (n - 1) < length schedule then schedule ! nat (n - 1)
         else last schedule)"

definition error_or :: "string \<Rightarrow> string option \<Rightarrow> string option" where
  "error_or dflt msg = (case msg of Some (c # cs) \<Rightarrow> Some (c # cs) | _ \<Rightarrow> Some dflt)"

definition record_push_result :: "string \<Rightarrow> string \<Rightarrow> bool \<Rightarrow> string option \<Rightarrow> i64 \<Rightarrow> db \<Rightarrow> db result" where
  "record_push_result pid status success msg now d =
     (let s = (sync_state_of pid d)\<lparr>last_push_status := Some status, ss_updated_at := now\<rparr>
      in sync_upsert
           (if success
            then s\<lparr>last_push_at := Some now, last_sync_error := None, last_sync_error_at := None, retry_count := 0,
                   next_retry_at := None\<rparr>
            else s\<lparr>last_sync_error := error_or ''push failed'' msg, last_sync_error_at := Some now,
                   retry_count := retry_count s + 1,
                   next_retry_at := Some (now + backoff_seconds_for_retry (retry_count s + 1))\<rparr>) d)"

definition record_pull_result :: "string \<Rightarrow> string \<Rightarrow> bool \<Rightarrow> string option \<Rightarrow> i64 \<Rightarrow> db \<Rightarrow> db result" where
  "record_pull_result pid status success msg now d =
     (let s = (sync_state_of pid d)\<lparr>last_pull_status := Some status, ss_updated_at := now\<rparr>
      in sync_upsert
           (if success
            then s\<lparr>last_pull_at := Some now, last_sync_error := None, last_sync_error_at := None, pull_retry_count := 0,
                   next_pull_retry_at := None\<rparr>
            else s\<lparr>last_sync_error := error_or ''pull failed'' msg, last_sync_error_at := Some now,
                   pull_retry_count := pull_retry_count s + 1,
                   next_pull_retry_at := Some (now + backoff_seconds_for_retry (pull_retry_count s + 1))\<rparr>) d)"

definition sync_remove :: "string \<Rightarrow> db \<Rightarrow> db" where
  "sync_remove pid d = d\<lparr>sync_states := delete_where (\<lambda>s. ss_project_id s = c_str pid) (sync_states d)\<rparr>"

section \<open>When to try\<close>

record push_decision =
  pd_last_push_at :: "i64 option"
  pd_next_retry_at :: "i64 option"
  pd_now :: i64
  push_interval_seconds :: int

record pull_decision =
  ld_last_pull_at :: "i64 option"
  ld_next_pull_retry_at :: "i64 option"
  ld_now :: i64
  pull_interval_seconds :: int

definition should_attempt_push :: "push_decision \<Rightarrow> bool" where
  "should_attempt_push i =
     (if (case pd_next_retry_at i of None \<Rightarrow> False | Some t \<Rightarrow> pd_now i < t) then False
      else case pd_last_push_at i of None \<Rightarrow> True | Some t \<Rightarrow> pd_now i - t \<ge> push_interval_seconds i)"

definition should_attempt_pull :: "pull_decision \<Rightarrow> bool" where
  "should_attempt_pull i =
     (if (case ld_next_pull_retry_at i of None \<Rightarrow> False | Some t \<Rightarrow> ld_now i < t) then False
      else case ld_last_pull_at i of None \<Rightarrow> True | Some t \<Rightarrow> ld_now i - t \<ge> pull_interval_seconds i)"

section \<open>Diverged pulls\<close>

definition reconcile_index_after_pull :: "env \<Rightarrow> project \<Rightarrow> unit op" where
  "reconcile_index_after_pull env p = op_bind (rebuild_project env p) (\<lambda>_. op_return ())"

definition conflicted_copy :: "project \<Rightarrow> string \<Rightarrow> parsed_file \<Rightarrow> i64 \<Rightarrow> card" where
  "conflicted_copy p cid parsed now = empty_card\<lparr>card_id := cid, project_id := proj_id p,
     title := title (pf_card parsed) @ '' (conflicted copy)'', parent_card_id := parent_card_id (pf_card parsed),
     created_at := now, updated_at := now\<rparr>"

definition decode_conflict :: "env \<Rightarrow> project \<Rightarrow> bytes \<Rightarrow> string result" where
  "decode_conflict env p blob =
     (case project_key_id p of
        Some k \<Rightarrow> if encrypted p then decrypt_project_blob (e_crypto env) (e_json env) (e_keys env) (proj_id p) k blob else Inr blob
      | None \<Rightarrow> Inr blob)"

text \<open>One conflicting path: whether its local version was kept as a new card. \<open>draw\<close> is the clock and random bytes.\<close>

definition resolve_conflict ::
  "env \<Rightarrow> (path \<Rightarrow> int \<times> byte list) \<Rightarrow> project \<Rightarrow> id_scheme \<Rightarrow> oid \<Rightarrow> i64 \<Rightarrow> path \<Rightarrow> bool op"
where
  "resolve_conflict env draw p scheme local_oid now path =
     op_bind (disk_check (root_path p) (read_blob_at (e_git env) local_oid path))
     (\<lambda>found. case Option.bind found (\<lambda>blob. case decode_conflict env p blob of Inl _ \<Rightarrow> None | Inr plain \<Rightarrow> Some plain) of
        None \<Rightarrow> op_return False
      | Some plain \<Rightarrow>
          let parsed = parse_card_file (e_yaml env) plain
          in if \<not> has_front_matter parsed then op_return False
             else op_bind (op_lift (generate_id scheme (fst (draw path)) (snd (draw path))))
                  (\<lambda>cid. op_catch (op_then (create_card env (conflicted_copy p cid parsed now) (pf_body parsed) None) (op_return True))
                            (\<lambda>_. op_return False)))"

definition resolve_pull_conflicts ::
  "env \<Rightarrow> net_lib \<Rightarrow> (path \<Rightarrow> int \<times> byte list) \<Rightarrow> project \<Rightarrow> oid \<Rightarrow> oid \<Rightarrow> i64 \<Rightarrow> nat op"
where
  "resolve_pull_conflicts env net draw p local_oid remote_oid now =
     op_bind (db_read (projects_get (proj_id p)))
     (\<lambda>current. case current of
        None \<Rightarrow> op_lift (Inl (RuntimeError (''project not found: '' @ proj_id p)))
      | Some q \<Rightarrow>
          op_bind (merge_remote_taking_theirs net (e_git env) (e_now env) (root_path p) ''origin'' local_oid remote_oid)
          (\<lambda>conflicted. op_bind (op_map (resolve_conflict env draw p (id_scheme q) local_oid now) conflicted)
          (\<lambda>kept. op_return (length (filter (\<lambda>k. k) kept)))))"

section \<open>The safety check before a push\<close>

definition has_envelope_header :: "bytes \<Rightarrow> bool" where
  "has_envelope_header content \<longleftrightarrow> takeWhile (\<lambda>c. c \<noteq> newline) content = envelope_magic"

text \<open>\<open>run_encryption_safety_check\<close>: the files of the protected directories that are not sealed.\<close>

definition unsafe_paths :: "env \<Rightarrow> disk \<Rightarrow> path list" where
  "unsafe_paths env d =
     concat (map (\<lambda>dir. filter (\<lambda>q. starts_with q (dir @ ''/'') \<and> \<not> has_envelope_header (the (d_files d q))) (e_walk env (d_files d)))
       [''cards'', ''resources'', ''locations''])"

definition assert_encryption_push_safe :: "env \<Rightarrow> disk \<Rightarrow> unit result" where
  "assert_encryption_push_safe env d =
     require (unsafe_paths env d = [])
       (PrivacyError EncryptionSafetyCheckFailed
          (''Privacy safety check failed: found plaintext project blobs. Unsafe paths:'' @ concat (map (\<lambda>p. '' '' @ p) (unsafe_paths env d))))"

section \<open>The operation\<close>

datatype pull_phase_status = NotAttempted | Succeeded | PullRemoteUnset | Failed

fun pull_phase_status_name :: "pull_phase_status \<Rightarrow> string" where
  "pull_phase_status_name NotAttempted = ''not_attempted''"
| "pull_phase_status_name Succeeded = ''succeeded''"
| "pull_phase_status_name PullRemoteUnset = ''remote_unset''"
| "pull_phase_status_name Failed = ''failed''"

record pull_phase =
  pl_attempted :: bool
  pl_status :: pull_phase_status
  conflicts_resolved :: nat
  hidden_cards_repaired :: nat
  pl_error :: "string option"

record push_phase =
  ps_attempted :: bool
  ps_status :: push_status
  ps_ahead :: int
  ps_behind :: int
  ps_local_head :: "string option"
  ps_error :: "string option"

record sync_request =
  rq_pull :: bool
  rq_push :: bool
  rq_push_after_failed_pull :: bool
  rq_branch :: string
  rq_now :: i64

record sync_result =
  sr_project_id :: string
  sr_remote_url :: "string option"
  sr_pull :: pull_phase
  sr_push :: push_phase

definition no_pull :: pull_phase where
  "no_pull = \<lparr>pl_attempted = False, pl_status = NotAttempted, conflicts_resolved = 0, hidden_cards_repaired = 0, pl_error = None\<rparr>"

definition no_push :: push_phase where
  "no_push = \<lparr>ps_attempted = False, ps_status = UnknownError, ps_ahead = 0, ps_behind = 0, ps_local_head = None, ps_error = None\<rparr>"

definition push_succeeded :: "push_status \<Rightarrow> bool" where
  "push_succeeded st \<longleftrightarrow> st = Pushed \<or> st = UpToDate"

definition sync_succeeded :: "sync_result \<Rightarrow> bool" where
  "sync_succeeded res =
     (if pl_attempted (sr_pull res) \<and> pl_status (sr_pull res) \<noteq> Succeeded then False
      else if ps_attempted (sr_push res) \<and> \<not> push_succeeded (ps_status (sr_push res)) then False
      else pl_attempted (sr_pull res) \<or> ps_attempted (sr_push res))"

definition nonempty :: "string \<Rightarrow> string option" where
  "nonempty v = (if v = [] then None else Some v)"

definition refresh_activity_best_effort :: "net_lib \<Rightarrow> project \<Rightarrow> i64 \<Rightarrow> unit op" where
  "refresh_activity_best_effort net p now =
     op_catch (op_bind (disk_check (root_path p) (inspect_repo_sync_metrics net ''origin''))
                 (\<lambda>(changes, unpushed). db_try (update_activity_counts (proj_id p) changes unpushed now)))
       (\<lambda>_. op_return ())"

definition repair_hierarchy_after_pull :: "env \<Rightarrow> project \<Rightarrow> i64 \<Rightarrow> nat op" where
  "repair_hierarchy_after_pull env p now =
     op_catch (op_bind (repair_hierarchy env (proj_id p) now) (\<lambda>plan. op_return (length (moved_card_ids plan))))
       (\<lambda>_. op_return 0)"

definition open_with_remote :: "env \<Rightarrow> project \<Rightarrow> string \<Rightarrow> unit op" where
  "open_with_remote env p url =
     op_then (disk_try (root_path p) (\<lambda>d. Inr (open_or_init (e_git env) d)))
       (disk_try (root_path p) (set_remote ''origin'' url))"

definition pull_or_merge :: "env \<Rightarrow> net_lib \<Rightarrow> (path \<Rightarrow> int \<times> byte list) \<Rightarrow> project \<Rightarrow> i64 \<Rightarrow> nat op" where
  "pull_or_merge env net draw p now =
     op_handle (op_then (pull_remote_ff_only net (root_path p) ''origin'') (op_return 0))
       (\<lambda>e. case e of
          NonFastForwardPull local_oid remote_oid _ \<Rightarrow> Some (resolve_pull_conflicts env net draw p local_oid remote_oid now)
        | _ \<Rightarrow> None)"

text \<open>
  The \<open>try\<close> blocks of the two phases, in the stages between which results are assigned: what was assigned before
  an exception is still part of the reported phase.
\<close>

definition pull_failed :: "string \<Rightarrow> i64 \<Rightarrow> nat \<Rightarrow> nat \<Rightarrow> exn \<Rightarrow> pull_phase op" where
  "pull_failed pid now resolved repaired e =
     op_then (db_try (record_pull_result pid (pull_phase_status_name Failed) False (Some (what e)) now))
       (op_return \<lparr>pl_attempted = True, pl_status = Failed, conflicts_resolved = resolved, hidden_cards_repaired = repaired,
          pl_error = Some (what e)\<rparr>)"

definition finish_pull :: "string \<Rightarrow> i64 \<Rightarrow> nat \<Rightarrow> nat \<Rightarrow> pull_phase op" where
  "finish_pull pid now resolved repaired =
     op_bind (op_attempt (db_try (record_pull_result pid (pull_phase_status_name Succeeded) True None now)))
     (\<lambda>recorded. case recorded of
        Inl e \<Rightarrow> pull_failed pid now resolved repaired e
      | Inr _ \<Rightarrow> op_return \<lparr>pl_attempted = True, pl_status = Succeeded, conflicts_resolved = resolved,
                    hidden_cards_repaired = repaired, pl_error = None\<rparr>)"

definition reconcile_pull :: "env \<Rightarrow> string \<Rightarrow> project \<Rightarrow> i64 \<Rightarrow> nat \<Rightarrow> pull_phase op" where
  "reconcile_pull env pid p now resolved =
     op_bind (op_attempt (op_then (reconcile_index_after_pull env p) (repair_hierarchy_after_pull env p now)))
     (\<lambda>reconciled. case reconciled of
        Inl e \<Rightarrow> pull_failed pid now resolved 0 e
      | Inr repaired \<Rightarrow> finish_pull pid now resolved repaired)"

definition try_pull ::
  "env \<Rightarrow> net_lib \<Rightarrow> (path \<Rightarrow> int \<times> byte list) \<Rightarrow> string \<Rightarrow> project \<Rightarrow> string \<Rightarrow> i64 \<Rightarrow> pull_phase op"
where
  "try_pull env net draw pid p url now =
     op_bind (op_attempt (op_then (open_with_remote env p url) (pull_or_merge env net draw p now)))
     (\<lambda>pulled. case pulled of
        Inl e \<Rightarrow> pull_failed pid now 0 0 e
      | Inr resolved \<Rightarrow> reconcile_pull env pid p now resolved)"

definition run_pull_phase ::
  "env \<Rightarrow> net_lib \<Rightarrow> (path \<Rightarrow> int \<times> byte list) \<Rightarrow> string \<Rightarrow> project \<Rightarrow> string \<Rightarrow> i64 \<Rightarrow> pull_phase op"
where
  "run_pull_phase env net draw pid p url now =
     op_bind (try_pull env net draw pid p url now)
       (\<lambda>phase. op_then (refresh_activity_best_effort net p now) (op_return phase))"

definition push_failed :: "string \<Rightarrow> i64 \<Rightarrow> push_phase \<Rightarrow> exn \<Rightarrow> push_phase op" where
  "push_failed pid now phase e =
     op_then (db_try (record_push_result pid (push_status_name UnknownError) False (Some (what e)) now))
       (op_return (phase\<lparr>ps_attempted := True, ps_status := UnknownError, ps_error := Some (what e)\<rparr>))"

definition finish_push :: "string \<Rightarrow> i64 \<Rightarrow> push_phase \<Rightarrow> push_phase op" where
  "finish_push pid now phase =
     op_bind (op_attempt (db_try (record_push_result pid (push_status_name (ps_status phase))
        (push_succeeded (ps_status phase)) (ps_error phase) now)))
     (\<lambda>recorded. case recorded of Inl e \<Rightarrow> push_failed pid now phase e | Inr _ \<Rightarrow> op_return phase)"

definition try_push :: "env \<Rightarrow> net_lib \<Rightarrow> string \<Rightarrow> project \<Rightarrow> string \<Rightarrow> string \<Rightarrow> i64 \<Rightarrow> push_phase op" where
  "try_push env net pid p url branch now =
     op_bind (op_attempt
       (op_then (open_with_remote env p url)
       (op_then (op_when (encrypted p) (disk_check (root_path p) (assert_encryption_push_safe env)))
       (disk_check (root_path p) (push_branch net ''origin'' branch)))))
     (\<lambda>pushed. case pushed of
        Inl e \<Rightarrow> push_failed pid now no_push e
      | Inr push \<Rightarrow>
          finish_push pid now
            \<lparr>ps_attempted = True, ps_status = pr_status push, ps_ahead = pr_ahead push, ps_behind = pr_behind push,
             ps_local_head = nonempty (pr_local_head push), ps_error = nonempty (pr_error push)\<rparr>)"

definition run_push_phase :: "env \<Rightarrow> net_lib \<Rightarrow> string \<Rightarrow> project \<Rightarrow> string \<Rightarrow> string \<Rightarrow> i64 \<Rightarrow> push_phase op" where
  "run_push_phase env net pid p url branch now =
     op_bind (try_push env net pid p url branch now)
       (\<lambda>phase. op_then (refresh_activity_best_effort net p now) (op_return phase))"

text \<open>Without a configured remote the first requested phase is recorded as failed and nothing is tried.\<close>

definition remote_unset :: "string \<Rightarrow> project \<Rightarrow> sync_request \<Rightarrow> sync_result op" where
  "remote_unset pid p req =
     (let remote_error = ''Remote URL is not configured.'';
          res = \<lparr>sr_project_id = proj_id p, sr_remote_url = git_remote_url p, sr_pull = no_pull\<lparr>pl_attempted := rq_pull req\<rparr>, sr_push = no_push\<rparr>
      in if rq_pull req
         then op_then (db_try (record_pull_result pid (pull_phase_status_name PullRemoteUnset) False (Some remote_error) (rq_now req)))
                (op_return (res\<lparr>sr_pull := (sr_pull res)\<lparr>pl_status := PullRemoteUnset, pl_error := Some remote_error\<rparr>\<rparr>))
         else op_then (db_try (record_push_result pid (push_status_name RemoteUnset) False (Some remote_error) (rq_now req)))
                (op_return (res\<lparr>sr_push := no_push\<lparr>ps_attempted := True, ps_status := RemoteUnset, ps_error := Some remote_error\<rparr>\<rparr>)))"

definition sync_phases ::
  "env \<Rightarrow> net_lib \<Rightarrow> (path \<Rightarrow> int \<times> byte list) \<Rightarrow> string \<Rightarrow> project \<Rightarrow> sync_request \<Rightarrow> sync_result op"
where
  "sync_phases env net draw pid p req =
     (case git_remote_url p of
        Some (u # us) \<Rightarrow>
          op_bind (if rq_pull req then run_pull_phase env net draw pid p (u # us) (rq_now req) else op_return no_pull)
          (\<lambda>pull. op_bind
             (if rq_push req \<and> (\<not> rq_pull req \<or> pl_status pull = Succeeded \<or> rq_push_after_failed_pull req)
              then run_push_phase env net pid p (u # us) (rq_branch req) (rq_now req) else op_return no_push)
          (\<lambda>push. op_return \<lparr>sr_project_id = proj_id p, sr_remote_url = git_remote_url p, sr_pull = pull, sr_push = push\<rparr>))
      | _ \<Rightarrow> remote_unset pid p req)"

definition run_project_sync ::
  "env \<Rightarrow> net_lib \<Rightarrow> (path \<Rightarrow> int \<times> byte list) \<Rightarrow> string \<Rightarrow> sync_request \<Rightarrow> sync_result op"
where
  "run_project_sync env net draw pid req =
     op_then (op_require (pid \<noteq> []) (InvalidArgument ''project_id must not be empty''))
     (op_then (op_require (rq_pull req \<or> rq_push req) (InvalidArgument ''project sync must request pull, push, or both''))
     (op_bind (db_read (projects_get pid))
     (\<lambda>initial. case initial of
        None \<Rightarrow> op_lift (Inl (RuntimeError (''project not found: '' @ pid)))
      | Some p0 \<Rightarrow>
     op_bind (db_read (projects_get pid))
     (\<lambda>current. case current of
        None \<Rightarrow> op_lift (Inl (RuntimeError (''project not found: '' @ pid)))
      | Some p \<Rightarrow>
          op_then (op_require (root_path p = root_path p0) (RuntimeError (''project root changed while waiting for sync: '' @ pid)))
            (sync_phases env net draw pid p req)))))"

end
