(* ===== verification/Db_Statements.thy ===== *)
theory Db_Statements
  imports Rebuild_Index Project_Sync Card_Changes
begin

text \<open>
  Every operation of the card store and of the sync reaches the database through the statements of the repositories:
  whatever an operation does, and wherever it fails, the rows after it come from the rows before it by a sequence of
  statements. So what every statement keeps, every operation keeps.
\<close>

section \<open>Statements\<close>

text \<open>The statements of the repositories, on all tables but the table of projects. A rebuild runs in one
  transaction and counts as one statement.\<close>

inductive statement :: "db \<Rightarrow> db \<Rightarrow> bool" where
  repo: "repo_step d d' \<Longrightarrow> statement d d'"
| rebuild: "rebuild_project_in_transaction opts env p disk d = Inr (st, d') \<Longrightarrow> statement d d'"
| sync: "sync_upsert x d = Inr d' \<Longrightarrow> statement d d'"
| unsync: "statement d (sync_remove pid d)"
| thread: "threads_create th d = Inr d' \<Longrightarrow> statement d d'"
| thread_title: "statement d (threads_update_title tid ttl now d)"
| thread_card: "threads_update_card_id tid cid d = Inr d' \<Longrightarrow> statement d d'"
| thread_touched: "statement d (threads_touch_updated tid now d)"
| thread_gone: "statement d (threads_remove tid d)"
| message: "insert_message m d = Inr d' \<Longrightarrow> statement d d'"
| message_row: "statement d (update_message_row m d)"
| message_deleted: "statement d (set_message_deleted mid del d)"
| message_gone: "statement d (delete_message mid d)"
| message_fts: "statement d (fts_upsert_message mid tid pid body d)"
| message_unfts: "statement d (fts_delete_message mid d)"
| put: "put_bundle b d = Inr d' \<Longrightarrow> statement d d'"
| resource_gone: "statement d (resources_remove rid d)"
| location: "locations_put jl l d = Inr d' \<Longrightarrow> statement d d'"
| location_gone: "locations_remove lid d = Inr d' \<Longrightarrow> statement d d'"

text \<open>Statements on cards leave projects and resources alone, and AI threads too unless a card is removed.\<close>

definition leaves :: "db \<Rightarrow> db \<Rightarrow> bool" where
  "leaves d d' \<longleftrightarrow> projects d' = projects d \<and> db_res d' = db_res d \<and> db_ai d' = db_ai d
     \<and> card_id ` set (cards d) \<subseteq> card_id ` set (cards d')"

lemma leaves_refl: "leaves d d"
  by (simp add: leaves_def)

lemma leaves_trans: "leaves d e \<Longrightarrow> leaves e f \<Longrightarrow> leaves d f"
  by (auto simp: leaves_def)

lemma leaves_update_cards: "(\<And>r. card_id (f r) = card_id r) \<Longrightarrow> leaves d (update_cards cid f d)"
  by (simp add: leaves_def update_cards_def image_set_update_where [where k = card_id])

lemma leaves_upsert_links: "upsert_links pid from ls d = Inr d' \<Longrightarrow> leaves d d'"
  by (auto simp: leaves_def dest!: upsert_links_same)

lemma leaves_card_statements:
  "leaves d (update_title cid ttl now d)" "leaves d (touch_updated cid now d)" "leaves d (soft_delete cid del now d)"
  "leaves d (cards_restore cid now d)" "restore_snapshot c d = Inr d' \<Longrightarrow> leaves d d'"
  "cards_move cid parent key now d = Inr d' \<Longrightarrow> leaves d d'"
  by (auto simp: update_title_def touch_updated_def soft_delete_def cards_restore_def restore_snapshot_def cards_move_def Let_def
      intro!: leaves_update_cards split: if_splits)

lemma leaves_index_statements:
  "cards_create c d = Inr d' \<Longrightarrow> leaves d d'" "replace_milestones pid cid ms d = Inr d' \<Longrightarrow> leaves d d'"
  "set_tags_for_card pid cid ts now d = Inr d' \<Longrightarrow> leaves d d'"
  by (auto simp: leaves_def cards_create_def replace_milestones_iff set_tags_for_card_iff Let_def split: if_splits)

lemma leaves_deletions:
  "leaves d (delete_link pid from cid ty kind d)" "leaves d (delete_links_to_typed pid cid lt d)" "leaves d (delete_links_from pid from d)"
  "leaves d (delete_milestones pid cid d)" "leaves d (delete_tags_for_card pid cid d)" "leaves d (fts_upsert_card cid pid ttl body d)"
  "leaves d (fts_delete_card cid d)"
  by (simp_all add: leaves_def delete_link_def delete_links_to_typed_def delete_links_from_def delete_milestones_def
      delete_tags_for_card_def fts_upsert_card_def fts_delete_card_def Let_def)

lemmas leaves_statements = leaves_card_statements leaves_index_statements leaves_deletions leaves_upsert_links

lemma repo_step_leaves: "repo_step d d' \<Longrightarrow> leaves d d' \<or> (\<exists>cid. d' = cards_remove cid d)"
  by (induction rule: repo_step.induct) (blast intro: leaves_statements)+

text \<open>The other statements change one group of tables each.\<close>

lemma message_statements_ai:
  "insert_message m d = Inr d' \<Longrightarrow> \<exists>t. d' = d\<lparr>db_ai := t\<rparr>" "\<exists>t. update_message_row m d = d\<lparr>db_ai := t\<rparr>"
  "\<exists>t. set_message_deleted mid del d = d\<lparr>db_ai := t\<rparr>" "\<exists>t. delete_message mid d = d\<lparr>db_ai := t\<rparr>"
  "\<exists>t. fts_upsert_message mid tid pid body d = d\<lparr>db_ai := t\<rparr>" "\<exists>t. fts_delete_message mid d = d\<lparr>db_ai := t\<rparr>"
  by (auto simp: message_table.ins_iff update_message_row_def update_message_def set_message_deleted_def delete_message_def
      fts_upsert_message_def fts_delete_message_def set_messages_def Let_def)

lemma thread_statements_ai:
  "threads_create th d = Inr d' \<Longrightarrow> \<exists>t. d' = d\<lparr>db_ai := t\<rparr>" "\<exists>t. threads_update_title tid ttl now d = d\<lparr>db_ai := t\<rparr>"
  "threads_update_card_id tid cid d = Inr d' \<Longrightarrow> \<exists>t. d' = d\<lparr>db_ai := t\<rparr>" "\<exists>t. threads_touch_updated tid now d = d\<lparr>db_ai := t\<rparr>"
  "\<exists>t. threads_remove tid d = d\<lparr>db_ai := t\<rparr>"
  by (auto simp: thread_table.ins_iff threads_update_title_def threads_update_card_id_def threads_touch_updated_def
      threads_remove_def delete_threads_def update_thread_def set_threads_def set_messages_def Let_def split: if_splits)

lemma resource_statements_res:
  "\<exists>t. resources_remove rid d = d\<lparr>db_res := t\<rparr>" "locations_remove lid d = Inr d' \<Longrightarrow> \<exists>t. d' = d\<lparr>db_res := t\<rparr>"
  by (auto simp: resources_remove_def delete_resources_def locations_remove_def delete_locations_def set_locations_def Let_def
      split: if_splits)

lemma statement_kinds [consumes 1, case_names cards removed rebuilt synced ai res]:
  assumes "statement d d'"
  obtains "repo_step d d'" "leaves d d'"
  | cid where "d' = cards_remove cid d"
  | opts env p disk st where "rebuild_project_in_transaction opts env p disk d = Inr (st, d')"
  | t where "d' = d\<lparr>sync_states := t\<rparr>"
  | t where "d' = d\<lparr>db_ai := t\<rparr>" "wf_ai d \<Longrightarrow> wf_ai d'"
  | t where "d' = d\<lparr>db_res := t\<rparr>" "wf_resources d \<Longrightarrow> wf_resources d'"
  using assms
proof cases
  case repo
  with repo_step_leaves [OF this] show thesis using that(1,2) by blast
next
  case rebuild
  then show thesis by (rule that(3))
next
  case sync
  then show thesis using that(4) by (auto simp: sync_upsert_def Let_def split: if_splits)
next
  case unsync
  then show thesis using that(4) by (simp add: sync_remove_def)
next
  case thread
  then show thesis using that(5) thread_statements_ai(1) wf_threads_create by blast
next
  case (thread_gone tid)
  have "wf_ai d \<Longrightarrow> wf_ai d'" unfolding thread_gone threads_remove_def by (rule wf_delete_threads)
  then show thesis using that(5) thread_statements_ai(5) thread_gone by blast
next
  case message
  then show thesis using that(5) message_statements_ai(1) wf_insert_message by blast
next
  case put
  then show thesis using that(6) put_bundle_res wf_put_bundle by blast
next
  case (resource_gone rid)
  have "wf_resources d \<Longrightarrow> wf_resources d'" unfolding resource_gone resources_remove_def by (rule wf_delete_resources)
  then show thesis using that(6) resource_statements_res(1) resource_gone by blast
next
  case location
  then show thesis using that(6) locations_put_res wf_locations_put by blast
next
  case location_gone
  then have "wf_resources d \<Longrightarrow> wf_resources d'" unfolding locations_remove_def by (rule wf_delete_locations [rotated])
  then show thesis using that(6) resource_statements_res(2) location_gone by blast
qed (metis that(5) message_statements_ai(2-) wf_message_updates thread_statements_ai(2-4) wf_threads_updates)+

lemma statement_keeps_projects: "statement d d' \<Longrightarrow> projects d' = projects d"
  by (induction rule: statement_kinds) (auto simp: leaves_def cards_remove_def Let_def dest: rebuild_keeps_projects)

lemma statement_keeps_schema:
  assumes "statement d d'" and wf: "wf_tables d"
  shows "wf_tables d'"
  using assms(1)
proof (cases rule: statement_kinds)
  case cards
  with wf show ?thesis using wf_repo_step [of d d'] wf_ai_cong [of d' d] wf_resources_cong [of d d']
    by (simp add: wf_tables_def wf_projects_def leaves_def)
next
  case (removed cid)
  with wf show ?thesis using wf_cards_remove [of d cid] wf_ai_cards_remove [of d cid] wf_resources_cong [of d d']
    by (simp add: wf_tables_def wf_projects_def cards_remove_def Let_def)
next
  case rebuilt
  then show ?thesis using rebuild_wf wf by blast
next
  case synced
  with wf show ?thesis using wf_db_sel [of d d'] wf_ai_cong [of d' d] wf_resources_cong [of d d']
    by (simp add: wf_tables_def wf_projects_def)
next
  case ai
  with wf show ?thesis using wf_resources_cong [of d d'] by (simp add: wf_tables_def wf_projects_def)
next
  case res
  with wf show ?thesis using wf_db_sel [of d d'] wf_ai_cong [of d' d] by (simp add: wf_tables_def wf_projects_def)
qed

section \<open>Operations made of statements\<close>

definition by_statements :: "store \<Rightarrow> store \<Rightarrow> bool" where
  "by_statements s t \<longleftrightarrow> statement\<^sup>*\<^sup>* (st_db s) (st_db t)"

lemma by_statements_keep:
  assumes "by_statements s t" and "\<And>d d'. statement d d' \<Longrightarrow> P d \<Longrightarrow> P d'" and "P (st_db s)"
  shows "P (st_db t)"
  using assms(1) unfolding by_statements_def by (induction rule: rtranclp_induct) (auto intro: assms(2,3))

lemma by_statements_schema: "by_statements s t \<Longrightarrow> wf_tables (st_db s) \<Longrightarrow> wf_tables (st_db t)"
  using by_statements_keep statement_keeps_schema by blast

lemma by_statements_projects: "by_statements s t \<Longrightarrow> projects (st_db t) = projects (st_db s)"
  using by_statements_keep [of s t "\<lambda>d. projects d = projects (st_db s)"] by (simp add: statement_keeps_projects)

named_theorems statement_ops \<open>operations that change the rows by statements only\<close>

lemma by_statements_rel [keeps_intros]: "reflp by_statements" "transp by_statements"
  by (auto simp: by_statements_def intro: reflpI transpI)

lemma by_statements_disk [keeps_intros]: "op_keeps by_statements (disk_try dir h)"
  by (auto intro!: op_keepsI simp: disk_try_def by_statements_def split: sum.splits)

lemma by_statements_same_db: "op_keeps same_db m \<Longrightarrow> op_keeps by_statements m"
  by (simp add: op_keeps_def by_statements_def)

lemma by_statements_write: "(\<And>d. statement d (f d)) \<Longrightarrow> op_keeps by_statements (db_write f)"
  by (simp add: op_keeps_def db_write_def by_statements_def r_into_rtranclp)

lemma by_statements_run:
  "(\<And>d d'. f d = Inr d' \<Longrightarrow> statement\<^sup>*\<^sup>* d d') \<Longrightarrow> op_keeps by_statements (db_try f)"
  by (auto intro!: op_keepsI simp: db_try_def by_statements_def split: sum.splits)

lemma by_statements_try:
  "(\<And>d d'. f d = Inr d' \<Longrightarrow> statement d d') \<Longrightarrow> op_keeps by_statements (db_try f)"
  by (rule by_statements_run) blast

lemma by_statements_tx [keeps_intros]: "op_keeps by_statements m \<Longrightarrow> op_keeps by_statements (op_tx m)"
  by (rule op_keeps_tx) (simp_all add: by_statements_def)

lemmas repo_statements = repo_step.intros [THEN statement.repo]

lemma card_statements_ops [statement_ops]:
  "op_keeps by_statements (db_write (touch_updated cid now))" "op_keeps by_statements (db_write (update_title cid ttl now))"
  "op_keeps by_statements (db_write (fts_upsert_card cid pid ttl body))" "op_keeps by_statements (db_write (delete_links_from pid cid))"
  "op_keeps by_statements (db_write (delete_links_to_typed pid cid lt))"
  "op_keeps by_statements (db_try (cards_create c))" "op_keeps by_statements (db_try (cards_move cid parent key now))"
  "op_keeps by_statements (db_try (set_tags_for_card pid cid ts now))" "op_keeps by_statements (db_try (replace_milestones pid cid ms))"
  "op_keeps by_statements (db_try (upsert_links pid cid ls))"
  by ((rule by_statements_write by_statements_try; blast intro: repo_statements))+

lemma other_statements_ops [statement_ops]:
  "op_keeps by_statements (db_try (sync_upsert x))" "op_keeps by_statements (db_try (insert_message m))"
  "op_keeps by_statements (db_write (update_message_row m))" "op_keeps by_statements (db_write (set_message_deleted mid del))"
  "op_keeps by_statements (db_write (delete_message mid))" "op_keeps by_statements (db_write (fts_upsert_message mid tid pid body))"
  "op_keeps by_statements (db_write (fts_delete_message mid))" "op_keeps by_statements (db_try (put_bundle b))"
  "op_keeps by_statements (db_write (resources_remove rid))" "op_keeps by_statements (db_try (locations_put jl l))"
  "op_keeps by_statements (db_try (locations_remove lid))"
  by ((rule by_statements_write by_statements_try; blast intro: statement.intros))+

lemma op_keeps_branches [keeps_intros]:
  "op_keeps R m \<Longrightarrow> op_keeps R n \<Longrightarrow> op_keeps R (if b then m else n)"
  "op_keeps R m \<Longrightarrow> (\<And>x. op_keeps R (f x)) \<Longrightarrow> op_keeps R (case xo of None \<Rightarrow> m | Some x \<Rightarrow> f x)"
  "(\<And>x y. op_keeps R (g x y)) \<Longrightarrow> op_keeps R (case xy of (x, y) \<Rightarrow> g x y)"
  "(\<And>e. op_keeps R (h e)) \<Longrightarrow> (\<And>x. op_keeps R (f x)) \<Longrightarrow> op_keeps R (case r of Inl e \<Rightarrow> h e | Inr x \<Rightarrow> f x)"
  by (simp_all split: option.split prod.split sum.split)

section \<open>The card store\<close>

lemma rebuild_project_statements [statement_ops]: "op_keeps by_statements (rebuild_project env p)"
proof (rule op_keepsI)
  fix s r t assume "rebuild_project env p s = (r, t)"
  then show "by_statements s t"
    unfolding rebuild_project_def rebuild_project_with_def by_statements_def
    by (cases r) (fastforce simp: op_simps intro: statement.rebuild)+
qed

lemma require_project_statements [statement_ops]: "op_keeps by_statements (require_project env pid)"
  unfolding require_project_def by (intro keeps_intros statement_ops)

lemma file_steps_statements [statement_ops]:
  "op_keeps by_statements (write_card_file env p c ls ms body)" "op_keeps by_statements (stage_and_check env p path)"
  "op_keeps by_statements (commit_op env p msg)" "op_keeps by_statements (open_project env p)"
  "op_keeps by_statements (require_card cid)"
  by (cases "git_remote_url p";
      auto simp: write_card_file_def stage_and_check_def commit_op_def open_project_def require_card_def split: option.split
        intro!: keeps_intros)+

lemma index_card_statements [statement_ops]: "op_keeps by_statements (index_card env c body now)"
  unfolding index_card_def by (intro keeps_intros statement_ops)

lemma create_row_statements [statement_ops]: "op_keeps by_statements (create_row_or_unlink p c)"
  by (rule op_keepsI)
    (auto simp: create_row_or_unlink_def db_try_def disk_try_def remove_file_def by_statements_def
      intro: repo_statements split: sum.splits)

lemma create_card_statements [statement_ops]: "op_keeps by_statements (create_card env c body key)"
  unfolding create_card_def Let_def by (intro keeps_intros statement_ops)

lemma run_mutation_statements [statement_ops]: "op_keeps by_statements (run_mutation env p saved renames writes msg)"
  by (rule by_statements_same_db, rule op_keepsI)
    (auto simp: run_mutation_def Let_def split: prod.splits option.splits sum.splits)

lemma change_rows_statements:
  assumes "change_rows env f d = Inr d'"
  shows "statement\<^sup>*\<^sup>* d d'"
proof -
  let ?c = "pf_card f"
  define links where "links e = (if pf_links f \<noteq> [] then upsert_links (project_id ?c) (card_id ?c) (pf_links f) e else Inr e)" for e
  from assms obtain d1 d3 where s: "restore_snapshot ?c d = Inr d1" "links (delete_links_from (project_id ?c) (card_id ?c) d1) = Inr d3"
    and rest: "(if deleted_at ?c \<noteq> None
       then Inr (delete_milestones (project_id ?c) (card_id ?c) (delete_tags_for_card (project_id ?c) (card_id ?c)
              (if e_fts env then fts_delete_card (card_id ?c) d3 else d3)))
       else rbind (set_tags_for_card (project_id ?c) (card_id ?c) (extract_tags (e_md env) (pf_body f)) (updated_at ?c)
              (if e_fts env then fts_upsert_card (card_id ?c) (project_id ?c) (title ?c) (pf_body f) d3 else d3))
              (replace_milestones (project_id ?c) (card_id ?c) (pf_milestones f))) = Inr d'"
    unfolding change_rows_def Let_def rbind_eq_Inr by - (elim exE conjE, rule that, simp_all only: links_def)
  have "statement\<^sup>*\<^sup>* d d1" using s(1) by (blast intro: repo_statements)
  also have "statement\<^sup>*\<^sup>* d1 (delete_links_from (project_id ?c) (card_id ?c) d1)" by (blast intro: repo_statements)
  also have "statement\<^sup>*\<^sup>* (delete_links_from (project_id ?c) (card_id ?c) d1) d3"
    using s(2) by (auto simp: links_def intro: repo_statements split: if_splits)
  also have "statement\<^sup>*\<^sup>* d3 d'"
  proof (cases "deleted_at ?c \<noteq> None")
    case True
    then have d': "d' = delete_milestones (project_id ?c) (card_id ?c) (delete_tags_for_card (project_id ?c) (card_id ?c)
              (if e_fts env then fts_delete_card (card_id ?c) d3 else d3))" using rest by simp
    have "statement\<^sup>*\<^sup>* d3 (if e_fts env then fts_delete_card (card_id ?c) d3 else d3)" by (auto intro: repo_statements)
    then show ?thesis unfolding d' by (blast intro: repo_statements rtranclp.rtrancl_into_rtrancl)
  next
    case False
    let ?d = "if e_fts env then fts_upsert_card (card_id ?c) (project_id ?c) (title ?c) (pf_body f) d3 else d3"
    have "statement\<^sup>*\<^sup>* d3 ?d" by (auto intro: repo_statements)
    with False rest show ?thesis
      by (auto simp: rbind_eq_Inr simp del: if_split intro: repo_statements rtranclp.rtrancl_into_rtrancl)
  qed
  finally show ?thesis .
qed

lemma apply_changes_statements [statement_ops]: "op_keeps by_statements (apply_card_changes env p changes msg)"
proof -
  have "statement\<^sup>*\<^sup>* d d'" if "rfold (\<lambda>(ch, _). change_rows env (ch_target ch)) cs d = Inr d'" for cs :: "(card_change \<times> change_paths) list" and d d'
    using that rtranclp.rtrancl_refl
    by (rule rfold_invariant) (auto dest: change_rows_statements)
  then show ?thesis
    unfolding apply_card_changes_def by (intro keeps_intros statement_ops by_statements_run) auto
qed

lemma change_plans_statements [statement_ops]:
  "op_keeps by_statements (placement_change env p c)" "op_keeps by_statements (trashed_change env p now c)"
  unfolding placement_change_def trashed_change_def by (intro keeps_intros)+

lemma apply_target_statements [statement_ops]:
  "op_keeps by_statements (apply_target_and_placements env p current target placed msg)"
  unfolding apply_target_and_placements_def by (intro keeps_intros statement_ops)

lemma update_content_statements [statement_ops]: "op_keeps by_statements (update_content env cid content ttl now)"
proof -
  have "op_keeps by_statements (db_write (case ttl of Some t \<Rightarrow> update_title cid t now | None \<Rightarrow> touch_updated cid now))"
    by (cases ttl) (simp_all add: statement_ops)
  then show ?thesis unfolding update_content_def Let_def by (intro keeps_intros statement_ops)
qed

lemma edit_card_statements [statement_ops]:
  "op_keeps by_statements (move_card env cid hp parent key now)"
  "op_keeps by_statements (update_links env cid now)" "op_keeps by_statements (update_milestones env cid now)"
  "op_keeps by_statements (update_milestone env pid cid mid u now)"
  unfolding move_card_def update_links_def update_milestones_def update_milestone_def Let_def
  by (intro keeps_intros statement_ops)+

lemma move_to_statements [statement_ops]: "op_keeps by_statements (move_to env pid cid req now)"
  unfolding move_to_def Let_def by (intro keeps_intros statement_ops)

lemma create_batch_statements [statement_ops]: "op_keeps by_statements (create_batch env draws ms_ids pid items msg)"
  unfolding create_batch_def batch_item_def Let_def by (intro keeps_intros statement_ops)

lemma trash_statements [statement_ops]: "op_keeps by_statements (trash env cid now children)"
  unfolding trash_def by (cases children; simp only: trash_children.case) (intro keeps_intros statement_ops)+

lemma restore_statements [statement_ops]:
  "op_keeps by_statements (restore_card env cid now)" "op_keeps by_statements (restore_version env cid oid now)"
  unfolding restore_card_def restore_version_def Let_def by (intro keeps_intros statement_ops)+

lemma repair_statements [statement_ops]:
  "op_keeps by_statements (plan_repair env pid)" "op_keeps by_statements (repair_hierarchy env pid now)"
  unfolding plan_repair_def repair_hierarchy_def by (intro keeps_intros statement_ops)+

lemma hard_delete_statements [statement_ops]: "op_keeps by_statements (hard_delete env cid)"
proof -
  have "op_keeps by_statements (db_write (\<lambda>d. cards_remove x (delete_milestones q x (delete_tags_for_card q x
            (delete_links_to_typed q x ''card'' (delete_links_from q x d))))))" for q x
    by (auto intro!: op_keepsI simp: db_write_def by_statements_def)
      (meson repo_statements rtranclp.rtrancl_into_rtrancl rtranclp.rtrancl_refl)
  then show ?thesis unfolding hard_delete_def by (intro keeps_intros statement_ops)
qed

lemma reading_statements [statement_ops]:
  "op_keeps by_statements (get_content env c)" "op_keeps by_statements (list_complete_page env pid after limit)"
  "op_keeps by_statements (list_collection env pid q limit inc)" "op_keeps by_statements (list_editable_tags env cid)"
  unfolding get_content_def list_complete_page_def list_collection_def list_editable_tags_def content_of_page_card_def Let_def
  by (intro keeps_intros statement_ops)+

lemma tag_statements [statement_ops]:
  "op_keeps by_statements (add_tag env cid tg now)" "op_keeps by_statements (remove_tag env cid tg now)"
  unfolding add_tag_def remove_tag_def Let_def by (intro keeps_intros statement_ops)+

section \<open>The sync\<close>

text \<open>Git never touches the database.\<close>

lemma open_with_remote_keeps [keeps_intros]: "op_keeps same_db (open_with_remote env p url)"
  by (simp add: open_with_remote_def keeps_intros)

lemma keep_local_keeps: "op_keeps same_db (keep_local lib dir oid ch)"
  by (cases "(lib, dir, oid, ch)" rule: keep_local.cases) (auto intro!: keeps_intros split: option.splits)

lemma checkout_keeps_db: "op_keeps same_db (checkout_commit_oid net dir oid)"
  unfolding checkout_commit_oid_def by (intro keeps_intros)

lemma pull_keeps_db: "op_keeps same_db (pull_remote_ff_only net dir name)"
  unfolding pull_remote_ff_only_def fast_forward_def Let_def
  by (intro keeps_intros) (auto intro!: keeps_intros checkout_keeps_db split: option.splits)

lemma merge_keeps_db: "op_keeps same_db (merge_remote_taking_theirs net lib now dir name a b)"
  unfolding merge_remote_taking_theirs_def
  by (intro keeps_intros) (auto intro!: keeps_intros checkout_keeps_db keep_local_keeps)

lemmas git_statements [statement_ops] = open_with_remote_keeps [THEN by_statements_same_db] pull_keeps_db [THEN by_statements_same_db]
  merge_keeps_db [THEN by_statements_same_db]

lemma resolve_conflict_statements [statement_ops]:
  "op_keeps by_statements (resolve_conflict env draw p scheme oid now path)"
  unfolding resolve_conflict_def Let_def by (intro keeps_intros statement_ops) (auto intro!: keeps_intros statement_ops)

lemma pull_or_merge_statements [statement_ops]: "op_keeps by_statements (pull_or_merge env net draw p now)"
proof -
  have "op_keeps by_statements (resolve_pull_conflicts env net draw p a b now)" for a b
    unfolding resolve_pull_conflicts_def by (intro keeps_intros statement_ops)
  then show ?thesis
    unfolding pull_or_merge_def by (intro keeps_intros statement_ops) (auto split: exn.splits)
qed

lemma reconcile_statements [statement_ops]:
  "op_keeps by_statements (op_then (reconcile_index_after_pull env p) (repair_hierarchy_after_pull env p now))"
  unfolding reconcile_index_after_pull_def repair_hierarchy_after_pull_def
  by (intro keeps_intros statement_ops) (auto intro!: keeps_intros)

lemma record_statements [statement_ops]:
  "op_keeps by_statements (db_try (record_pull_result pid status ok msg now))"
  "op_keeps by_statements (db_try (record_push_result pid status ok msg now))"
  "op_keeps by_statements (db_try (update_activity_counts pid changes unpushed now))"
  unfolding record_pull_result_def record_push_result_def update_activity_counts_def Let_def
  by ((rule by_statements_try, erule statement.sync))+

lemma phase_ends_statements [statement_ops]:
  "op_keeps by_statements (refresh_activity_best_effort net p now)" "op_keeps by_statements (pull_failed pid now m n e)"
  "op_keeps by_statements (push_failed pid now ph e)"
  unfolding refresh_activity_best_effort_def pull_failed_def push_failed_def
  by (intro keeps_intros statement_ops; auto intro!: keeps_intros)+

lemma finish_statements [statement_ops]:
  "op_keeps by_statements (finish_pull pid now m n)" "op_keeps by_statements (finish_push pid now ph)"
  unfolding finish_pull_def finish_push_def by (intro keeps_intros statement_ops)+

lemma phases_statements [statement_ops]:
  "op_keeps by_statements (run_pull_phase env net draw pid p url now)"
  "op_keeps by_statements (run_push_phase env net pid p url branch now)"
  unfolding run_pull_phase_def try_pull_def reconcile_pull_def run_push_phase_def try_push_def
  by (intro keeps_intros statement_ops)+

lemma run_project_sync_statements [statement_ops]: "op_keeps by_statements (run_project_sync env net draw pid req)"
proof -
  have "op_keeps by_statements (remote_unset pid p req)" for p
    unfolding remote_unset_def Let_def by (intro keeps_intros statement_ops)
  then have "op_keeps by_statements (sync_phases env net draw pid p req)" for p
    unfolding sync_phases_def
    by (cases "git_remote_url p") (auto intro!: keeps_intros statement_ops split: list.split)
  then show ?thesis unfolding run_project_sync_def by (intro keeps_intros statement_ops)
qed

end
