(* ===== verification/Sync_Run.thy ===== *)
theory Sync_Run
  imports Db_Statements
begin

text \<open>
  What a sync run guarantees: every requested phase is carried out or skipped as the request says, its outcome is
  recorded with the matching retry time, and Git failures are reported instead of thrown.
\<close>

section \<open>The stored state\<close>

lemma sync_get_upsert:
  assumes "sync_upsert s d = Inr d'" and "c_str pid = c_str (ss_project_id s)"
  shows "sync_get pid d' = Some (bind_sync_state s)"
proof -
  have k: "ss_project_id (bind_sync_state s) = c_str pid" using assms(2) by (simp add: bind_sync_state_def)
  show ?thesis
  proof (cases "c_str pid \<in> ss_project_id ` set (sync_states d)")
    case True
    then have "find (\<lambda>r. ss_project_id r = c_str pid) (sync_states d) \<noteq> None" by (auto simp: find_None_iff)
    moreover from assms True k have "d' = d\<lparr>sync_states := update_where (\<lambda>r. ss_project_id r = c_str pid)
        (\<lambda>_. bind_sync_state s) (sync_states d)\<rparr>"
      by (simp add: sync_upsert_def Let_def)
    moreover have "find (\<lambda>r. ss_project_id r = c_str pid) (update_where (\<lambda>r. ss_project_id r = c_str pid) (\<lambda>_. bind_sync_state s) xs)
        = map_option (\<lambda>_. bind_sync_state s) (find (\<lambda>r. ss_project_id r = c_str pid) xs)" for xs
      using k by (induction xs) (auto simp: update_where_def)
    ultimately show ?thesis by (auto simp: sync_get_def)
  next
    case False
    then have "find (\<lambda>r. ss_project_id r = c_str pid) (sync_states d) = None" by (auto simp: find_None_iff image_iff)
    with assms False k show ?thesis by (auto simp: sync_upsert_def sync_get_def Let_def find_append split: if_splits)
  qed
qed

definition pull_recorded :: "i64 \<Rightarrow> pull_phase \<Rightarrow> sync_state \<Rightarrow> bool" where
  "pull_recorded now ph row \<longleftrightarrow>
     last_pull_status row = Some (pull_phase_status_name (pl_status ph))
     \<and> (if pl_status ph = Succeeded
        then last_pull_at row = Some now \<and> pull_retry_count row = 0 \<and> next_pull_retry_at row = None
        else next_pull_retry_at row = Some (now + backoff_seconds_for_retry (pull_retry_count row)))"

definition push_recorded :: "i64 \<Rightarrow> push_phase \<Rightarrow> sync_state \<Rightarrow> bool" where
  "push_recorded now ph row \<longleftrightarrow>
     last_push_status row = Some (push_status_name (ps_status ph))
     \<and> (if push_succeeded (ps_status ph)
        then last_push_at row = Some now \<and> retry_count row = 0 \<and> next_retry_at row = None
        else next_retry_at row = Some (now + backoff_seconds_for_retry (retry_count row)))"

lemma status_names_plain [simp]:
  "c_str (pull_phase_status_name st) = pull_phase_status_name st" "c_str (push_status_name ps) = push_status_name ps"
proof -
  show "c_str (pull_phase_status_name st) = pull_phase_status_name st" by (cases st) (simp_all add: c_str_def)
  show "c_str (push_status_name ps) = push_status_name ps" by (cases ps) (simp_all add: c_str_def)
qed

lemma c_str_succeeded [simp]: "c_str ''succeeded'' = ''succeeded''"
  by (simp add: c_str_def)

lemma sync_state_of_project: "c_str (ss_project_id (sync_state_of pid d)) = c_str pid"
  by (simp add: sync_state_of_def split: option.splits)

lemma record_pull_recorded:
  assumes "record_pull_result pid (pull_phase_status_name (pl_status ph)) (pl_status ph = Succeeded) msg now d = Inr d'"
  shows "\<exists>row. sync_get pid d' = Some row \<and> pull_recorded now ph row"
  using sync_get_upsert [OF assms [unfolded record_pull_result_def Let_def], of pid]
  by (auto simp: bind_sync_state_def pull_recorded_def sync_state_of_def split: option.splits)

lemma record_push_recorded:
  assumes "record_push_result pid (push_status_name (ps_status ph)) (push_succeeded (ps_status ph)) msg now d = Inr d'"
  shows "\<exists>row. sync_get pid d' = Some row \<and> push_recorded now ph row
     \<and> (\<forall>r0 n pl. sync_get pid d = Some r0 \<longrightarrow> pull_recorded n pl r0 \<longrightarrow> pull_recorded n pl row)"
  using sync_get_upsert [OF assms [unfolded record_push_result_def Let_def], of pid]
  by (auto simp: bind_sync_state_def push_recorded_def pull_recorded_def sync_state_of_def split: option.splits)

lemma activity_recorded:
  assumes "update_activity_counts pid a b now d = Inr d'" and "sync_get pid d = Some r0"
  shows "\<exists>row. sync_get pid d' = Some row
     \<and> (\<forall>n pl. pull_recorded n pl r0 \<longrightarrow> pull_recorded n pl row) \<and> (\<forall>m ps. push_recorded m ps r0 \<longrightarrow> push_recorded m ps row)"
  using sync_get_upsert [OF assms(1) [unfolded update_activity_counts_def], of pid] assms(2)
  by (auto simp: bind_sync_state_def push_recorded_def pull_recorded_def sync_state_of_def split: option.splits)

section \<open>Retrying\<close>

lemma backoff_bounds: "0 < n \<Longrightarrow> 60 \<le> backoff_seconds_for_retry n \<and> backoff_seconds_for_retry n \<le> 1800"
  by (auto simp: backoff_seconds_for_retry_def Let_def nth_Cons' split: if_splits)

lemma backoff_mono: "m \<le> n \<Longrightarrow> backoff_seconds_for_retry m \<le> backoff_seconds_for_retry n"
  by (auto simp: backoff_seconds_for_retry_def Let_def nth_Cons' split: if_splits)

text \<open>
  C23: After a failed push the next attempt is held off for at least a minute, at most half an hour, and never
  shorter than after an earlier failure in a row: until then \<open>should_attempt_push\<close> refuses, and once half an hour
  and the push interval have passed it agrees again, so a failing project is neither hammered nor forgotten.
\<close>

theorem failed_push_backs_off:
  assumes "record_push_result pid status False msg now d = Inr d'" and "0 \<le> retry_count (sync_state_of pid d)"
  shows "\<exists>row. sync_get pid d' = Some row \<and> retry_count row = retry_count (sync_state_of pid d) + 1
     \<and> (\<forall>t ivl. let i = \<lparr>pd_last_push_at = last_push_at row, pd_next_retry_at = next_retry_at row, pd_now = t, push_interval_seconds = ivl\<rparr>
          in (t < now + backoff_seconds_for_retry (retry_count (sync_state_of pid d)) \<or> t < now + 60 \<longrightarrow> \<not> should_attempt_push i)
             \<and> (now + 1800 \<le> t \<and> (\<forall>l. last_push_at row = Some l \<longrightarrow> l + ivl \<le> t) \<longrightarrow> should_attempt_push i))"
proof -
  let ?n = "retry_count (sync_state_of pid d)"
  from sync_get_upsert [OF assms(1) [unfolded record_push_result_def Let_def], of pid] obtain row where
    row: "sync_get pid d' = Some row" "retry_count row = ?n + 1" "next_retry_at row = Some (now + backoff_seconds_for_retry (?n + 1))"
    by (auto simp: bind_sync_state_def sync_state_of_project)
  with backoff_bounds [of "?n + 1"] backoff_mono [of ?n "?n + 1"] assms(2) show ?thesis
    by (intro exI [of _ row]) (auto simp: should_attempt_push_def Let_def split: option.splits)
qed

section \<open>The phases\<close>

lemma sync_get_c_str [simp]: "sync_get (c_str pid) d = sync_get pid d"
  by (simp add: sync_get_def)

lemma pull_failed_recorded:
  assumes "pull_failed pid now m n e s = (Inr ph, t)"
  shows "pl_attempted ph \<and> (\<exists>row. sync_get pid (st_db t) = Some row \<and> pull_recorded now ph row)"
proof -
  from assms have "pl_attempted ph" "record_pull_result pid (pull_phase_status_name (pl_status ph)) (pl_status ph = Succeeded)
      (Some (what e)) now (st_db s) = Inr (st_db t)"
    by (auto simp: pull_failed_def op_simps)
  with record_pull_recorded show ?thesis by blast
qed

lemma op_attempt_bind:
  "op_bind (op_attempt m) f s = (r, t) \<longleftrightarrow> (\<exists>x u. m s = (x, u) \<and> f x u = (r, t))"
  by (cases r) (auto simp: op_simps)

lemma finish_pull_recorded:
  assumes "finish_pull pid now m n s = (Inr ph, t)"
  shows "pl_attempted ph \<and> (\<exists>row. sync_get pid (st_db t) = Some row \<and> pull_recorded now ph row)"
proof -
  from assms obtain x u where x: "db_try (record_pull_result pid (pull_phase_status_name Succeeded) True None now) s = (x, u)"
    "(case x of Inl e \<Rightarrow> pull_failed pid now m n e
      | Inr _ \<Rightarrow> op_return \<lparr>pl_attempted = True, pl_status = Succeeded, conflicts_resolved = m, hidden_cards_repaired = n, pl_error = None\<rparr>) u
      = (Inr ph, t)" unfolding finish_pull_def op_attempt_bind by blast
  show ?thesis
  proof (cases x)
    case (Inl e)
    with x pull_failed_recorded show ?thesis by simp
  next
    case (Inr y)
    with x have "pl_attempted ph" "record_pull_result pid (pull_phase_status_name (pl_status ph)) (pl_status ph = Succeeded) None now (st_db s) = Inr (st_db t)"
      by (auto simp: op_simps)
    with record_pull_recorded show ?thesis by blast
  qed
qed

lemma try_pull_recorded:
  assumes "try_pull env net draw pid p url now s = (Inr ph, t)"
  shows "pl_attempted ph \<and> (\<exists>row. sync_get pid (st_db t) = Some row \<and> pull_recorded now ph row)"
proof -
  have r: ?thesis if rp: "reconcile_pull env pid p now m u = (Inr ph, t)" for m u
  proof -
    from rp obtain x v where "(case x of Inl e \<Rightarrow> pull_failed pid now m 0 e | Inr n \<Rightarrow> finish_pull pid now m n) v = (Inr ph, t)"
      unfolding reconcile_pull_def op_attempt_bind by blast
    then show ?thesis by (cases x) (simp_all add: pull_failed_recorded finish_pull_recorded)
  qed
  from assms obtain x v where "(case x of Inl e \<Rightarrow> pull_failed pid now 0 0 e | Inr m \<Rightarrow> reconcile_pull env pid p now m) v = (Inr ph, t)"
    unfolding try_pull_def op_attempt_bind by blast
  with r show ?thesis by (cases x) (simp_all add: pull_failed_recorded)
qed

lemma push_attempt_keeps:
  "op_keeps same_db (op_then (open_with_remote env p url)
     (op_then (op_when (encrypted p) (disk_check dir check)) (disk_check dir push)))"
  by (simp add: keeps_intros)

lemma push_failed_eq:
  "push_failed pid now phase e s = (Inr ph, t) \<longleftrightarrow>
     (\<exists>d. record_push_result pid (push_status_name UnknownError) False (Some (what e)) now (st_db s) = Inr d
        \<and> ph = phase\<lparr>ps_attempted := True, ps_status := UnknownError, ps_error := Some (what e)\<rparr> \<and> t = s\<lparr>st_db := d\<rparr>)"
  by (auto simp: push_failed_def op_simps)

lemma finish_push_eq:
  assumes "finish_push pid now phase s = (Inr ph, t)" and "ps_attempted phase"
  shows "ps_attempted ph \<and> (\<exists>msg. record_push_result pid (push_status_name (ps_status ph)) (push_succeeded (ps_status ph)) msg now (st_db s) = Inr (st_db t))"
proof -
  from assms(1) obtain x u where x: "db_try (record_push_result pid (push_status_name (ps_status phase))
      (push_succeeded (ps_status phase)) (ps_error phase) now) s = (x, u)"
    "(case x of Inl e \<Rightarrow> push_failed pid now phase e | Inr _ \<Rightarrow> op_return phase) u = (Inr ph, t)"
    unfolding finish_push_def op_attempt_bind by blast
  with assms(2) show ?thesis by (cases x) (auto simp: push_failed_eq push_succeeded_def op_simps)
qed

lemma try_push_recorded:
  assumes "try_push env net pid p url branch now s = (Inr ph, t)"
  shows "ps_attempted ph \<and> (\<exists>row. sync_get pid (st_db t) = Some row \<and> push_recorded now ph row
     \<and> (\<forall>r0 n pl. sync_get pid (st_db s) = Some r0 \<longrightarrow> pull_recorded n pl r0 \<longrightarrow> pull_recorded n pl row))"
proof -
  from assms obtain x u where a: "op_then (open_with_remote env p url)
       (op_then (op_when (encrypted p) (disk_check (root_path p) (assert_encryption_push_safe env)))
       (disk_check (root_path p) (push_branch net ''origin'' branch))) s = (x, u)"
    and rest: "(case x of Inl e \<Rightarrow> push_failed pid now no_push e
      | Inr push \<Rightarrow> finish_push pid now
            \<lparr>ps_attempted = True, ps_status = pr_status push, ps_ahead = pr_ahead push, ps_behind = pr_behind push,
             ps_local_head = nonempty (pr_local_head push), ps_error = nonempty (pr_error push)\<rparr>) u = (Inr ph, t)"
    unfolding try_push_def op_attempt_bind by blast
  have same: "st_db u = st_db s" by (rule op_keepsD [OF push_attempt_keeps a])
  have "ps_attempted ph \<and> (\<exists>msg. record_push_result pid (push_status_name (ps_status ph)) (push_succeeded (ps_status ph)) msg now (st_db s) = Inr (st_db t))"
  proof (cases x)
    case (Inl e)
    with rest same show ?thesis by (auto simp: push_failed_eq push_succeeded_def)
  next
    case (Inr push)
    with rest same finish_push_eq show ?thesis by fastforce
  qed
  then obtain msg where "ps_attempted ph"
    "record_push_result pid (push_status_name (ps_status ph)) (push_succeeded (ps_status ph)) msg now (st_db s) = Inr (st_db t)" by blast
  with record_push_recorded show ?thesis by blast
qed

section \<open>The run\<close>

lemma refresh_recorded:
  assumes "refresh_activity_best_effort net p now s = (res, t)" and "sync_get (proj_id p) (st_db s) = Some r0"
  shows "res = Inr () \<and> (\<exists>row. sync_get (proj_id p) (st_db t) = Some row
     \<and> (\<forall>n pl. pull_recorded n pl r0 \<longrightarrow> pull_recorded n pl row) \<and> (\<forall>m ps. push_recorded m ps r0 \<longrightarrow> push_recorded m ps row))"
proof -
  from assms(1) have "res = Inr () \<and> (st_db t = st_db s \<or> (\<exists>a b. update_activity_counts (proj_id p) a b now (st_db s) = Inr (st_db t)))"
    by (auto simp: refresh_activity_best_effort_def op_simps)
  with assms(2) activity_recorded show ?thesis by metis
qed

lemma run_pull_recorded:
  assumes "run_pull_phase env net draw pid p url now s = (Inr ph, t)" and pid: "proj_id p = c_str pid"
  shows "pl_attempted ph \<and> (\<exists>row. sync_get pid (st_db t) = Some row \<and> pull_recorded now ph row)"
proof -
  from assms(1) obtain u r where u: "try_pull env net draw pid p url now s = (Inr ph, u)"
    and f: "refresh_activity_best_effort net p now u = (r, t)"
    by (auto simp: run_pull_phase_def op_simps)
  from try_pull_recorded [OF u] obtain r0 where "pl_attempted ph" "sync_get pid (st_db u) = Some r0" "pull_recorded now ph r0" by blast
  with refresh_recorded [OF f] show ?thesis by (auto simp: pid)
qed

lemma run_push_recorded:
  assumes "run_push_phase env net pid p url branch now s = (Inr ph, t)" and pid: "proj_id p = c_str pid"
  shows "ps_attempted ph \<and> (\<exists>row. sync_get pid (st_db t) = Some row \<and> push_recorded now ph row
     \<and> (\<forall>r0 n pl. sync_get pid (st_db s) = Some r0 \<longrightarrow> pull_recorded n pl r0 \<longrightarrow> pull_recorded n pl row))"
proof -
  from assms(1) obtain u r where u: "try_push env net pid p url branch now s = (Inr ph, u)"
    and f: "refresh_activity_best_effort net p now u = (r, t)"
    by (auto simp: run_push_phase_def op_simps)
  from try_push_recorded [OF u] obtain r1 where r1: "ps_attempted ph" "sync_get pid (st_db u) = Some r1" "push_recorded now ph r1"
    "\<forall>r0 n pl. sync_get pid (st_db s) = Some r0 \<longrightarrow> pull_recorded n pl r0 \<longrightarrow> pull_recorded n pl r1" by blast
  from refresh_recorded [OF f] r1(2) obtain row where "sync_get pid (st_db t) = Some row"
    "\<forall>n pl. pull_recorded n pl r1 \<longrightarrow> pull_recorded n pl row" "\<forall>m ps. push_recorded m ps r1 \<longrightarrow> push_recorded m ps row"
    by (auto simp: pid)
  with r1 show ?thesis by blast
qed

definition sync_recorded :: "string \<Rightarrow> sync_request \<Rightarrow> sync_result \<Rightarrow> db \<Rightarrow> bool" where
  "sync_recorded pid req res d \<longleftrightarrow> (\<exists>row. sync_get pid d = Some row
     \<and> (pl_attempted (sr_pull res) \<longrightarrow> pull_recorded (rq_now req) (sr_pull res) row)
     \<and> (ps_attempted (sr_push res) \<longrightarrow> push_recorded (rq_now req) (sr_push res) row))"

lemma remote_unset_recorded:
  assumes "remote_unset pid p req s = (Inr res, t)" and "rq_pull req \<or> rq_push req"
  shows "(pl_attempted (sr_pull res) \<longleftrightarrow> rq_pull req) \<and> (ps_attempted (sr_push res) \<longleftrightarrow> \<not> rq_pull req) \<and> sync_recorded pid req res (st_db t)"
proof (cases "rq_pull req")
  case True
  with assms(1) have r: "pl_attempted (sr_pull res)" "\<not> ps_attempted (sr_push res)"
    "record_pull_result pid (pull_phase_status_name (pl_status (sr_pull res))) (pl_status (sr_pull res) = Succeeded)
       (Some ''Remote URL is not configured.'') (rq_now req) (st_db s) = Inr (st_db t)"
    by (auto simp: remote_unset_def op_simps no_push_def Let_def)
  with record_pull_recorded [OF r(3)] True show ?thesis by (auto simp: sync_recorded_def)
next
  case False
  with assms(1) have r: "\<not> pl_attempted (sr_pull res)" "ps_attempted (sr_push res)"
    "record_push_result pid (push_status_name (ps_status (sr_push res))) (push_succeeded (ps_status (sr_push res)))
       (Some ''Remote URL is not configured.'') (rq_now req) (st_db s) = Inr (st_db t)"
    by (auto simp: remote_unset_def op_simps no_pull_def push_succeeded_def Let_def)
  with record_push_recorded [OF r(3)] False show ?thesis by (auto simp: sync_recorded_def)
qed


section \<open>Failures are reported\<close>

text \<open>Whatever a pull does to the index, it leaves the projects table alone, so its outcome can be recorded.\<close>

abbreviation same_projects :: "store \<Rightarrow> store \<Rightarrow> bool" where
  "same_projects s t \<equiv> projects (st_db t) = projects (st_db s)"

lemma same_projects_rel [keeps_intros]: "reflp same_projects" "transp same_projects"
  by (auto intro: reflpI transpI)

lemma keeps_projects_same_db: "op_keeps same_db m \<Longrightarrow> op_keeps same_projects m"
  by (simp add: op_keeps_def)

lemma keeps_projects_statements: "op_keeps by_statements m \<Longrightarrow> op_keeps same_projects m"
  unfolding op_keeps_def using by_statements_projects by blast

lemma upsert_known_project:
  assumes "c_str (ss_project_id x) \<in> proj_id ` set (projects d)"
  shows "\<exists>d'. sync_upsert x d = Inr d' \<and> projects d' = projects d"
  using assms by (auto simp: sync_upsert_def bind_sync_state_def Let_def)

text \<open>Operations that return whenever the project has a row, and leave it its row.\<close>

definition known :: "string \<Rightarrow> store \<Rightarrow> bool" where
  "known pid s \<longleftrightarrow> c_str pid \<in> proj_id ` set (projects (st_db s))"

definition op_returns :: "string \<Rightarrow> 'a op \<Rightarrow> bool" where
  "op_returns pid m \<longleftrightarrow> (\<forall>s. known pid s \<longrightarrow> (\<exists>x t. m s = (Inr x, t) \<and> known pid t))"

named_theorems returns_intros \<open>operations that return\<close>

lemma returns_return [returns_intros]: "op_returns pid (op_return x)"
  by (simp add: op_returns_def op_return_def)

lemma returns_bind [returns_intros]:
  "op_returns pid m \<Longrightarrow> (\<And>x. op_returns pid (f x)) \<Longrightarrow> op_returns pid (op_bind m f)"
  unfolding op_returns_def by (metis op_bind_step)

lemma returns_attempt [returns_intros]:
  assumes "op_keeps same_projects m"
  shows "op_returns pid (op_attempt m)"
  unfolding op_returns_def
proof safe
  fix s assume k: "known pid s"
  obtain r t where m: "m s = (r, t)" by fastforce
  from op_keepsD [OF assms m] k have "known pid t" by (simp add: known_def)
  with m show "\<exists>y u. op_attempt m s = (Inr y, u) \<and> known pid u" by (simp add: op_attempt_def)
qed

lemma returns_catch [returns_intros]:
  assumes "op_keeps same_projects m"
  shows "op_returns pid (op_catch m (\<lambda>_. op_return x))"
  unfolding op_returns_def
proof safe
  fix s assume k: "known pid s"
  obtain r t where m: "m s = (r, t)" by fastforce
  from op_keepsD [OF assms m] k have "known pid t" by (simp add: known_def)
  with m show "\<exists>y u. op_catch m (\<lambda>_. op_return x) s = (Inr y, u) \<and> known pid u"
    by (cases r) (auto simp: op_handle_def op_return_def)
qed

lemma returns_try:
  assumes "\<And>d. c_str pid \<in> proj_id ` set (projects d) \<Longrightarrow> \<exists>d'. f d = Inr d' \<and> projects d' = projects d"
  shows "op_returns pid (db_try f)"
  unfolding op_returns_def known_def
proof (intro allI impI)
  fix s :: store assume "c_str pid \<in> proj_id ` set (projects (st_db s))"
  with assms obtain d' where "f (st_db s) = Inr d'" "projects d' = projects (st_db s)" by blast
  with \<open>c_str pid \<in> _\<close> show "\<exists>x t. db_try f s = (Inr x, t) \<and> c_str pid \<in> proj_id ` set (projects (st_db t))"
    by (simp add: db_try_def)
qed

lemma returns_record [returns_intros]:
  "op_returns pid (db_try (record_pull_result pid st ok msg now))"
  "op_returns pid (db_try (record_push_result pid st ok msg now))"
  unfolding record_pull_result_def record_push_result_def Let_def
  by (rule returns_try, rule upsert_known_project, simp add: sync_state_of_project)+

lemma refresh_keeps_projects: "op_keeps same_projects (op_bind (disk_check dir check)
     (\<lambda>(changes, unpushed). db_try (update_activity_counts pid changes unpushed now)))"
  by (intro keeps_projects_statements keeps_intros statement_ops)

lemma returns_refresh [returns_intros]: "op_returns pid (refresh_activity_best_effort net p now)"
  unfolding refresh_activity_best_effort_def by (rule returns_catch [OF refresh_keeps_projects])

lemma returns_pull_failed [returns_intros]: "op_returns pid (pull_failed pid now m n e)"
  unfolding pull_failed_def by (intro returns_intros)

lemma returns_finish_pull [returns_intros]: "op_returns pid (finish_pull pid now m n)"
  unfolding finish_pull_def
  by (intro returns_intros keeps_projects_statements statement_ops) (auto intro!: returns_intros split: sum.split)

lemma returns_run_pull:
  "op_returns pid (run_pull_phase env net draw pid p url now)"
proof -
  have "op_returns pid (reconcile_pull env pid p now m)" for m
    unfolding reconcile_pull_def
    by (intro returns_intros keeps_projects_statements [OF reconcile_statements]) (auto intro!: returns_intros split: sum.split)
  moreover have "op_keeps same_projects (op_then (open_with_remote env p url) (pull_or_merge env net draw p now))"
    by (intro keeps_projects_statements keeps_intros statement_ops)
  ultimately show ?thesis
    unfolding run_pull_phase_def try_pull_def
    by (intro returns_intros) (auto intro!: returns_intros split: sum.split)
qed

lemma returns_push_failed [returns_intros]: "op_returns pid (push_failed pid now ph e)"
  unfolding push_failed_def by (intro returns_intros)

lemma returns_finish_push [returns_intros]: "op_returns pid (finish_push pid now ph)"
  unfolding finish_push_def
  by (intro returns_intros keeps_projects_statements statement_ops) (auto intro!: returns_intros split: sum.split)

lemma returns_run_push: "op_returns pid (run_push_phase env net pid p url branch now)"
  unfolding run_push_phase_def try_push_def
  by (intro returns_intros keeps_projects_same_db [OF push_attempt_keeps]) (auto intro!: returns_intros split: sum.split)

lemma returns_phases:
  "op_returns pid (sync_phases env net draw pid p req)"
  unfolding sync_phases_def remote_unset_def Let_def
  by (auto intro!: returns_intros returns_run_pull returns_run_push split: option.splits list.splits)


section \<open>A sync of a small project\<close>

text \<open>The fetch fails; the request asks for a push all the same, and it goes through.\<close>

definition sync_demo_net :: net_lib where
  "sync_demo_net = demo_net\<lparr>n_fetch := \<lambda>_ _ _. Inl (RuntimeError ''offline'')\<rparr>"

definition sync_demo_env :: env where
  "sync_demo_env = (demo_env None)\<lparr>e_git := demo_git\<rparr>"

definition sync_demo_project :: project where
  "sync_demo_project = demo_project\<lparr>git_remote_url := Some ''u''\<rparr>"

definition sync_demo_store :: store where
  "sync_demo_store = (demo_work ''B'' demo_base)\<lparr>st_db := (st_db demo_store)\<lparr>projects := [sync_demo_project], cards := []\<rparr>\<rparr>"

definition sync_demo_request :: sync_request where
  "sync_demo_request = \<lparr>rq_pull = True, rq_push = True, rq_push_after_failed_pull = True, rq_branch = [], rq_now = 7\<rparr>"

definition sync_demo_run :: "sync_result result \<times> store" where
  "sync_demo_run = run_project_sync sync_demo_env sync_demo_net (\<lambda>_. (0, [])) ''p'' sync_demo_request sync_demo_store"

definition sync_demo_result :: sync_result where
  "sync_demo_result = (case fst sync_demo_run of Inl _ \<Rightarrow> undefined | Inr res \<Rightarrow> res)"

lemma sync_demo_outcomes:
  "case fst sync_demo_run of Inl _ \<Rightarrow> False
   | Inr res \<Rightarrow> pl_status (sr_pull res) = Failed \<and> ps_status (sr_push res) = Pushed \<and> pl_attempted (sr_pull res) \<and> ps_attempted (sr_push res)"
  by code_simp

lemma sync_demo_outcome:
  "\<not> isl (fst sync_demo_run)"
  "pl_status (sr_pull sync_demo_result) = Failed" "ps_status (sr_push sync_demo_result) = Pushed"
  "pl_attempted (sr_pull sync_demo_result)" "ps_attempted (sr_push sync_demo_result)"
  using sync_demo_outcomes by (auto simp: sync_demo_result_def split: sum.splits)

lemma sync_demo_runs:
  "run_project_sync sync_demo_env sync_demo_net (\<lambda>_. (0, [])) ''p'' sync_demo_request sync_demo_store = (Inr sync_demo_result, snd sync_demo_run)"
  using sync_demo_outcome(1) unfolding sync_demo_run_def sync_demo_result_def
  by (cases "run_project_sync sync_demo_env sync_demo_net (\<lambda>_. (0, [])) ''p'' sync_demo_request sync_demo_store")
    (auto simp: isl_def split: sum.splits)


theorem failed_push_backs_off_witness:
  "\<exists>d' row. record_push_result ''p'' ''network_error'' False None 7 (st_db sync_demo_store) = Inr d'
     \<and> sync_get ''p'' d' = Some row \<and> retry_count row = 1"
proof -
  have "sync_state_of ''p'' (st_db sync_demo_store) = empty_sync_state\<lparr>ss_project_id := ''p''\<rparr>" by code_simp
  then have n: "retry_count (sync_state_of ''p'' (st_db sync_demo_store)) = 0" by (simp add: empty_sync_state_def)
  have "\<not> isl (record_push_result ''p'' ''network_error'' False None 7 (st_db sync_demo_store))" by code_simp
  then obtain d' where d': "record_push_result ''p'' ''network_error'' False None 7 (st_db sync_demo_store) = Inr d'"
    by (auto simp: isl_def) (metis sum.exhaust)
  with failed_push_backs_off [OF d'] n show ?thesis by auto
qed


end
