(* ===== verification/Store_Files.thy ===== *)
theory Store_Files
  imports Card_Trash
begin

text \<open>
  What the Git steps of a store operation do to files and database: staging and commits leave the working files alone,
  opening a project too; a commit holds what the index held.
\<close>

lemma git_steps_files:
  "stage_path lib path d = Inr d' \<Longrightarrow> d_files d' = d_files d"
  "git_commit_op lib msg now d = Inr d' \<Longrightarrow> d_files d' = d_files d"
  "remove_path path d = Inr d' \<Longrightarrow> d_files d' = d_files d"
  "set_remote name url d = Inr d' \<Longrightarrow> d_files d' = d_files d"
  "d_files (open_or_init lib d) = d_files d"
  by (auto simp: stage_path_def git_commit_op_def remove_path_def set_remote_def open_or_init_def Let_def split: option.splits if_splits)

text \<open>The files of all project directories.\<close>

abbreviation files_of :: "store \<Rightarrow> path \<Rightarrow> path \<Rightarrow> bytes option" where
  "files_of s dir \<equiv> d_files (st_disks s dir)"

lemma open_project_files: "open_project env p s = (Inr (), t) \<Longrightarrow> files_of t = files_of s"
  by (auto simp: open_project_def op_simps fun_eq_iff git_steps_files split: option.splits)

lemma commit_op_files: "commit_op env p msg s = (Inr (), t) \<Longrightarrow> files_of t = files_of s \<and> st_db t = st_db s"
  by (auto simp: commit_op_def op_simps fun_eq_iff git_steps_files)

text \<open>The last commit of the current branch has the bytes at the path.\<close>

definition committed_at :: "git_lib \<Rightarrow> path \<Rightarrow> bytes \<Rightarrow> disk \<Rightarrow> bool" where
  "committed_at lib path b d =
     (case d_repo d of
        None \<Rightarrow> False
      | Some r \<Rightarrow> (case branch_tip_of r of
                     None \<Rightarrow> False
                   | Some i \<Rightarrow> (case r_commits r i of None \<Rightarrow> False | Some c \<Rightarrow> c_tree c path = Some (blob_id lib b))))"

lemma staged_then_committed:
  assumes "stage_path lib path d = Inr d1" and "d_files d path = Some b" and "git_commit_op lib msg now d1 = Inr d2"
  shows "committed_at lib path b d2"
  using assms by (auto simp: stage_path_def git_commit_op_def committed_at_def index_of_repo_def branch_tip_of_def Let_def
      split: option.splits if_splits)

lemma run_ok: "\<not> isl (fst x) \<Longrightarrow> x = (Inr (), snd x)" for x :: "unit result \<times> store"
  by (cases x; cases "fst x") auto

end
