(* ===== verification/Ai_Message_Store.thy ===== *)
theory Ai_Message_Store
  imports Store_Files Rebuild_Index
begin

text \<open>
  The operations of \<open>src/src/ai/AiMessageRepo.cpp\<close> that change files, rows and commits together, and
  \<open>write_ai_thread_manifest\<close>. An exception keeps what was done before it. The repository lock is not modelled.
\<close>

section \<open>Operations\<close>

text \<open>The thread and the project a message belongs to.\<close>

definition thread_project :: "string \<Rightarrow> db \<Rightarrow> (ai_thread \<times> project) result" where
  "thread_project tid d =
     (case threads_get tid d of
        None \<Rightarrow> Inl (RuntimeError ''thread not found for ai message'')
      | Some t \<Rightarrow> (case projects_get (th_project_id t) d of
                      None \<Rightarrow> Inl (RuntimeError ''project not found for ai message thread'')
                    | Some p \<Rightarrow> Inr (t, p)))"

definition op_project :: "string \<Rightarrow> project op" where
  "op_project tid = op_bind (db_read (thread_project tid)) (\<lambda>r. op_bind (op_lift r) (\<lambda>(t, p). op_return p))"

definition require_message :: "string \<Rightarrow> ai_message op" where
  "require_message mid =
     op_bind (db_read (messages_get mid))
       (\<lambda>mo. case mo of None \<Rightarrow> op_lift (Inl (RuntimeError (''ai message not found: '' @ mid))) | Some m \<Rightarrow> op_return m)"

definition write_message_file :: "env \<Rightarrow> project \<Rightarrow> path \<Rightarrow> ai_message \<Rightarrow> card_link list \<Rightarrow> unit op" where
  "write_message_file env p path m links =
     disk_try (root_path p) (git_write_file path (render_ai_message_front_matter (e_yaml env) m (proj_id p) links @ msg_content m))"

definition commit_path :: "env \<Rightarrow> project \<Rightarrow> path \<Rightarrow> string \<Rightarrow> unit op" where
  "commit_path env p path msg = op_then (disk_try (root_path p) (stage_path (e_git env) path)) (commit_op env p msg)"

text \<open>The statement of \<open>append\<close>; when it fails the file written for it is removed.\<close>

definition insert_message_or_unlink :: "project \<Rightarrow> path \<Rightarrow> ai_message \<Rightarrow> unit op" where
  "insert_message_or_unlink p path m =
     op_catch (db_try (insert_message m)) (\<lambda>e. op_then (disk_try (root_path p) (remove_file path)) (op_lift (Inl e)))"

definition append_message :: "env \<Rightarrow> ai_message \<Rightarrow> unit op" where
  "append_message env m =
     op_bind (op_project (msg_thread_id m))
     (\<lambda>p. op_then (open_project env p)
     (op_bind (op_lift (ai_message_rel_path (msg_id m)))
     (\<lambda>path. op_bind (disk_read (root_path p) (\<lambda>d. d_files d path))
     (\<lambda>file. op_then (op_require (file = None) (RuntimeError ''conflict: ai message file already exists''))
     (op_then (write_message_file env p path m [])
     (op_then (insert_message_or_unlink p path m)
     (op_then (op_when (e_fts env) (db_write (fts_upsert_message (msg_id m) (msg_thread_id m) (proj_id p) (msg_content m))))
     (commit_path env p path (''Add ai message '' @ msg_id m)))))))))"

definition edit_message :: "env \<Rightarrow> ai_message \<Rightarrow> unit op" where
  "edit_message env m =
     op_bind (op_project (msg_thread_id m))
     (\<lambda>p. op_then (open_project env p)
     (op_then (db_write (update_message_row m))
     (op_bind (op_lift (ai_message_rel_path (msg_id m)))
     (\<lambda>path. op_bind (db_read (list_outgoing (proj_id p) (msg_id m)))
     (\<lambda>links. op_then (write_message_file env p path m links)
     (commit_path env p path (''Update ai message '' @ msg_id m)))))))"

text \<open>Moving a message's file between its live path and the trash.\<close>

definition move_message_file :: "project \<Rightarrow> path \<Rightarrow> path \<Rightarrow> unit op" where
  "move_message_file p src dst =
     op_bind (disk_read (root_path p) (\<lambda>d. d_files d src))
     (\<lambda>file. op_then (op_require (file \<noteq> None) (RuntimeError ''ai message content missing''))
     (disk_try (root_path p) (fs_rename src dst)))"

definition commit_move :: "env \<Rightarrow> project \<Rightarrow> path \<Rightarrow> path \<Rightarrow> string \<Rightarrow> unit op" where
  "commit_move env p src dst msg = op_then (disk_try (root_path p) (remove_path src)) (commit_path env p dst msg)"

definition trash_message :: "env \<Rightarrow> string \<Rightarrow> i64 \<Rightarrow> unit op" where
  "trash_message env mid now =
     op_bind (require_message mid)
     (\<lambda>m. op_then (op_require (msg_deleted_at m = None) (RuntimeError ''ai message already deleted''))
     (op_bind (op_project (msg_thread_id m))
     (\<lambda>p. op_then (open_project env p)
     (op_bind (op_lift (ai_message_rel_path mid))
     (\<lambda>path. op_bind (op_lift (ai_message_trash_rel_path mid))
     (\<lambda>trash_rel. op_then (move_message_file p path trash_rel)
     (op_then (db_write (set_message_deleted mid (Some now)))
     (op_then (op_when (e_fts env) (db_write (fts_delete_message mid)))
     (commit_move env p path trash_rel (''Delete ai message '' @ mid))))))))))"

definition restore_message :: "env \<Rightarrow> string \<Rightarrow> unit op" where
  "restore_message env mid =
     op_bind (require_message mid)
     (\<lambda>m. op_then (op_require (msg_deleted_at m \<noteq> None) (RuntimeError ''ai message is not deleted''))
     (op_bind (op_project (msg_thread_id m))
     (\<lambda>p. op_then (open_project env p)
     (op_bind (op_lift (ai_message_rel_path mid))
     (\<lambda>path. op_bind (op_lift (ai_message_trash_rel_path mid))
     (\<lambda>trash_rel. op_then (move_message_file p trash_rel path)
     (op_then (db_write (set_message_deleted mid None))
     (op_then (op_when (e_fts env) (db_write (fts_upsert_message mid (msg_thread_id m) (proj_id p) (msg_content m))))
     (commit_move env p trash_rel path (''Restore ai message '' @ mid))))))))))"

text \<open>Only the removal of the file in the trash is committed.\<close>

definition unlink_path :: "project \<Rightarrow> path \<Rightarrow> unit op" where
  "unlink_path p path = op_then (disk_try (root_path p) (remove_file path)) (disk_try (root_path p) (remove_path path))"

definition remove_message_files :: "env \<Rightarrow> project \<Rightarrow> string \<Rightarrow> unit op" where
  "remove_message_files env p mid =
     op_bind (op_lift (ai_message_rel_path mid))
     (\<lambda>path. op_bind (op_lift (ai_message_trash_rel_path mid))
     (\<lambda>trash_rel. op_bind (disk_read (root_path p) (\<lambda>d. d_files d path \<noteq> None))
     (\<lambda>live. op_then (op_when live (unlink_path p path))
     (op_bind (disk_read (root_path p) (\<lambda>d. d_files d trash_rel \<noteq> None))
     (\<lambda>trashed. op_when trashed (op_then (unlink_path p trash_rel) (commit_op env p (''Remove ai message '' @ mid))))))))"

definition remove_message :: "env \<Rightarrow> string \<Rightarrow> unit op" where
  "remove_message env mid =
     op_bind (db_read (\<lambda>d. case messages_get mid d of None \<Rightarrow> None
                            | Some m \<Rightarrow> (case thread_project (msg_thread_id m) d of Inl _ \<Rightarrow> None | Inr (t, p) \<Rightarrow> Some p)))
     (\<lambda>po. case po of
        None \<Rightarrow> db_write (delete_message mid)
      | Some p \<Rightarrow>
          op_then (open_project env p)
          (op_then (db_write (delete_message mid))
          (op_then (db_write (delete_links_from (proj_id p) mid))
          (op_then (db_write (delete_links_to_typed (proj_id p) mid ''ai_message''))
          (remove_message_files env p mid)))))"

definition update_message_links :: "env \<Rightarrow> string \<Rightarrow> unit op" where
  "update_message_links env mid =
     op_bind (require_message mid)
     (\<lambda>m. op_bind (op_project (msg_thread_id m))
     (\<lambda>p. op_then (open_project env p)
     (op_bind (op_lift (ai_message_rel_path mid))
     (\<lambda>path. op_bind (disk_read (root_path p) (\<lambda>d. d_files d path))
     (\<lambda>file. op_then (op_require (file \<noteq> None) (RuntimeError ''ai message file missing''))
     (op_bind (db_read (list_outgoing (proj_id p) mid))
     (\<lambda>links. op_then (write_message_file env p path m links)
     (commit_path env p path (''Update ai message links '' @ mid)))))))))"

definition write_ai_thread_manifest :: "env \<Rightarrow> project \<Rightarrow> ai_thread \<Rightarrow> unit op" where
  "write_ai_thread_manifest env p t =
     op_bind (op_lift (ai_thread_manifest_rel_path (th_id t)))
     (\<lambda>path. op_then (disk_try (root_path p) (\<lambda>d. Inr (open_or_init (e_git env) d)))
     (op_bind (op_lift (render_ai_thread_manifest (e_crypto env) (e_json env) (e_keys env) (e_iv env path) p t))
     (\<lambda>bytes. op_then (disk_try (root_path p) (git_write_file path bytes))
     (disk_try (root_path p) (stage_path (e_git env) path)))))"

section \<open>What the steps do\<close>

lemma commit_path_files: "commit_path env p path msg s = (Inr (), t) \<Longrightarrow> files_of t = files_of s \<and> st_db t = st_db s"
  by (auto simp: commit_path_def op_simps fun_eq_iff git_steps_files dest!: commit_op_files)

lemma commit_move_files: "commit_move env p src dst msg s = (Inr (), t) \<Longrightarrow> files_of t = files_of s \<and> st_db t = st_db s"
  by (auto simp: commit_move_def op_simps fun_eq_iff git_steps_files dest!: commit_path_files)

lemma op_project_Inr: "op_project tid s = (Inr p, t) \<longleftrightarrow> (\<exists>th. thread_project tid (st_db s) = Inr (th, p)) \<and> t = s"
  by (auto simp: op_project_def op_simps split: prod.splits)

lemma messages_get_fts [simp]:
  "messages (fts_upsert_message mid tid pid text d) = messages d" "messages (fts_delete_message mid d) = messages d"
  by (simp_all add: fts_upsert_message_def fts_delete_message_def Let_def)

text \<open>A message that was appended: its row and its file.\<close>

lemma append_effect:
  assumes "append_message env m s = (Inr (), t)"
  obtains th p path where "thread_project (msg_thread_id m) (st_db s) = Inr (th, p)" "ai_message_rel_path (msg_id m) = Inr path"
    "files_of s (root_path p) path = None"
    "files_of t = (files_of s)(root_path p := (files_of s (root_path p))(path \<mapsto>
        render_ai_message_front_matter (e_yaml env) m (proj_id p) [] @ msg_content m))"
    "messages (st_db t) = messages (st_db s) @ [bind_message m]" "msg_id (bind_message m) \<notin> msg_id ` set (messages (st_db s))"
proof -
  from assms obtain th p path s1 s2 s3 s4 where o: "thread_project (msg_thread_id m) (st_db s) = Inr (th, p)"
    "open_project env p s = (Inr (), s1)" "ai_message_rel_path (msg_id m) = Inr path" "files_of s1 (root_path p) path = None"
    "write_message_file env p path m [] s1 = (Inr (), s2)" "insert_message_or_unlink p path m s2 = (Inr (), s3)"
    "op_when (e_fts env) (db_write (fts_upsert_message (msg_id m) (msg_thread_id m) (proj_id p) (msg_content m))) s3 = (Inr (), s4)"
    "commit_path env p path (''Add ai message '' @ msg_id m) s4 = (Inr (), t)"
    unfolding append_message_def by (auto simp: op_bind_Inr op_lift_eq disk_read_eq op_project_Inr require_eq_Inr)
  have s2: "s2 = s1\<lparr>st_disks := (st_disks s1)(root_path p := (st_disks s1 (root_path p))\<lparr>d_files := (d_files (st_disks s1 (root_path p)))
      (path \<mapsto> render_ai_message_front_matter (e_yaml env) m (proj_id p) [] @ msg_content m)\<rparr>)\<rparr>"
    using o(5) by (simp add: write_message_file_def git_write_file_def op_simps)
  from o(6) obtain d where d: "insert_message m (st_db s2) = Inr d" "s3 = s2\<lparr>st_db := d\<rparr>"
    by (auto simp: insert_message_or_unlink_def op_simps)
  have db: "st_db s1 = st_db s" by (rule open_project_same_db [OF o(2)])
  have "messages (st_db t) = messages d" "files_of t = files_of s3"
    using commit_path_files [OF o(8)] o(7) by (auto simp: op_simps d(2) split: if_splits)
  with that [OF o(1,3)] o(4) d db open_project_files [OF o(2)] show thesis
    by (auto simp: s2 message_table.ins_iff fun_eq_iff bind_message_def)
qed

text \<open>
  C14: A message that was appended survives the loss of the index: its row is there, and reading its file as a rebuild
  does gives the message with every field and its content. This holds in plain projects only: message files are not
  encrypted.
\<close>

theorem appended_message_rebuilt:
  assumes ok: "append_message env m s = (Inr (), t)" and p: "thread_project (msg_thread_id m) (st_db s) = Inr (th, p)"
    and yaml: "faithful (e_yaml env) (emit_message m (proj_id p) [])" and plain: "privacy_mode p \<noteq> ''encrypted_git''"
    and m: "0 < msg_created_at m" "msg_role m \<noteq> []" "msg_source m \<noteq> []" "msg_thread_id m \<noteq> []" "msg_deleted_at m = None"
  shows "\<exists>path. ai_message_rel_path (msg_id m) = Inr path \<and> bind_message m \<in> set (messages (st_db t))
     \<and> rebuild_message_file env p (st_disks t (root_path p)) False path = Inr \<lparr>mr_message = m, mr_links = []\<rparr>"
proof -
  obtain path where e: "ai_message_rel_path (msg_id m) = Inr path"
    "files_of t = (files_of s)(root_path p := (files_of s (root_path p))(path \<mapsto>
        render_ai_message_front_matter (e_yaml env) m (proj_id p) [] @ msg_content m))"
    "messages (st_db t) = messages (st_db s) @ [bind_message m]"
    by (rule append_effect [OF ok]) (use p in auto)
  let ?raw = "render_ai_message_front_matter (e_yaml env) m (proj_id p) [] @ msg_content m"
  have f: "d_files (st_disks t (root_path p)) path = Some ?raw" using fun_cong [OF e(2), of "root_path p"] by simp
  have l: "4 \<le> length (msg_id m)" using e(1) by (auto simp: ai_message_rel_path_def split: if_splits)
  then have n: "msg_id m \<noteq> []" by auto
  have "rebuild_message_file env p (st_disks t (root_path p)) False path = Inr \<lparr>mr_message = m, mr_links = []\<rparr>"
    using f l n e(1) plain m message_file_parses [OF yaml, of "msg_content m"]
    by (simp add: rebuild_message_file_def decode_blob_for_project_def record_message_def)
  with e show ?thesis by auto
qed

lemma plaintext_not_envelope: "\<exists>e. decrypt_project_blob cl jl keys pid k (lf_opening @ x) = Inl e"
proof -
  have "next_line msg (lf_opening @ x) = Inr (''---'', x)" for msg
    by (simp add: next_line_def getline_def lf_opening_def)
  then have "isl (parse_envelope jl (lf_opening @ x))"
    by (simp add: parse_envelope_def strip_cr_def envelope_magic_def)
  then obtain e where e: "parse_envelope jl (lf_opening @ x) = Inl e" by (auto simp: isl_def)
  show ?thesis
    by (auto simp: decrypt_project_blob_def decrypt_envelope_v1_def e crypto_failed_def rbind_def split: sum.splits exn.splits)
qed

lemma message_file_listed:
  assumes "ai_message_rel_path mid = Inr path" and "CHR ''/'' \<notin> set mid"
  shows "path_extension path = ''.md''" and "starts_with path ''ai_messages/''"
proof -
  from assms(1) have q: "path = (''ai_messages/'' @ take 2 mid @ ''/'' @ take 2 (drop 2 mid)) @ CHR ''/'' # (mid @ ''.md'')" "4 \<le> length mid"
    by (auto simp: ai_message_rel_path_def split: if_splits)
  have "path_filename path = mid @ ''.md''" unfolding q(1) using assms(2) by (intro path_filename_append) auto
  moreover have "takeWhile (\<lambda>x. x \<noteq> CHR ''.'') (rev (mid @ ''.md'')) = ''dm''" by simp
  moreover have "mid \<noteq> []" using q(2) by auto
  ultimately show "path_extension path = ''.md''" using q(2) by (simp add: path_extension_def Let_def)
  show "starts_with path ''ai_messages/''" unfolding q(1) by (simp add: starts_with_def)
qed

lemma rmap_fails: "x \<in> set xs \<Longrightarrow> f x = Inl e \<Longrightarrow> rmap f xs \<noteq> Inr ys"
  by (induction xs arbitrary: ys) (auto simp: rbind_eq_Inr)


lemma move_message_file_effect:
  assumes "move_message_file p src dst s = (Inr (), t)"
  obtains b where "files_of s (root_path p) src = Some b"
    "files_of t = (files_of s)(root_path p := (files_of s (root_path p))(src := None, dst := Some b))" "st_db t = st_db s"
  using assms by (auto simp: move_message_file_def fs_rename_def op_simps fun_eq_iff split: option.splits)

lemma require_message_Inr: "require_message mid s = (Inr m, t) \<longleftrightarrow> messages_get mid (st_db s) = Some m \<and> t = s"
  by (auto simp: require_message_def op_simps split: option.splits)

lemma op_when_fts: "op_when b (db_write f) s = (Inr (), t) \<Longrightarrow> st_disks t = st_disks s \<and> (st_db t = st_db s \<or> st_db t = f (st_db s))"
  by (auto simp: op_simps split: if_splits)

lemma threads_fts [simp]:
  "threads (fts_upsert_message mid tid pid text d) = threads d" "threads (fts_delete_message mid d) = threads d"
  by (simp_all add: fts_upsert_message_def fts_delete_message_def Let_def)

lemma projects_fts [simp]: "projects (fts_delete_message mid d) = projects d"
  by (simp add: fts_delete_message_def)

lemma trash_effect:
  assumes "trash_message env mid now s = (Inr (), t)"
  obtains m th p path b where "messages_get mid (st_db s) = Some m" "msg_deleted_at m = None"
    "thread_project (msg_thread_id m) (st_db s) = Inr (th, p)" "ai_message_rel_path mid = Inr path"
    "files_of s (root_path p) path = Some b"
    "files_of t = (files_of s)(root_path p := (files_of s (root_path p))(path := None, ''trash/'' @ path := Some b))"
    "messages (st_db t) = messages (set_message_deleted mid (Some now) (st_db s))" "threads (st_db t) = threads (st_db s)"
    "projects (st_db t) = projects (st_db s)"
proof -
  from assms obtain m th p path s1 s2 s3 where o: "messages_get mid (st_db s) = Some m" "msg_deleted_at m = None"
    "thread_project (msg_thread_id m) (st_db s) = Inr (th, p)" "open_project env p s = (Inr (), s1)" "ai_message_rel_path mid = Inr path"
    "move_message_file p path (''trash/'' @ path) s1 = (Inr (), s2)"
    "op_when (e_fts env) (db_write (fts_delete_message mid)) (s2\<lparr>st_db := set_message_deleted mid (Some now) (st_db s2)\<rparr>) = (Inr (), s3)"
    "commit_move env p path (''trash/'' @ path) (''Delete ai message '' @ mid) s3 = (Inr (), t)"
    unfolding trash_message_def
    by (auto simp: op_bind_Inr op_lift_eq db_write_eq op_project_Inr require_message_Inr require_eq_Inr ai_message_trash_rel_path_def rbind_eq_Inr)
  obtain b where b: "files_of s1 (root_path p) path = Some b"
    "files_of s2 = (files_of s1)(root_path p := (files_of s1 (root_path p))(path := None, ''trash/'' @ path := Some b))" "st_db s2 = st_db s1"
    by (rule move_message_file_effect [OF o(6)])
  have "st_db t = st_db s3" "files_of t = files_of s3" using commit_move_files [OF o(8)] by auto
  moreover have "st_db s1 = st_db s" "files_of s1 = files_of s" using open_project_same_db [OF o(4)] open_project_files [OF o(4)] by auto
  moreover from this(2) have f: "files_of s1 dir = files_of s dir" for dir by (rule fun_cong)
  have "messages (st_db s3) = messages (set_message_deleted mid (Some now) (st_db s2))" "threads (st_db s3) = threads (st_db s2)"
    "projects (st_db s3) = projects (st_db s2)" "files_of s3 = files_of s2"
    using op_when_fts [OF o(7)] by (auto simp: set_message_deleted_def update_message_def projects_fts)
  ultimately show thesis
    by (intro that [OF o(1-3,5)]) (use b in \<open>simp_all add: f\<close>)
qed

lemma restore_effect:
  assumes "restore_message env mid s = (Inr (), t)"
  obtains m th p path b where "messages_get mid (st_db s) = Some m"
    "thread_project (msg_thread_id m) (st_db s) = Inr (th, p)" "ai_message_rel_path mid = Inr path"
    "files_of s (root_path p) (''trash/'' @ path) = Some b"
    "files_of t = (files_of s)(root_path p := (files_of s (root_path p))(''trash/'' @ path := None, path := Some b))"
    "messages (st_db t) = messages (set_message_deleted mid None (st_db s))" "threads (st_db t) = threads (st_db s)"
proof -
  from assms obtain m th p path s1 s2 s3 where o: "messages_get mid (st_db s) = Some m"
    "thread_project (msg_thread_id m) (st_db s) = Inr (th, p)" "open_project env p s = (Inr (), s1)" "ai_message_rel_path mid = Inr path"
    "move_message_file p (''trash/'' @ path) path s1 = (Inr (), s2)"
    "op_when (e_fts env) (db_write (fts_upsert_message mid (msg_thread_id m) (proj_id p) (msg_content m)))
       (s2\<lparr>st_db := set_message_deleted mid None (st_db s2)\<rparr>) = (Inr (), s3)"
    "commit_move env p (''trash/'' @ path) path (''Restore ai message '' @ mid) s3 = (Inr (), t)"
    unfolding restore_message_def
    by (auto simp: op_bind_Inr op_lift_eq db_write_eq op_project_Inr require_message_Inr require_eq_Inr ai_message_trash_rel_path_def rbind_eq_Inr)
  obtain b where b: "files_of s1 (root_path p) (''trash/'' @ path) = Some b"
    "files_of s2 = (files_of s1)(root_path p := (files_of s1 (root_path p))(''trash/'' @ path := None, path := Some b))" "st_db s2 = st_db s1"
    by (rule move_message_file_effect [OF o(5)])
  have "st_db t = st_db s3" "files_of t = files_of s3" using commit_move_files [OF o(7)] by auto
  moreover have "st_db s1 = st_db s" "files_of s1 = files_of s" using open_project_same_db [OF o(3)] open_project_files [OF o(3)] by auto
  moreover from this(2) have f: "files_of s1 dir = files_of s dir" for dir by (rule fun_cong)
  have "messages (st_db s3) = messages (set_message_deleted mid None (st_db s2))" "threads (st_db s3) = threads (st_db s2)"
    "files_of s3 = files_of s2"
    using op_when_fts [OF o(6)] by (auto simp: set_message_deleted_def update_message_def)
  ultimately show thesis
    by (intro that [OF o(1,2,4)]) (use b in \<open>simp_all add: f\<close>)
qed

text \<open>
  C15: Restoring a message undoes its trashing: the rows of threads and messages and all files are as before the trashing,
  provided the place in the trash was free.
\<close>

theorem restore_undoes_trash_message:
  assumes trash: "trash_message env mid now s = (Inr (), t)" and restore: "restore_message env mid t = (Inr (), u)"
    and free: "\<And>path dir. ai_message_trash_rel_path mid = Inr path \<Longrightarrow> files_of s dir path = None" and wf: "wf_ai (st_db s)"
  shows "messages (st_db u) = messages (st_db s) \<and> threads (st_db u) = threads (st_db s) \<and> files_of u = files_of s"
proof -
  obtain m th p path b where t: "messages_get mid (st_db s) = Some m" "msg_deleted_at m = None"
    "thread_project (msg_thread_id m) (st_db s) = Inr (th, p)" "ai_message_rel_path mid = Inr path" "files_of s (root_path p) path = Some b"
    "files_of t = (files_of s)(root_path p := (files_of s (root_path p))(path := None, ''trash/'' @ path := Some b))"
    "messages (st_db t) = messages (set_message_deleted mid (Some now) (st_db s))" "threads (st_db t) = threads (st_db s)"
    "projects (st_db t) = projects (st_db s)"
    by (rule trash_effect [OF trash])
  obtain m' th' p' b' where u: "messages_get mid (st_db t) = Some m'" "thread_project (msg_thread_id m') (st_db t) = Inr (th', p')"
    "files_of t (root_path p') (''trash/'' @ path) = Some b'"
    "files_of u = (files_of t)(root_path p' := (files_of t (root_path p'))(''trash/'' @ path := None, path := Some b'))"
    "messages (st_db u) = messages (set_message_deleted mid None (st_db t))" "threads (st_db u) = threads (st_db t)"
    by (rule restore_effect [OF restore]) (use t(4) in auto)
  have k: "inj_on msg_id (set (messages (st_db s)))" using wf by (simp add: wf_ai_def distinct_map)
  from t(1) have m: "m \<in> set (messages (st_db s))" "msg_id m = c_str mid" by (auto simp: messages_get_def dest: find_SomeD)
  have rows: "update_where (\<lambda>m. msg_id m = c_str mid) (\<lambda>m. m\<lparr>msg_deleted_at := None\<rparr>)
      (update_where (\<lambda>m. msg_id m = c_str mid) (\<lambda>m. m\<lparr>msg_deleted_at := Some now\<rparr>) (messages (st_db s))) = messages (st_db s)"
    unfolding update_where_def map_map
  proof (rule map_idI)
    fix x assume x: "x \<in> set (messages (st_db s))"
    show "((\<lambda>x. if msg_id x = c_str mid then x\<lparr>msg_deleted_at := None\<rparr> else x) \<circ>
        (\<lambda>x. if msg_id x = c_str mid then x\<lparr>msg_deleted_at := Some now\<rparr> else x)) x = x"
    proof (cases "msg_id x = c_str mid")
      case True
      with x m k have "x = m" by (auto simp: inj_on_def)
      with t(2) show ?thesis by (cases m) simp
    qed simp
  qed
  have "msg_thread_id m' = msg_thread_id m"
  proof -
    have "m' = m\<lparr>msg_deleted_at := Some now\<rparr>"
      using u(1) t(1,7) m unfolding messages_get_def set_message_deleted_def update_message_def
      by (simp add: find_update_where_same)
    then show ?thesis by simp
  qed
  then have p: "p' = p" using u(2) t(3,8,9) by (auto simp: thread_project_def threads_get_def projects_get_def split: option.splits)
  have "messages (st_db u) = messages (st_db s)"
    using u(5) t(7) rows by (simp add: set_message_deleted_def update_message_def)
  moreover have "files_of u = files_of s"
    using u(3,4) t(4-6) free [of "''trash/'' @ path" "root_path p"] unfolding p
    by (auto simp: fun_eq_iff ai_message_trash_rel_path_def)
  ultimately show ?thesis using u(6) t(8) by simp
qed

section \<open>A project with one thread\<close>

definition ai_demo_path :: path where
  "ai_demo_path = ''ai_messages/mm/mm/mmmm.md''"

definition ai_demo_message :: ai_message where
  "ai_demo_message = demo_message\<lparr>msg_content := ''Hi'', msg_created_at := 3\<rparr>"

definition ai_demo_env :: env where
  "ai_demo_env = (demo_env None)\<lparr>e_yaml := demo_message_yaml\<lparr>load_text := \<lambda>_. Some (NMap
     [(NScalar ''message_id'', NScalar ''mmmm''), (NScalar ''project_id'', NScalar ''p''), (NScalar ''thread_id'', NScalar ''tttt''),
      (NScalar ''role'', NScalar ''user''), (NScalar ''source'', NScalar ''api''), (NScalar ''provider'', NNull),
      (NScalar ''model'', NScalar ''x''), (NScalar ''created_at'', NScalar ''3''), (NScalar ''prompt_hash'', NNull),
      (NScalar ''meta_json'', NNull), (NScalar ''links'', NSeq [])]), as_int := [''3'' \<mapsto> 3]\<rparr>,
     e_walk := \<lambda>files. filter (\<lambda>q. files q \<noteq> None) [''cards/ab/cd/abcd.md'', ai_demo_path]\<rparr>"

definition ai_demo_store :: "project \<Rightarrow> ai_message list \<Rightarrow> (path \<Rightarrow> bytes option) \<Rightarrow> store" where
  "ai_demo_store p ms files = demo_store\<lparr>st_db := (st_db demo_store)\<lparr>projects := [p],
       db_ai := \<lparr>ai_threads = [demo_thread], ai_messages = ms, ai_fts = []\<rparr>\<rparr>,
     st_disks := \<lambda>_. (st_disks demo_store ''/p'')\<lparr>d_files := files\<rparr>\<rparr>"

definition ai_demo_sealed :: project where
  "ai_demo_sealed = demo_project\<lparr>privacy_mode := ''encrypted_git'', project_key_id := Some ''k''\<rparr>"

theorem appended_message_rebuilt_witness:
  "\<exists>path t. append_message ai_demo_env ai_demo_message (ai_demo_store demo_project [] Map.empty) = (Inr (), t)
     \<and> rebuild_message_file ai_demo_env demo_project (st_disks t (root_path demo_project)) False path
       = Inr \<lparr>mr_message = ai_demo_message, mr_links = []\<rparr>"
proof -
  let ?s = "ai_demo_store demo_project [] Map.empty"
  have "\<not> isl (fst (append_message ai_demo_env ai_demo_message ?s))" by code_simp
  note ok = run_ok [OF this]
  have p: "thread_project (msg_thread_id ai_demo_message) (st_db ?s) = Inr (demo_thread, demo_project)" by code_simp
  have y: "faithful (e_yaml ai_demo_env) (emit_message ai_demo_message (proj_id demo_project) [])"
    by (simp add: faithful_def ai_demo_env_def demo_message_yaml_def demo_yaml_def emit_message_def ai_demo_message_def demo_message_def
        empty_message_def emit_opt_def starts_with_def)
  have "privacy_mode demo_project \<noteq> ''encrypted_git''" by simp
  from appended_message_rebuilt [OF ok p y this] ok show ?thesis
    by (auto simp: ai_demo_message_def demo_message_def empty_message_def)
qed


theorem restore_undoes_trash_message_witness:
  "\<exists>t u. trash_message ai_demo_env ''mmmm'' 9 (ai_demo_store demo_project [ai_demo_message] [ai_demo_path \<mapsto> ''x'']) = (Inr (), t)
     \<and> restore_message ai_demo_env ''mmmm'' t = (Inr (), u)
     \<and> files_of u = files_of (ai_demo_store demo_project [ai_demo_message] [ai_demo_path \<mapsto> ''x''])"
proof -
  let ?s = "ai_demo_store demo_project [ai_demo_message] [ai_demo_path \<mapsto> ''x'']"
  have "\<not> isl (fst (trash_message ai_demo_env ''mmmm'' 9 ?s))" by code_simp
  note t = run_ok [OF this]
  have "\<not> isl (fst (restore_message ai_demo_env ''mmmm'' (snd (trash_message ai_demo_env ''mmmm'' 9 ?s))))" by code_simp
  note u = run_ok [OF this]
  have f: "files_of ?s dir path = None" if "ai_message_trash_rel_path ''mmmm'' = Inr path" for dir path
  proof -
    have "ai_message_trash_rel_path ''mmmm'' = Inr (''trash/'' @ ai_demo_path)" by code_simp
    with that show ?thesis by (auto simp: ai_demo_store_def ai_demo_path_def)
  qed
  have "wf_ai (st_db ?s)" by code_simp
  from restore_undoes_trash_message [OF t u f this] t u show ?thesis by blast
qed

end
