(* ===== verification/Resource_Store.thy ===== *)
theory Resource_Store
  imports Store_Files Rebuild_Index
begin

text \<open>
  The stores of resources and storage locations (\<open>src/src/resource/ResourceStore.cpp\<close>,
  \<open>src/src/resource/LocationStore.cpp\<close>): the manifest is written and committed first; a statement that then fails is
  made up for by a rebuild of the project, without a search index. The repository lock is not modelled.
\<close>

section \<open>Shared steps\<close>

definition known_project :: "string \<Rightarrow> project op" where
  "known_project pid =
     op_bind (db_read (projects_get pid))
       (\<lambda>po. case po of None \<Rightarrow> op_lift (Inl (RuntimeError (''project not found: '' @ pid))) | Some p \<Rightarrow> op_return p)"

definition encode_manifest :: "env \<Rightarrow> project \<Rightarrow> path \<Rightarrow> string \<Rightarrow> bytes result" where
  "encode_manifest env p path plain = seal_card env p path plain"

definition decode_manifest :: "env \<Rightarrow> project \<Rightarrow> bytes \<Rightarrow> string result" where
  "decode_manifest env p raw = decode_card_blob env p raw"

text \<open>\<open>catch (...)\<close>: the rebuild's own exception is passed on.\<close>

definition or_rebuild :: "env \<Rightarrow> project \<Rightarrow> unit op \<Rightarrow> unit op" where
  "or_rebuild env p m = op_catch m (\<lambda>_. op_bind (rebuild_project (env\<lparr>e_fts := False\<rparr>) p) (\<lambda>_. op_return ()))"

definition write_manifest :: "env \<Rightarrow> project \<Rightarrow> path \<Rightarrow> string result \<Rightarrow> string \<Rightarrow> unit op" where
  "write_manifest env p path rendered msg =
     op_bind (op_lift rendered)
     (\<lambda>plain. op_bind (op_lift (encode_manifest env p path plain))
     (\<lambda>bytes. op_then (disk_try (root_path p) (git_write_file path bytes))
     (op_then (stage_and_check env p path)
     (commit_op env p msg))))"

section \<open>Resources\<close>

definition put_resource :: "env \<Rightarrow> resource_bundle \<Rightarrow> unit op" where
  "put_resource env b =
     op_bind (known_project (res_project_id (rb_resource b)))
     (\<lambda>p. op_then (open_project env p)
     (op_bind (op_lift (resource_rel_path (res_id (rb_resource b))))
     (\<lambda>path. op_then (write_manifest env p path (render_resource_manifest (e_json env) b) (''Update resource '' @ res_label (rb_resource b)))
     (or_rebuild env p (op_tx (db_try (put_bundle b)))))))"

text \<open>One card that links to the resource: its file is rewritten without these links.\<close>

definition keeps_link :: "string \<Rightarrow> card_link \<Rightarrow> bool" where
  "keeps_link rid l \<longleftrightarrow> \<not> (to_type l = ''resource'' \<and> to_card_id l = rid)"

definition read_linking_card :: "env \<Rightarrow> project \<Rightarrow> path \<Rightarrow> disk \<Rightarrow> parsed_file result" where
  "read_linking_card env p path d =
     (case d_files d path of
        None \<Rightarrow> Inl (RuntimeError ''Failed to open for read'')
      | Some raw \<Rightarrow> rbind (decode_manifest env p raw) (\<lambda>plain. Inr (parse_card_file (e_yaml env) plain)))"

definition unlink_card :: "env \<Rightarrow> project \<Rightarrow> string \<Rightarrow> i64 \<Rightarrow> card \<Rightarrow> path op" where
  "unlink_card env p rid now c =
     op_bind (op_lift (card_rel_path (card_id c)))
     (\<lambda>path. op_then (op_require (rel_path c = path) (RuntimeError ''card rel_path does not match card_id''))
     (op_bind (disk_check (root_path p) (read_linking_card env p path))
     (\<lambda>parsed. op_bind (op_lift (encode_manifest env p path
            (render_card_front_matter (e_yaml env) (c\<lparr>updated_at := now\<rparr>) (filter (keeps_link rid) (pf_links parsed)) (pf_milestones parsed)
              @ pf_body parsed)))
     (\<lambda>bytes. op_then (disk_try (root_path p) (git_write_file path bytes))
     (op_then (disk_try (root_path p) (stage_path (e_git env) path))
     (op_return path))))))"

text \<open>The live cards that link to the resource, each once, in the order of the links.\<close>

fun linking_cards :: "db \<Rightarrow> card_link list \<Rightarrow> string list \<Rightarrow> card list" where
  "linking_cards d [] seen = []"
| "linking_cards d (l # ls) seen =
     (if from_card_id l \<in> set seen then linking_cards d ls seen
      else case cards_get (from_card_id l) d of
             None \<Rightarrow> linking_cards d ls seen
           | Some c \<Rightarrow> if deleted_at c \<noteq> None then linking_cards d ls seen
                       else c # linking_cards d ls (from_card_id l # seen))"

definition drop_resource_rows :: "string \<Rightarrow> string \<Rightarrow> string list \<Rightarrow> i64 \<Rightarrow> unit op" where
  "drop_resource_rows pid rid changed now =
     op_then (db_write (delete_links_to_typed pid rid ''resource''))
     (op_then (op_each (\<lambda>cid. db_write (touch_updated cid now)) changed)
     (db_write (resources_remove rid)))"

definition remove_resource :: "env \<Rightarrow> string \<Rightarrow> unit op" where
  "remove_resource env rid =
     op_bind (db_read (get_bundle rid))
     (\<lambda>bo. case bo of
        None \<Rightarrow> op_lift (Inl (RuntimeError (''resource not found: '' @ rid)))
      | Some b \<Rightarrow>
     op_bind (known_project (res_project_id (rb_resource b)))
     (\<lambda>p. op_then (open_project env p)
     (op_bind (op_lift (resource_rel_path rid))
     (\<lambda>path. op_bind (db_read (\<lambda>d. linking_cards d (list_backlinks_typed (proj_id p) rid ''resource'' d) []))
     (\<lambda>linking. op_bind (op_map (unlink_card env p rid (e_now env)) linking)
     (\<lambda>staged. op_then (disk_try (root_path p) (remove_file path))
     (op_then (disk_try (root_path p) (remove_path path))
     (op_then (disk_check (root_path p) (assert_project_staged_blobs_safe env p staged))
     (op_then (commit_op env p (''Remove resource '' @ res_label (rb_resource b)))
     (or_rebuild env p (op_tx (drop_resource_rows (proj_id p) rid (map card_id linking) (e_now env)))))))))))))"

section \<open>Locations\<close>

definition put_location :: "env \<Rightarrow> location \<Rightarrow> unit op" where
  "put_location env l =
     op_bind (known_project (loc_project_id l))
     (\<lambda>p. op_then (open_project env p)
     (op_bind (op_lift (location_rel_path (loc_id l)))
     (\<lambda>path. op_then (write_manifest env p path (render_location_manifest (e_json env) l) (''Update storage location '' @ loc_name l))
     (or_rebuild env p (db_try (locations_put (e_json env) l))))))"

definition remove_location :: "env \<Rightarrow> string \<Rightarrow> unit op" where
  "remove_location env lid =
     op_bind (db_read (locations_get (e_json env) lid))
     (\<lambda>r. op_bind (op_lift r)
     (\<lambda>lo. case lo of
        None \<Rightarrow> op_lift (Inl (RuntimeError (''location not found: '' @ lid)))
      | Some l \<Rightarrow>
     op_bind (db_read (is_in_use lid))
     (\<lambda>used. op_then (op_require (\<not> used) (RuntimeError ''storage location is in use by an asset placement''))
     (op_bind (known_project (loc_project_id l))
     (\<lambda>p. op_then (open_project env p)
     (op_bind (op_lift (location_rel_path lid))
     (\<lambda>path. op_then (disk_try (root_path p) (remove_file path))
     (op_then (disk_try (root_path p) (remove_path path))
     (op_then (commit_op env p (''Remove storage location '' @ loc_name l))
     (or_rebuild env p (db_try (locations_remove lid))))))))))))"

section \<open>What is durable\<close>

lemma known_project_Inr: "known_project pid s = (Inr p, t) \<longleftrightarrow> projects_get pid (st_db s) = Some p \<and> t = s"
  by (auto simp: known_project_def op_simps split: option.splits)

lemma seal_decodes_blob:
  assumes "seals env p" and "seal_card env p path plain = Inr raw"
  shows "decode_blob_for_project env p raw = Inr plain"
proof -
  from assms have "decode_card_blob env p raw = Inr plain" by (simp add: seals_def)
  with assms(2) show ?thesis
    by (auto simp: decode_card_blob_def decode_blob_for_project_def seal_card_def require_project_key_id_def rbind_eq_Inr split: if_splits option.splits)
qed

lemma stage_and_check_Inr:
  "stage_and_check env p path s = (Inr (), t) \<Longrightarrow>
     \<exists>d. stage_path (e_git env) path (st_disks s (root_path p)) = Inr d \<and> t = s\<lparr>st_disks := (st_disks s)(root_path p := d)\<rparr>"
  by (auto simp: stage_and_check_def op_simps)

text \<open>The manifest is in its file and in the last commit, encoded so that a rebuild decodes it.\<close>

definition durable_manifest :: "env \<Rightarrow> project \<Rightarrow> path \<Rightarrow> string \<Rightarrow> store \<Rightarrow> bool" where
  "durable_manifest env p path plain s \<longleftrightarrow> (\<exists>raw. files_of s (root_path p) path = Some raw
     \<and> decode_blob_for_project env p raw = Inr plain \<and> committed_at (e_git env) path raw (st_disks s (root_path p)))"

lemma write_manifest_durable:
  assumes ok: "write_manifest env p path rendered msg s = (Inr (), t)" and seal: "seals env p"
  obtains plain where "rendered = Inr plain" "durable_manifest env p path plain t" "st_db t = st_db s"
proof -
  from ok obtain plain raw s1 s2 s3 where o: "rendered = Inr plain" "encode_manifest env p path plain = Inr raw"
    "disk_try (root_path p) (git_write_file path raw) s = (Inr (), s1)" "stage_and_check env p path s1 = (Inr (), s2)"
    "commit_op env p msg s2 = (Inr (), t)"
    by (auto simp: write_manifest_def op_bind_Inr op_lift_eq)
  from o(3) have s1: "files_of s1 (root_path p) path = Some raw" "st_db s1 = st_db s" by (auto simp: op_simps git_write_file_def)
  from stage_and_check_Inr [OF o(4)] obtain d where d: "stage_path (e_git env) path (st_disks s1 (root_path p)) = Inr d"
    "s2 = s1\<lparr>st_disks := (st_disks s1)(root_path p := d)\<rparr>" by blast
  from o(5) d(2) obtain d2 where d2: "git_commit_op (e_git env) msg (e_now env) d = Inr d2"
    "t = s2\<lparr>st_disks := (st_disks s2)(root_path p := d2)\<rparr>" by (auto simp: commit_op_def op_simps)
  have "committed_at (e_git env) path raw d2" using staged_then_committed [OF d(1) s1(1) d2(1)] .
  moreover have "d_files d2 path = Some raw" using git_steps_files(1) [OF d(1)] git_steps_files(2) [OF d2(1)] s1(1) by simp
  ultimately have "durable_manifest env p path plain t"
    using seal_decodes_blob [OF seal] o(2) by (auto simp: durable_manifest_def d2(2) encode_manifest_def)
  with o(1) s1(2) d(2) d2(2) show thesis by (intro that) simp_all
qed

text \<open>
  C17: The files are the truth for resources. When a resource is put, its manifest is in the working directory and in the last
  commit before the index is touched, in a form from which a rebuild parses the same bundle. Then either the rows are
  written, or, when a constraint forbids them, the index is what a rebuild makes of the files.
\<close>

theorem put_resource_commits_first:
  assumes ok: "put_resource env b s = (Inr (), t)" and b: "bundle_ok b"
    and json: "pretty_keeps (e_json env) (bundle_json (rb_resource b) (map asset_value (rb_assets b)))"
    and seal: "\<forall>p. projects_get (res_project_id (rb_resource b)) (st_db s) = Some p \<longrightarrow> seals env p"
  shows "\<exists>p path doc u. projects_get (res_project_id (rb_resource b)) (st_db s) = Some p
     \<and> resource_rel_path (res_id (rb_resource b)) = Inr path \<and> durable_manifest env p path doc u
     \<and> parse_resource_manifest (e_json env) doc = Inr b \<and> st_db u = st_db s
     \<and> (case put_bundle b (st_db s) of
          Inr d \<Rightarrow> t = u\<lparr>st_db := d\<rparr>
        | Inl _ \<Rightarrow> \<exists>st. rebuild_project (env\<lparr>e_fts := False\<rparr>) p u = (Inr st, t))"
proof -
  from ok obtain p path s1 u where o: "projects_get (res_project_id (rb_resource b)) (st_db s) = Some p"
    "open_project env p s = (Inr (), s1)" "resource_rel_path (res_id (rb_resource b)) = Inr path"
    "write_manifest env p path (render_resource_manifest (e_json env) b) (''Update resource '' @ res_label (rb_resource b)) s1 = (Inr (), u)"
    "or_rebuild env p (op_tx (db_try (put_bundle b))) u = (Inr (), t)"
    by (auto simp: put_resource_def op_bind_Inr op_lift_eq known_project_Inr)
  obtain doc where w: "render_resource_manifest (e_json env) b = Inr doc" "durable_manifest env p path doc u" "st_db u = st_db s1"
    by (rule write_manifest_durable [OF o(4)]) (use seal o(1) in auto)
  have db: "st_db u = st_db s" using w(3) open_project_same_db [OF o(2)] by simp
  have "parse_resource_manifest (e_json env) doc = Inr b" using rendered_manifest_parses [OF b json] w(1) by auto
  moreover have "case put_bundle b (st_db s) of Inr d \<Rightarrow> t = u\<lparr>st_db := d\<rparr>
      | Inl _ \<Rightarrow> \<exists>st. rebuild_project (env\<lparr>e_fts := False\<rparr>) p u = (Inr st, t)"
    using o(5) by (auto simp: or_rebuild_def op_simps db [symmetric] split: sum.splits)
  ultimately show ?thesis using o(1,3) w(2) db by blast
qed

lemma touch_all:
  "op_each (\<lambda>cid. db_write (touch_updated cid now)) cs s = (Inr (), s\<lparr>st_db := fold (\<lambda>cid. touch_updated cid now) cs (st_db s)\<rparr>)"
  by (induction cs arbitrary: s) (simp_all add: op_return_def op_bind_def db_write_def)

lemma drop_resource_rows_Inr:
  "\<exists>u. drop_resource_rows pid rid changed now s = (Inr (), u) \<and> st_disks u = st_disks s
     \<and> st_db u = resources_remove rid (fold (\<lambda>cid. touch_updated cid now) changed (delete_links_to_typed pid rid ''resource'' (st_db s)))"
  by (simp add: drop_resource_rows_def op_bind_def db_write_def touch_all)

lemma fold_touch_sel:
  "db_res (fold (\<lambda>cid. touch_updated cid now) cs d) = db_res d" "card_links (fold (\<lambda>cid. touch_updated cid now) cs d) = card_links d"
  by (induction cs arbitrary: d) (simp_all add: touch_updated_def update_cards_def)

lemma get_bundle_removed: "get_bundle rid (resources_remove rid d) = None"
proof -
  have "find (\<lambda>r. rr_id r = c_str rid) (resources (db_res (resources_remove rid d))) = None"
    by (auto simp: find_None_iff resources_remove_def delete_resources_def delete_assets_def Let_def)
  then show ?thesis by (simp add: get_bundle_def resources_get_def)
qed


section \<open>A project with one location\<close>

definition res_demo_env :: env where
  "res_demo_env = (demo_env None)\<lparr>e_json := demo_manifest_json\<rparr>"

definition res_demo_store :: store where
  "res_demo_store = demo_store\<lparr>st_db := (st_db demo_store)\<lparr>db_res := no_resources\<lparr>storage_locations :=
     [\<lparr>lr_id = ''llll'', lr_project_id = ''p'', lr_name = ''n'', lr_provider = ''local'', lr_config_json = [], lr_created_at = 1,
       lr_updated_at = 1\<rparr>]\<rparr>\<rparr>\<rparr>"

definition res_demo_put :: "unit result \<times> store" where
  "res_demo_put = put_resource res_demo_env demo_manifest_bundle res_demo_store"

lemma res_demo_runs:
  "\<not> isl (fst res_demo_put)" "\<not> isl (fst (remove_resource res_demo_env ''rrrr'' (snd res_demo_put)))"
  by code_simp+

theorem put_resource_commits_first_witness:
  "\<exists>t p path doc u. put_resource res_demo_env demo_manifest_bundle res_demo_store = (Inr (), t) \<and> durable_manifest res_demo_env p path doc u
     \<and> parse_resource_manifest demo_manifest_json doc = Inr demo_manifest_bundle"
proof -
  have ok: "put_resource res_demo_env demo_manifest_bundle res_demo_store = (Inr (), snd res_demo_put)"
    using run_ok [OF res_demo_runs(1)] by (simp add: res_demo_put_def)
  have b: "bundle_ok demo_manifest_bundle" by code_simp
  have j: "pretty_keeps (e_json res_demo_env) (bundle_json (rb_resource demo_manifest_bundle) (map asset_value (rb_assets demo_manifest_bundle)))"
    by (simp add: pretty_keeps_def res_demo_env_def demo_manifest_json_def Let_def)
  have "projects_get (res_project_id (rb_resource demo_manifest_bundle)) (st_db res_demo_store) = Some demo_project" by code_simp
  then have "\<forall>p. projects_get (res_project_id (rb_resource demo_manifest_bundle)) (st_db res_demo_store) = Some p \<longrightarrow> seals res_demo_env p"
    by (simp add: seals_def seal_card_def decode_card_blob_def)
  from put_resource_commits_first [OF ok b j this] ok show ?thesis by (auto simp: res_demo_env_def)
qed


end
