(* ===== verification/Store_Schema.thy ===== *)
theory Store_Schema
  imports Sync_Run Ai_Message_Store Resource_Store
begin

text \<open>
  The whole system: any history of operations on cards, messages, resources, locations, projects and syncs, each of
  which may fail at any point, with any changes to the directories in between, keeps the constraints of the schema.
\<close>

section \<open>Messages and resources\<close>

lemma message_steps_statements [statement_ops]:
  "op_keeps by_statements (op_project tid)" "op_keeps by_statements (require_message mid)"
  "op_keeps by_statements (write_message_file env p path m links)" "op_keeps by_statements (commit_path env p path msg)"
  "op_keeps by_statements (insert_message_or_unlink p path m)" "op_keeps by_statements (move_message_file p path dst)"
  "op_keeps by_statements (unlink_path p path)"
  unfolding op_project_def require_message_def write_message_file_def commit_path_def insert_message_or_unlink_def
    move_message_file_def unlink_path_def
  by (intro keeps_intros statement_ops; auto intro!: keeps_intros)+

lemma message_files_statements [statement_ops]:
  "op_keeps by_statements (commit_move env p path dst msg)" "op_keeps by_statements (remove_message_files env p mid)"
  "op_keeps by_statements (write_ai_thread_manifest env p th)"
  unfolding commit_move_def remove_message_files_def write_ai_thread_manifest_def by (intro keeps_intros statement_ops)+

lemma message_ops_statements [statement_ops]:
  "op_keeps by_statements (append_message env m)" "op_keeps by_statements (edit_message env m)"
  "op_keeps by_statements (trash_message env mid now)" "op_keeps by_statements (restore_message env mid)"
  "op_keeps by_statements (remove_message env mid)" "op_keeps by_statements (update_message_links env mid)"
  unfolding append_message_def edit_message_def trash_message_def restore_message_def remove_message_def update_message_links_def
  by (intro keeps_intros statement_ops)+

lemma resource_steps_statements [statement_ops]:
  "op_keeps by_statements (known_project pid)" "op_keeps by_statements (write_manifest env p path rendered msg)"
  "op_keeps by_statements (unlink_card env p rid now c)" "op_keeps by_statements (drop_resource_rows pid rid changed now)"
  unfolding known_project_def write_manifest_def unlink_card_def drop_resource_rows_def by (intro keeps_intros statement_ops)+

lemma or_rebuild_statements [statement_ops]: "op_keeps by_statements m \<Longrightarrow> op_keeps by_statements (or_rebuild env p m)"
  unfolding or_rebuild_def by (intro keeps_intros) (auto intro!: keeps_intros statement_ops)

lemma resource_ops_statements [statement_ops]:
  "op_keeps by_statements (put_resource env b)" "op_keeps by_statements (remove_resource env rid)"
  "op_keeps by_statements (put_location env l)" "op_keeps by_statements (remove_location env lid)"
  unfolding put_resource_def remove_resource_def put_location_def remove_location_def by (intro keeps_intros statement_ops)+

section \<open>Histories\<close>

text \<open>
  A step of the system: an operation that returns or throws, a statement outside of the stores, or a change of the
  directories by someone else.
\<close>

inductive store_step :: "store \<Rightarrow> store \<Rightarrow> bool" where
  create: "create_card env c content key s = (r, t) \<Longrightarrow> store_step s t"
| batch: "create_batch env draws ms_ids pid items msg s = (r, t) \<Longrightarrow> store_step s t"
| content: "update_content env cid content ttl now s = (r, t) \<Longrightarrow> store_step s t"
| move: "move_card env cid has_parent parent key now s = (r, t) \<Longrightarrow> store_step s t"
| links: "update_links env cid now s = (r, t) \<Longrightarrow> store_step s t"
| milestones: "update_milestones env cid now s = (r, t) \<Longrightarrow> store_step s t"
| milestone: "update_milestone env pid cid mid upd now s = (r, t) \<Longrightarrow> store_step s t"
| move_to: "move_to env pid cid req now s = (r, t) \<Longrightarrow> store_step s t"
| trash: "trash env cid now children s = (r, t) \<Longrightarrow> store_step s t"
| restore: "restore_card env cid now s = (r, t) \<Longrightarrow> store_step s t"
| version: "restore_version env cid historical now s = (r, t) \<Longrightarrow> store_step s t"
| hard_delete: "hard_delete env cid s = (r, t) \<Longrightarrow> store_step s t"
| plan: "plan_repair env pid s = (r, t) \<Longrightarrow> store_step s t"
| repair: "repair_hierarchy env pid now s = (r, t) \<Longrightarrow> store_step s t"
| add_tag: "add_tag env cid tg now s = (r, t) \<Longrightarrow> store_step s t"
| remove_tag: "remove_tag env cid tg now s = (r, t) \<Longrightarrow> store_step s t"
| read: "get_content env c s = (r, t) \<Longrightarrow> store_step s t"
| editable: "list_editable_tags env cid s = (r, t) \<Longrightarrow> store_step s t"
| page: "list_complete_page env pid after limit s = (r, t) \<Longrightarrow> store_step s t"
| collection: "list_collection env pid q limit with_content s = (r, t) \<Longrightarrow> store_step s t"
| append: "append_message env m s = (r, t) \<Longrightarrow> store_step s t"
| edit: "edit_message env m s = (r, t) \<Longrightarrow> store_step s t"
| trash_message: "trash_message env mid now s = (r, t) \<Longrightarrow> store_step s t"
| restore_message: "restore_message env mid s = (r, t) \<Longrightarrow> store_step s t"
| remove_message: "remove_message env mid s = (r, t) \<Longrightarrow> store_step s t"
| message_links: "update_message_links env mid s = (r, t) \<Longrightarrow> store_step s t"
| thread_manifest: "write_ai_thread_manifest env p th s = (r, t) \<Longrightarrow> store_step s t"
| put_resource: "put_resource env b s = (r, t) \<Longrightarrow> store_step s t"
| remove_resource: "remove_resource env rid s = (r, t) \<Longrightarrow> store_step s t"
| put_location: "put_location env l s = (r, t) \<Longrightarrow> store_step s t"
| remove_location: "remove_location env lid s = (r, t) \<Longrightarrow> store_step s t"
| rebuild: "rebuild_project env p s = (r, t) \<Longrightarrow> store_step s t"
| sync: "run_project_sync env net draw pid request s = (r, t) \<Longrightarrow> store_step s t"
| statement: "statement (st_db s) d \<Longrightarrow> store_step s (s\<lparr>st_db := d\<rparr>)"
| project: "project_step (st_db s) d \<Longrightarrow> store_step s (s\<lparr>st_db := d\<rparr>)"
| outside: "st_db t = st_db s \<Longrightarrow> store_step s t"

lemma by_statements_step: "op_keeps by_statements m \<Longrightarrow> m s = (r, t) \<Longrightarrow> wf_tables (st_db s) \<Longrightarrow> wf_tables (st_db t)"
  using op_keepsD by_statements_schema by blast

lemma store_step_keeps_schema: "store_step s t \<Longrightarrow> wf_tables (st_db s) \<Longrightarrow> wf_tables (st_db t)"
proof (induction rule: store_step.induct)
  case (statement s d)
  then show ?case using statement_keeps_schema by simp
next
  case (project s d)
  then show ?case using wf_project_step by simp
next
  case (outside t s)
  then show ?case by simp
qed (erule (1) by_statements_step [rotated]; intro statement_ops)+


text \<open>A card is trashed and its row deleted, which also clears the references to it.\<close>

definition demo_trashed :: store where
  "demo_trashed = snd (trash (demo_env None) ''abcd'' 5 TrashSubtree demo_store)"


end
