(* ===== verification/Spec2Isabelle.thy ===== *)
theory Spec2Isabelle
  imports Tag_Line_Editor Card_Index Hierarchy_Repair Card_Placement Card_Reference
    Card_Lifecycle Card_Front_Matter Privacy Card_Changes Card_Trash Rebuild_Index Sync_Run
    Ai_Message_Store Resource_Store Store_Schema
begin

text \<open>
  \<^bold>\<open>Verification of holder-core.\<close>

  holder-core keeps projects of Markdown cards. The files of a project live in a Git working directory and are the
  truth; an SQLite database is an index over them. A card store changes files, rows and commits together, a rebuild
  recovers the rows from the files, a sync exchanges commits with a remote.

  \<^bold>\<open>The parts and their theories.\<close>

  \<^item> \<open>Holder_Prelude\<close>: exceptions, results (\<open>Inl\<close> an exception, \<open>Inr\<close> a value), C strings, byte classes, ordered
    insertion and binary search, table updates. The locales \<open>keyed_order\<close> and \<open>keyset_page\<close> state what a sort order
    and a page query promise; they are interpreted for doubles, the tree order and both page orders.
  \<^item> \<open>Doubles\<close>: IEEE binary64 as rationals with round to nearest, ties to even, for sort keys.
  \<^item> \<open>Card_Model\<close>: the structs of \<open>src/src/model\<close> and the tables of \<open>src/schema/schema.sql\<close> as lists of rows.
  \<^item> \<open>Card_Repo\<close>, \<open>Card_Index\<close>, \<open>Project_Repo\<close>: every SQL statement of \<open>card/CardRepo.cpp\<close>, \<open>card/LinkRepo.cpp\<close>,
    \<open>card/MilestoneRepo.cpp\<close>, \<open>card/TagRepo.cpp\<close>, \<open>index/FtsIndexer.cpp\<close> and \<open>project/ProjectRepo.cpp\<close> as a function on
    the tables; the schema's keys, foreign keys and uniqueness are an invariant every statement keeps. The locale
    \<open>keyed_table\<close> is the contract of a table replaced card by card, interpreted for tags and milestones.
  \<^item> \<open>Ai_Repo\<close>, \<open>Resource_Repo\<close>, \<open>Resource_Tables\<close>: the statements of \<open>ai/AiThreadRepo.cpp\<close>,
    \<open>ai/AiMessageRepo.cpp\<close>, \<open>resource/ResourceRepo.cpp\<close>, \<open>resource/LocationRepo.cpp\<close> and what they keep of the schema.
  \<^item> \<open>Json_Value\<close>, \<open>Ai_Files\<close>, \<open>Resource_Manifest\<close>: JSON values and their printed form, message files and thread
    manifests (\<open>ai/AiMessageFrontMatter.cpp\<close>, \<open>ai/AiThreadManifest.cpp\<close>), the manifests of resources and locations
    (\<open>resource/ResourceManifest.cpp\<close>).
  \<^item> \<open>Tag_Extractor\<close>, \<open>Tag_Line_Editor\<close>: tags in card bodies (\<open>card/TagExtractor.cpp\<close>, \<open>card/TagLineEditor.cpp\<close>).
  \<^item> \<open>Card_Hierarchy\<close>, \<open>Card_Tree\<close>, \<open>Hierarchy_Repair\<close>, \<open>Card_Placement\<close>, \<open>Card_Reference\<close>, \<open>Identity\<close>: sort keys, the
    tree of cards and its repair (\<open>card/CardHierarchy.cpp\<close>), placements by intent
    (\<open>card/CardPlacementResolver.cpp\<close>), references (\<open>card/CardReferenceResolver.cpp\<close>), identifiers
    (\<open>identity/Uuid.cpp\<close>).
  \<^item> \<open>Card_Front_Matter\<close>, \<open>Privacy\<close>: card files (\<open>card/CardFrontMatter.cpp\<close>) and their encryption
    (\<open>privacy/CryptoService.cpp\<close>, \<open>privacy/ProjectPrivacy.cpp\<close>).
  \<^item> \<open>Git_Model\<close>, \<open>Card_Mutation\<close>, \<open>Card_Lifecycle\<close>: a working directory with index, references and commits
    (\<open>git/GitRepo.cpp\<close>), the journal of multi-file changes (\<open>card/CardMutation.cpp\<close>) and what rollback and crash
    recovery guarantee.
  \<^item> \<open>Store_Monad\<close>, \<open>Card_Store\<close>, \<open>Card_Changes\<close>, \<open>Card_Trash\<close>: operations on database and directories that may throw in
    the middle, every operation of \<open>card/CardStore.cpp\<close>, and what changes of several cards and trashing guarantee.
  \<^item> \<open>Rebuilder\<close>, \<open>Rebuild_Index\<close>: the reconstruction of the index from locations, resources, cards, threads and
    messages (\<open>project/Rebuilder.cpp\<close>).
  \<^item> \<open>Store_Files\<close>, \<open>Ai_Message_Store\<close>, \<open>Resource_Store\<close>: the operations of \<open>ai/AiMessageRepo.cpp\<close>,
    \<open>resource/ResourceStore.cpp\<close> and \<open>resource/LocationStore.cpp\<close> on files, commits and rows together.
  \<^item> \<open>Git_Remote\<close>, \<open>Git_Merge\<close>: pull, file-level merge, push, sync metrics (\<open>git/GitRepo.cpp\<close>,
    \<open>git/RepoSyncMetrics.cpp\<close>).
  \<^item> \<open>Project_Sync\<close>, \<open>Sync_Run\<close>: stored sync state, retry policy, conflict copies and the sync operation
    (\<open>project/ProjectSyncRepo.cpp\<close>, \<open>src/src/sync\<close>).
  \<^item> \<open>Db_Statements\<close>, \<open>Store_Schema\<close>: every operation changes the rows by statements of the repositories only, whether it
    returns or throws; so what every statement keeps, every history of operations keeps.

  \<^bold>\<open>How code corresponds to definitions.\<close> A struct is a record, a table a list of its rows in insertion order, a
  statement a function on the database that fails where a constraint of the schema fails. A throwing function
  returns \<open>Inl\<close> of the exception. A store operation is a function from database and directories to a result and the
  state after it, so what was done before an exception stays done, as in the code; \<open>op_tx\<close> is a transaction. Text
  bound to a statement is cut at its first NUL byte (\<open>c_str\<close>). Definitions have the names of the C++ functions where
  these are free.

  \<^bold>\<open>What the lemmas show.\<close> The system: every history of operations keeps the schema's constraints on
  all tables. The tables: pages that neither skip nor repeat, cascades, tag and milestone round trips. The tree: insertion lands where asked with finite keys, validated moves keep every card
  reachable, the repair plan is complete. Files: what is rendered is parsed back, sealed blobs open, recovery tokens
  carry the key. Changes: a failed change of several cards is undone in database, files, index and branches; a crash
  is recovered to before or after; a successful change is one update of the abstract map from ids to rows and bodies;
  trashing a subtree takes exactly the live descendants. Rebuild: reproduces the rows, keeps
  the schema whatever the files hold, ends, and needs the parents. Messages and resources: what is appended or put is
  in a file a rebuild reads back, trashing is undone by restoring, a removed resource leaves nothing; a message in an
  encrypted project makes its rebuild fail.
  Sync: a merge keeps both sides, a pull only moves forward, outcomes are recorded and failures reported, retries are
  spaced.

  \<^bold>\<open>Bounds and termination.\<close> All recursions terminate by proof; no fuel is used except where the code has a bound:
  the walk for a landed commit stops after 10000 commits and the ancestor walk of placements after 1024 cards, as in
  the code. Inserting cards widens a window until it spans the list and always finds keys for fewer than \<open>2 ^ 48\<close>
  siblings. The rounds of the rebuild shrink the list of remaining records. Timestamps are compared and stored;
  32-bit retry counters are not followed past \<open>2 ^ 31\<close> failures.

  \<^bold>\<open>Parameters.\<close> yaml-cpp, nlohmann::json, md4c, libsodium, OpenSSL, libgit2 and the network are records of
  functions whose documented behaviour appears as named hypotheses; the theorems that use them have witnesses with
  concrete instances. Clock, random bytes, keyring contents, directory order and modification times are arguments.

  \<^bold>\<open>Not modelled.\<close> The C interface (\<open>src/src/capi\<close>) translates arguments. \<open>src/src/platform\<close> opens, migrates and swaps
  SQLite files; \<open>privacy/PlatformKeyring.cpp\<close> and \<open>privacy/SecretStore.cpp\<close> call operating system keyrings; the
  credential providers and locks of \<open>src/src/git\<close> are callbacks and process state. The history views
  are read-only walks over the commits; link kinds, AI runs and provider settings are tables of settings and counts;
  asset import streams files through a cipher; project manifests, import and startup recovery lay out directories. I/O faults of SQLite and the file system
  appear only where a theorem is about them, as the failing step of a journaled change. Operations run one at a time,
  as the repository locks make them.
\<close>

end
